(* ===== verification/Prelude.thy ===== *)
theory Prelude
  imports Main "HOL-Library.Word"
begin

text \<open>
  Shared vocabulary of the development: outcomes of fallible Rust code, machine
  integers, byte strings in big-endian order, and the list and word lemmas that the
  component theories use.

  A Rust function that returns \<^verbatim>\<open>Result<T, E>\<close> is a function into
  \<open>('e, 'a) result\<close>: \<open>Ok\<close> and \<open>Err\<close> are the two variants of the Rust type and
  \<open>Panic\<close> is the third way a call can end, the unwinding panic (a slice out of
  range, a failed \<^verbatim>\<open>unwrap\<close>, a checked conversion that does not fit, a capacity
  overflow).  A process that runs out of memory is not modelled.

  \<^verbatim>\<open>usize\<close> is 64 bits wide and written as \<open>nat\<close>, with the wrap-around or the check
  written out where an operation can leave the range; \<^verbatim>\<open>u8\<close>, \<^verbatim>\<open>u64\<close> and \<^verbatim>\<open>U256\<close>
  are words.  Plain \<open>+\<close> on primitive integers wraps, which is what the release
  profile of the workspace does (it sets no overflow-checks); \<open>+\<close> on the library
  type \<^verbatim>\<open>U256\<close> panics on overflow in every profile.
\<close>

unbundle bit_operations_syntax

subsection \<open>Outcomes\<close>

datatype ('e, 'a) result = Ok 'a | Err 'e | Panic

fun bind_res :: "('e, 'a) result \<Rightarrow> ('a \<Rightarrow> ('e, 'b) result) \<Rightarrow> ('e, 'b) result" where
  "bind_res (Ok x) f = f x"
| "bind_res (Err e) f = Err e"
| "bind_res Panic f = Panic"

fun map_err :: "('e \<Rightarrow> 'f) \<Rightarrow> ('e, 'a) result \<Rightarrow> ('f, 'a) result" where
  "map_err f (Ok x) = Ok x"
| "map_err f (Err e) = Err (f e)"
| "map_err f Panic = Panic"

fun map_ok :: "('a \<Rightarrow> 'b) \<Rightarrow> ('e, 'a) result \<Rightarrow> ('e, 'b) result" where
  "map_ok f (Ok x) = Ok (f x)"
| "map_ok f (Err e) = Err e"
| "map_ok f Panic = Panic"

text \<open>
  Code whose recursion may not end takes fuel and returns \<open>None\<close> when the fuel is used up; \<open>bind_run\<close>
  is the operator \<^verbatim>\<open>?\<close> on such computations.
\<close>

type_synonym ('e, 'a) run = "('e, 'a) result option"

fun bind_run :: "('e, 'a) run \<Rightarrow> ('a \<Rightarrow> ('e, 'b) run) \<Rightarrow> ('e, 'b) run" where
  "bind_run None f = None"
| "bind_run (Some (Ok x)) f = f x"
| "bind_run (Some (Err e)) f = Some (Err e)"
| "bind_run (Some Panic) f = Some Panic"

lemma bind_run_cong [fundef_cong]:
  "r = s \<Longrightarrow> (\<And>x. s = Some (Ok x) \<Longrightarrow> f x = g x) \<Longrightarrow> bind_run r f = bind_run s g"
  by (cases "(s, f)" rule: bind_run.cases) auto

lemma bind_run_eq_Ok [simp]:
  "bind_run r f = Some (Ok y) \<longleftrightarrow> (\<exists>x. r = Some (Ok x) \<and> f x = Some (Ok y))"
  by (cases "(r, f)" rule: bind_run.cases) auto

lemma bind_run_eq_None:
  "bind_run r f = None \<longleftrightarrow> r = None \<or> (\<exists>x. r = Some (Ok x) \<and> f x = None)"
  by (cases "(r, f)" rule: bind_run.cases) auto

definition ends :: "'a option \<Rightarrow> bool" where
  "ends r \<longleftrightarrow> r \<noteq> None"

lemma ends_Some [simp]: "ends (Some x)"
  by (simp add: ends_def)

lemma ends_bind_run [intro]:
  "ends r \<Longrightarrow> (\<And>x. r = Some (Ok x) \<Longrightarrow> ends (f x)) \<Longrightarrow> ends (bind_run r f)"
  by (cases "(r, f)" rule: bind_run.cases) (auto simp: ends_def)

lemma bind_res_eq_Ok [simp]:
  "bind_res r f = Ok y \<longleftrightarrow> (\<exists>x. r = Ok x \<and> f x = Ok y)"
  by (cases r) auto

lemma map_ok_eq_Ok [simp]: "map_ok f r = Ok y \<longleftrightarrow> (\<exists>x. r = Ok x \<and> y = f x)"
  by (cases r) auto

lemma bind_res_eq_Err:
  "bind_res r f = Err e \<longleftrightarrow> r = Err e \<or> (\<exists>x. r = Ok x \<and> f x = Err e)"
  by (cases r) auto

lemma bind_res_eq_Panic:
  "bind_res r f = Panic \<longleftrightarrow> r = Panic \<or> (\<exists>x. r = Ok x \<and> f x = Panic)"
  by (cases r) auto

lemma map_ok_eq_Err [simp]: "map_ok f r = Err e \<longleftrightarrow> r = Err e"
  by (cases r) auto

lemma map_ok_eq_Panic [simp]: "map_ok f r = Panic \<longleftrightarrow> r = Panic"
  by (cases r) auto

lemma map_err_eq_Ok [simp]: "map_err f r = Ok y \<longleftrightarrow> r = Ok y"
  by (cases r) auto

subsection \<open>Machine integers\<close>

type_synonym u8 = "8 word"
type_synonym u32 = "32 word"
type_synonym u64 = "64 word"
type_synonym U256 = "256 word"
type_synonym H256 = "256 word"
type_synonym Address = "160 word"
type_synonym bytes = "u8 list"

abbreviation usize_max :: nat where "usize_max \<equiv> 2 ^ 64 - 1"
abbreviation isize_max :: nat where "isize_max \<equiv> 2 ^ 63 - 1"
abbreviation u64_max :: u64 where "u64_max \<equiv> - 1"

definition wrap64 :: "nat \<Rightarrow> nat" where
  "wrap64 n = n mod 2 ^ 64"

definition saturating_add64 :: "u64 \<Rightarrow> u64 \<Rightarrow> u64" where
  "saturating_add64 a b = (if unat a + unat b < 2 ^ 64 then a + b else u64_max)"

definition saturating_sub64 :: "u64 \<Rightarrow> u64 \<Rightarrow> u64" where
  "saturating_sub64 a b = (if b \<le> a then a - b else 0)"

definition saturating_mul64 :: "u64 \<Rightarrow> u64 \<Rightarrow> u64" where
  "saturating_mul64 a b = (if unat a * unat b < 2 ^ 64 then a * b else u64_max)"

definition saturating_add_usize :: "nat \<Rightarrow> nat \<Rightarrow> nat" where
  "saturating_add_usize a b = min (a + b) usize_max"

definition checked_add_usize :: "nat \<Rightarrow> nat \<Rightarrow> nat option" where
  "checked_add_usize a b = (if a + b \<le> usize_max then Some (a + b) else None)"

text \<open>The checked conversions of \<^verbatim>\<open>U256\<close>: they panic when the value does not fit.\<close>

definition as_usize :: "U256 \<Rightarrow> ('e, nat) result" where
  "as_usize v = (if unat v \<le> usize_max then Ok (unat v) else Panic)"

definition as_u64 :: "U256 \<Rightarrow> ('e, u64) result" where
  "as_u64 v = (if unat v \<le> usize_max then Ok (ucast v) else Panic)"

definition checked_add256 :: "U256 \<Rightarrow> U256 \<Rightarrow> U256 option" where
  "checked_add256 a b = (if unat a + unat b < 2 ^ 256 then Some (a + b) else None)"

definition saturating_add256 :: "U256 \<Rightarrow> U256 \<Rightarrow> U256" where
  "saturating_add256 a b = (if unat a + unat b < 2 ^ 256 then a + b else - 1)"

text \<open>A vector of \<open>n\<close> zero bytes: a capacity above \<^verbatim>\<open>isize::MAX\<close> panics.\<close>

definition vec_zeros :: "nat \<Rightarrow> ('e, bytes) result" where
  "vec_zeros n = (if n \<le> isize_max then Ok (replicate n 0) else Panic)"

text \<open>\<^verbatim>\<open>Vec::resize(n, 0)\<close>: truncates, or pads with zeros.\<close>

definition vec_resize :: "bytes \<Rightarrow> nat \<Rightarrow> ('e, bytes) result" where
  "vec_resize xs n =
     (if n \<le> length xs then Ok (take n xs)
      else if n \<le> isize_max then Ok (xs @ replicate (n - length xs) 0)
      else Panic)"

text \<open>The slice \<^verbatim>\<open>xs[a..b]\<close>: panics unless \<open>a \<le> b \<le> xs.len()\<close>.\<close>

definition slice :: "'a list \<Rightarrow> nat \<Rightarrow> nat \<Rightarrow> ('e, 'a list) result" where
  "slice xs a b = (if a \<le> b \<and> b \<le> length xs then Ok (take (b - a) (drop a xs)) else Panic)"

lemma unat_u64_max: "unat u64_max = 2 ^ 64 - 1"
  by (simp add: unsigned_minus_1_eq_mask mask_eq_exp_minus_1)

lemma unat_less_u64_max: "a \<noteq> u64_max \<Longrightarrow> unat a < 2 ^ 64 - 1"
proof (rule ccontr)
  assume a: "a \<noteq> u64_max" and "\<not> unat a < 2 ^ 64 - 1"
  then have "unat a = unat u64_max"
    using unsigned_less [of a, where ?'a = nat] by (simp add: unat_u64_max)
  then have "a = u64_max" by (simp only: word_unat_eq_iff)
  with a show False by simp
qed

lemma unat_saturating_add64:
  "unat (saturating_add64 a b) = min (unat a + unat b) (2 ^ 64 - 1)"
proof (cases "unat a + unat b < 2 ^ 64")
  case True
  then show ?thesis by (simp add: saturating_add64_def unat_word_ariths)
next
  case False
  then show ?thesis by (simp add: saturating_add64_def unsigned_minus_1_eq_mask mask_eq_exp_minus_1)
qed

lemma unat_saturating_sub64: "unat (saturating_sub64 a b) = unat a - unat b"
  by (auto simp: saturating_sub64_def unat_sub word_le_nat_alt)

lemma unat_saturating_mul64:
  "unat (saturating_mul64 a b) = min (unat a * unat b) (2 ^ 64 - 1)"
proof (cases "unat a * unat b < 2 ^ 64")
  case True
  then show ?thesis by (simp add: saturating_mul64_def unat_word_ariths)
next
  case False
  then show ?thesis by (simp add: saturating_mul64_def unsigned_minus_1_eq_mask mask_eq_exp_minus_1)
qed

lemma unat_ucast_small:
  assumes "unat (w :: 'a::len word) < 2 ^ LENGTH('b)"
  shows "unat (ucast w :: 'b::len word) = unat w"
proof -
  have "unat (ucast w :: 'b word) = take_bit LENGTH('b) (unat w)"
    by (simp only: unsigned_ucast_eq)
  also have "\<dots> = unat w" using assms by (simp add: take_bit_nat_eq_self_iff)
  finally show ?thesis .
qed

lemma ucast_ucast_small:
  assumes "unat (w :: 'a::len word) < 2 ^ LENGTH('b)"
  shows "ucast (ucast w :: 'b::len word) = w"
proof -
  have "unat (ucast (ucast w :: 'b word) :: 'a word) = unat (ucast w :: 'b word)"
    using unsigned_less [of w, where ?'a = nat]
    by (intro unat_ucast_small) (simp add: unat_ucast_small [OF assms])
  also have "\<dots> = unat w" by (rule unat_ucast_small [OF assms])
  finally show ?thesis by (simp only: word_unat_eq_iff)
qed

lemma slice_eq_Ok [simp]:
  "slice xs a b = Ok ys \<longleftrightarrow> a \<le> b \<and> b \<le> length xs \<and> ys = take (b - a) (drop a xs)"
  by (auto simp: slice_def)

subsection \<open>Big-endian byte strings\<close>

definition be_nat :: "bytes \<Rightarrow> nat" where
  "be_nat bs = foldl (\<lambda>acc b. acc * 256 + unat b) 0 bs"

fun be_digits :: "nat \<Rightarrow> nat \<Rightarrow> bytes" where
  "be_digits 0 x = []"
| "be_digits (Suc n) x = be_digits n (x div 256) @ [of_nat (x mod 256)]"

text \<open>\<^verbatim>\<open>from_big_endian\<close> and \<^verbatim>\<open>to_big_endian\<close> of an integer \<open>n\<close> bytes wide.\<close>

definition from_be :: "bytes \<Rightarrow> 'a::len word" where
  "from_be bs = of_nat (be_nat bs)"

definition to_be :: "nat \<Rightarrow> 'a::len word \<Rightarrow> bytes" where
  "to_be n w = be_digits n (unat w)"

text \<open>The suffix from the first non-zero byte on.\<close>

definition strip_zeros :: "bytes \<Rightarrow> bytes" where
  "strip_zeros bs = dropWhile (\<lambda>b. b = 0) bs"

lemma be_nat_Nil [simp]: "be_nat [] = 0"
  by (simp add: be_nat_def)

lemma be_nat_snoc [simp]: "be_nat (bs @ [b]) = be_nat bs * 256 + unat b"
  by (simp add: be_nat_def)

lemma be_nat_single [simp]: "be_nat [b] = unat b"
  by (simp add: be_nat_def)

lemma length_be_digits [simp]: "length (be_digits n x) = n"
  by (induction n arbitrary: x) auto

lemma length_to_be [simp]: "length (to_be n w) = n"
  by (simp add: to_be_def)

lemma unat_of_nat_mod_256 [simp]: "unat (of_nat (x mod 256) :: u8) = x mod 256"
  by (simp add: unat_of_nat)

lemma be_nat_be_digits: "be_nat (be_digits n x) = x mod 256 ^ n"
proof (induction n arbitrary: x)
  case 0
  then show ?case by simp
next
  case (Suc n)
  have "x mod 256 ^ Suc n = x div 256 mod 256 ^ n * 256 + x mod 256"
    by (simp add: mod_mult2_eq)
  then show ?case by (simp add: Suc)
qed

lemma be_digits_be_nat: "be_digits (length bs) (be_nat bs) = bs"
proof (induction bs rule: rev_induct)
  case Nil
  then show ?case by simp
next
  case (snoc b bs)
  have lt: "unat b < 256" using unsigned_less [of b] by simp
  then have "(be_nat bs * 256 + unat b) div 256 = be_nat bs"
    and "(be_nat bs * 256 + unat b) mod 256 = unat b"
    by simp_all
  with snoc show ?case by simp
qed

lemma be_nat_append: "be_nat (xs @ ys) = be_nat xs * 256 ^ length ys + be_nat ys"
proof (induction ys rule: rev_induct)
  case Nil
  then show ?case by simp
next
  case (snoc y ys)
  have "be_nat (xs @ ys @ [y]) = be_nat ((xs @ ys) @ [y])" by simp
  also have "\<dots> = be_nat (xs @ ys) * 256 + unat y" by (rule be_nat_snoc)
  finally show ?case using snoc by (simp add: algebra_simps)
qed

lemma be_nat_Cons: "be_nat (x # xs) = unat x * 256 ^ length xs + be_nat xs"
  using be_nat_append [of "[x]" xs] by (simp add: be_nat_def)

lemma be_nat_bound: "be_nat bs < 256 ^ length bs"
  by (metis be_nat_be_digits be_digits_be_nat mod_less_divisor zero_less_numeral zero_less_power)

lemma be_nat_replicate_0 [simp]: "be_nat (replicate n 0 @ bs) = be_nat bs"
  by (induction n) (auto simp: be_nat_Cons)

lemma be_nat_strip_zeros [simp]: "be_nat (strip_zeros bs) = be_nat bs"
  by (induction bs) (auto simp: strip_zeros_def be_nat_Cons)

lemma from_be_to_be:
  assumes "LENGTH('a) = 8 * n"
  shows "(from_be (to_be n (w::'a::len word)) :: 'a word) = w"
proof -
  have "(256::nat) ^ n = 2 ^ LENGTH('a)"
    using assms by (simp add: power_mult)
  then have "unat w mod 256 ^ n = unat w"
    using unsigned_less [of w] by simp
  then show ?thesis by (simp add: from_be_def to_be_def be_nat_be_digits)
qed

lemma to_be_from_be:
  assumes "LENGTH('a) = 8 * length bs"
  shows "to_be (length bs) (from_be bs :: 'a::len word) = bs"
proof -
  have "(256::nat) ^ length bs = 2 ^ LENGTH('a)"
    using assms by (simp add: power_mult)
  then have "unat (of_nat (be_nat bs) :: 'a word) = be_nat bs"
    using be_nat_bound [of bs] by (simp add: unat_of_nat)
  then show ?thesis by (simp add: from_be_def to_be_def be_digits_be_nat)
qed

subsection \<open>Collections of lemmas\<close>

named_theorems keeps_intros \<open>an interpreter step keeps an invariant\<close>
named_theorems height_intros \<open>the stack height along an interpreter step\<close>
named_theorems move_intros \<open>the program counter along an interpreter step\<close>
named_theorems no_err \<open>computations that give a value or panic\<close>
named_theorems step_defs \<open>the definitions of the opcode bodies\<close>

end
