(* ===== verification/Evm_Types.thy ===== *)
theory Evm_Types
  imports Prelude
begin

text \<open>
  The data types of the EVM crate: \<^verbatim>\<open>crates/evm/src/error.rs\<close>, the execution context
  and result of \<^verbatim>\<open>execution.rs\<close>, and the account of \<^verbatim>\<open>lib.rs\<close>.  Structs are records
  whose fields carry a prefix (\<open>ctx_\<close>, \<open>blk_\<close>, \<open>res_\<close>, \<open>acc_\<close>, \<open>log_\<close>) in front of the
  Rust name; \<open>HaltReason\<close> repeats names of \<open>EvmError\<close>, so its constructors start
  with \<open>Halt\<close>.
\<close>

datatype EvmError =
    StackOverflow
  | StackUnderflow
  | InvalidJump nat
  | InvalidOpcode u8
  | OutOfGas
  | InsufficientBalance
  | ContractCreationFailed
  | CallDepthExceeded
  | InvalidMemoryAccess
  | WriteProtection
  | ReturnDataOutOfBounds
  | StaticCallStateModification
  | PrecompileFailed string
  | InvalidSignature
  | CodeSizeExceeded
  | InvalidInitCode
  | NonceOverflow
  | InvalidInput

type_synonym 'a EvmResult = "(EvmError, 'a) result"

record Account =
  acc_balance :: U256
  acc_nonce :: u64
  acc_code :: bytes
  acc_storage :: "H256 \<rightharpoonup> H256"

definition default_account :: Account where
  "default_account =
     \<lparr>acc_balance = 0, acc_nonce = 0, acc_code = [], acc_storage = Map.empty\<rparr>"

record BlockContext =
  blk_coinbase :: Address
  blk_number :: U256
  blk_timestamp :: U256
  blk_difficulty :: U256
  blk_gas_limit :: U256
  blk_base_fee :: "U256 option"
  blk_chain_id :: U256
  blk_block_hashes :: "H256 list"

record ExecutionContext =
  ctx_caller :: Address
  ctx_address :: Address
  ctx_origin :: Address
  ctx_value :: U256
  ctx_code :: bytes
  ctx_data :: bytes
  ctx_gas_price :: U256
  ctx_gas_limit :: u64
  ctx_block :: BlockContext
  ctx_is_static :: bool
  ctx_depth :: u32

record Log =
  log_address :: Address
  log_topics :: "H256 list"
  log_data :: bytes

datatype HaltReason =
    HaltOutOfGas
  | HaltInvalidOpcode u8
  | HaltStackUnderflow
  | HaltStackOverflow
  | HaltInvalidJump
  | HaltCallDepthExceeded
  | HaltCreateCollision
  | HaltCreateContractTooLarge
  | HaltPrecompileFailed
  | HaltStateModificationInStatic
  | HaltInvalidCode

datatype ExecutionStatus = Success | Revert | Halt HaltReason

record ExecutionResult =
  res_status :: ExecutionStatus
  res_gas_used :: u64
  res_gas_refund :: u64
  res_return_data :: bytes
  res_logs :: "Log list"
  res_created_address :: "Address option"
  res_accessed_addresses :: "Address set"
  res_accessed_storage_keys :: "(Address \<times> H256) set"

subsection \<open>Constructors of contexts and results\<close>

definition new_context ::
  "Address \<Rightarrow> Address \<Rightarrow> U256 \<Rightarrow> bytes \<Rightarrow> bytes \<Rightarrow> u64 \<Rightarrow> BlockContext \<Rightarrow> ExecutionContext" where
  "new_context caller addr v code dat gas_limit block =
     \<lparr>ctx_caller = caller, ctx_address = addr, ctx_origin = caller, ctx_value = v,
      ctx_code = code, ctx_data = dat, ctx_gas_price = 0, ctx_gas_limit = gas_limit,
      ctx_block = block, ctx_is_static = False, ctx_depth = 0\<rparr>"

definition is_create :: "ExecutionContext \<Rightarrow> bool" where
  "is_create ctx \<longleftrightarrow> ctx_address ctx = 0"

definition with_static :: "ExecutionContext \<Rightarrow> ExecutionContext" where
  "with_static ctx = ctx\<lparr>ctx_is_static := True\<rparr>"

definition with_depth :: "ExecutionContext \<Rightarrow> u32 \<Rightarrow> ExecutionContext" where
  "with_depth ctx d = ctx\<lparr>ctx_depth := d\<rparr>"

definition default_result :: ExecutionResult where
  "default_result =
     \<lparr>res_status = Success, res_gas_used = 0, res_gas_refund = 0, res_return_data = [],
      res_logs = [], res_created_address = None, res_accessed_addresses = {},
      res_accessed_storage_keys = {}\<rparr>"

definition result_success :: "bytes \<Rightarrow> u64 \<Rightarrow> ExecutionResult" where
  "result_success return_data gas_used =
     default_result\<lparr>res_status := Success, res_gas_used := gas_used,
                    res_return_data := return_data\<rparr>"

definition result_revert :: "bytes \<Rightarrow> u64 \<Rightarrow> ExecutionResult" where
  "result_revert return_data gas_used =
     default_result\<lparr>res_status := Revert, res_gas_used := gas_used,
                    res_return_data := return_data\<rparr>"

definition result_halt :: "HaltReason \<Rightarrow> u64 \<Rightarrow> ExecutionResult" where
  "result_halt reason gas_used =
     default_result\<lparr>res_status := Halt reason, res_gas_used := gas_used\<rparr>"

lemma result_fields [simp]:
  "res_gas_used (result_success d g) = g" "res_gas_used (result_revert d g) = g"
  "res_gas_used (result_halt r g) = g"
  "res_status (result_success d g) = Success" "res_status (result_revert d g) = Revert"
  "res_status (result_halt r g) = Halt r"
  "res_return_data (result_success d g) = d" "res_return_data (result_revert d g) = d"
  "res_return_data (result_halt r g) = []"
  "res_logs (result_success d g) = []" "res_logs (result_revert d g) = []"
  "res_logs (result_halt r g) = []"
  by (simp_all add: result_success_def result_revert_def result_halt_def default_result_def)

end
