(* ===== verification/Evm_Stack.thy ===== *)
theory Evm_Stack
  imports Evm_Types
begin

text \<open>
  The operand stack, \<^verbatim>\<open>crates/evm/src/stack.rs\<close>.  The struct wraps one vector, so a
  stack is the list of its words, bottom first and top last, as in the Rust vector.
\<close>

type_synonym Stack = "U256 list"

definition STACK_LIMIT :: nat where
  "STACK_LIMIT = 1024"

definition stack_new :: Stack where
  "stack_new = []"

definition stack_push :: "Stack \<Rightarrow> U256 \<Rightarrow> Stack EvmResult" where
  "stack_push st v =
     (if length st \<ge> STACK_LIMIT then Err StackOverflow else Ok (st @ [v]))"

definition stack_pop :: "Stack \<Rightarrow> (U256 \<times> Stack) EvmResult" where
  "stack_pop st = (if st = [] then Err StackUnderflow else Ok (last st, butlast st))"

definition stack_peek :: "Stack \<Rightarrow> nat \<Rightarrow> U256 EvmResult" where
  "stack_peek st index =
     (if index \<ge> length st then Err StackUnderflow
      else Ok (st ! (length st - 1 - index)))"

text \<open>
  The mutable borrow of \<^verbatim>\<open>peek_mut\<close> is the update made through it: \<open>f\<close> is what the
  caller does with the slot.
\<close>

definition stack_peek_mut :: "Stack \<Rightarrow> nat \<Rightarrow> (U256 \<Rightarrow> U256) \<Rightarrow> Stack EvmResult" where
  "stack_peek_mut st index f =
     (let len = length st in
      if index \<ge> len then Err StackUnderflow
      else Ok (st[len - 1 - index := f (st ! (len - 1 - index))]))"

definition stack_swap :: "Stack \<Rightarrow> nat \<Rightarrow> Stack EvmResult" where
  "stack_swap st n =
     (let len = length st in
      if n \<ge> len then Err StackUnderflow
      else Ok (st[len - 1 := st ! (len - 1 - n), len - 1 - n := st ! (len - 1)]))"

definition stack_dup :: "Stack \<Rightarrow> nat \<Rightarrow> Stack EvmResult" where
  "stack_dup st n =
     (if n \<ge> length st then Err StackUnderflow
      else if length st \<ge> STACK_LIMIT then Err StackOverflow
      else Ok (st @ [st ! (length st - 1 - n)]))"

definition stack_require :: "Stack \<Rightarrow> nat \<Rightarrow> unit EvmResult" where
  "stack_require st n = (if length st < n then Err StackUnderflow else Ok ())"

definition stack_limit_check :: "Stack \<Rightarrow> nat \<Rightarrow> unit EvmResult" where
  "stack_limit_check st n = (if length st + n > STACK_LIMIT then Err StackOverflow else Ok ())"

subsection \<open>Lemmas\<close>

lemma stack_push_Ok: "stack_push st v = Ok st' \<longleftrightarrow> length st < STACK_LIMIT \<and> st' = st @ [v]"
  by (auto simp: stack_push_def)

lemma stack_pop_Ok:
  "stack_pop st = Ok (v, st') \<longleftrightarrow> st = st' @ [v]"
proof
  assume "st = st' @ [v]"
  then show "stack_pop st = Ok (v, st')" by (simp add: stack_pop_def)
next
  assume "stack_pop st = Ok (v, st')"
  then have "st \<noteq> []" "v = last st" "st' = butlast st"
    by (auto simp: stack_pop_def split: if_splits)
  then show "st = st' @ [v]" by simp
qed

lemma stack_pop_snoc [simp]: "stack_pop (st @ [v]) = Ok (v, st)"
  by (simp add: stack_pop_def)

lemma stack_pop_not_Panic [simp]: "stack_pop st \<noteq> Panic"
  by (simp add: stack_pop_def)

lemma stack_pop_Err: "stack_pop st = Err e \<longleftrightarrow> st = [] \<and> e = StackUnderflow"
  by (auto simp: stack_pop_def)

lemma stack_push_Err: "stack_push st v = Err e \<longleftrightarrow> length st \<ge> STACK_LIMIT \<and> e = StackOverflow"
  by (auto simp: stack_push_def)

lemma stack_push_not_Panic [simp]: "stack_push st v \<noteq> Panic"
  by (simp add: stack_push_def)

lemma stack_swap_length: "stack_swap st n = Ok st' \<Longrightarrow> length st' = length st"
  by (auto simp: stack_swap_def Let_def split: if_splits)

lemma stack_swap_nth:
  assumes "stack_swap st n = Ok st'" and "i < length st"
  shows "st' ! (length st - 1 - i) =
    (if i = 0 then st ! (length st - 1 - n)
     else if i = n then st ! (length st - 1) else st ! (length st - 1 - i))"
  using assms by (auto simp: stack_swap_def Let_def nth_list_update split: if_splits)

lemma stack_swap_involutive:
  assumes "stack_swap st n = Ok st'"
  shows "stack_swap st' n = Ok st"
proof -
  let ?len = "length st"
  have n: "n < ?len" and st': "st' = st[?len - 1 := st ! (?len - 1 - n), ?len - 1 - n := st ! (?len - 1)]"
    using assms by (auto simp: stack_swap_def Let_def split: if_splits)
  have "st'[?len - 1 := st' ! (?len - 1 - n), ?len - 1 - n := st' ! (?len - 1)] = st"
    using n by (intro nth_equalityI) (auto simp: st' nth_list_update)
  then show ?thesis
    using n by (simp add: stack_swap_def Let_def st')
qed

lemma stack_dup_Ok:
  "stack_dup st n = Ok st' \<longleftrightarrow>
     n < length st \<and> length st < STACK_LIMIT \<and> st' = st @ [st ! (length st - 1 - n)]"
  by (auto simp: stack_dup_def)

lemmas stack_ops_Ok = stack_push_Ok stack_pop_Ok stack_dup_Ok

subsection \<open>The contract of a bounded stack\<close>

text \<open>
  What the interpreter relies on: pushing and popping are inverse, a push is refused
  exactly at the limit and a pop exactly on the empty stack, and no operation lets the
  depth pass the limit.
\<close>

datatype stack_op = SPush U256 | SPop | SDup nat | SSwap nat

locale bounded_stack =
  fixes push :: "'s \<Rightarrow> U256 \<Rightarrow> 's EvmResult"
    and pop :: "'s \<Rightarrow> (U256 \<times> 's) EvmResult"
    and dup :: "'s \<Rightarrow> nat \<Rightarrow> 's EvmResult"
    and swap :: "'s \<Rightarrow> nat \<Rightarrow> 's EvmResult"
    and depth :: "'s \<Rightarrow> nat"
    and limit :: nat
  assumes pop_push: "push s v = Ok s' \<Longrightarrow> pop s' = Ok (v, s)"
    and push_pop: "pop s' = Ok (v, s) \<Longrightarrow> depth s' \<le> limit \<Longrightarrow> push s v = Ok s'"
    and depth_push: "push s v = Ok s' \<Longrightarrow> depth s' = Suc (depth s) \<and> depth s < limit"
    and depth_pop: "pop s = Ok (v, s') \<Longrightarrow> depth s = Suc (depth s')"
    and depth_dup: "dup s n = Ok s' \<Longrightarrow> depth s' = Suc (depth s) \<and> depth s < limit"
    and depth_swap: "swap s n = Ok s' \<Longrightarrow> depth s' = depth s"
    and push_fails: "push s v = Err e \<longleftrightarrow> depth s \<ge> limit \<and> e = StackOverflow"
    and pop_fails: "pop s = Err e \<longleftrightarrow> depth s = 0 \<and> e = StackUnderflow"
begin

fun apply_op :: "stack_op \<Rightarrow> 's \<Rightarrow> 's EvmResult" where
  "apply_op (SPush v) s = push s v"
| "apply_op SPop s = map_ok snd (pop s)"
| "apply_op (SDup n) s = dup s n"
| "apply_op (SSwap n) s = swap s n"

fun apply_ops :: "stack_op list \<Rightarrow> 's \<Rightarrow> 's EvmResult" where
  "apply_ops [] s = Ok s"
| "apply_ops (x # xs) s = bind_res (apply_op x s) (apply_ops xs)"

lemma apply_op_bound: "depth s \<le> limit \<Longrightarrow> apply_op x s = Ok s' \<Longrightarrow> depth s' \<le> limit"
  by (cases x) (auto dest: depth_push depth_pop depth_dup depth_swap)

lemma apply_ops_bound: "depth s \<le> limit \<Longrightarrow> apply_ops xs s = Ok s' \<Longrightarrow> depth s' \<le> limit"
proof (induction xs arbitrary: s)
  case Nil
  then show ?case by simp
next
  case (Cons x xs)
  then show ?case using apply_op_bound by auto
qed

lemma push_then_pop:
  "push s v = Ok s' \<Longrightarrow> apply_ops [SPush v, SPop] s = Ok s"
  by (simp add: pop_push)

end

interpretation evm_stack: bounded_stack stack_push stack_pop stack_dup stack_swap length STACK_LIMIT
proof unfold_locales
  fix s :: Stack and v s' assume "stack_push s v = Ok s'"
  then show "stack_pop s' = Ok (v, s)" by (simp add: stack_push_Ok)
next
  fix s :: Stack and v s' assume "stack_pop s' = Ok (v, s)" "length s' \<le> STACK_LIMIT"
  then show "stack_push s v = Ok s'" by (simp add: stack_push_Ok stack_pop_Ok)
next
  fix s :: Stack and v s' assume "stack_push s v = Ok s'"
  then show "length s' = Suc (length s) \<and> length s < STACK_LIMIT" by (simp add: stack_push_Ok)
next
  fix s :: Stack and v s' assume "stack_pop s = Ok (v, s')"
  then show "length s = Suc (length s')" by (simp add: stack_pop_Ok)
next
  fix s :: Stack and n s' assume "stack_dup s n = Ok s'"
  then show "length s' = Suc (length s) \<and> length s < STACK_LIMIT" by (simp add: stack_dup_Ok)
next
  fix s :: Stack and n s' assume "stack_swap s n = Ok s'"
  then show "length s' = length s" by (rule stack_swap_length)
next
  fix s :: Stack and v e
  show "stack_push s v = Err e \<longleftrightarrow> length s \<ge> STACK_LIMIT \<and> e = StackOverflow"
    by (rule stack_push_Err)
next
  fix s :: Stack and e
  show "stack_pop s = Err e \<longleftrightarrow> length s = 0 \<and> e = StackUnderflow"
    by (simp add: stack_pop_Err)
qed

end
