(* ===== verification/Evm_Memory.thy ===== *)
theory Evm_Memory
  imports Evm_Types
begin

text \<open>
  The byte-addressed memory of a call, \<^verbatim>\<open>crates/evm/src/memory.rs\<close>.  The struct wraps
  one vector of bytes, so a memory is that list.
\<close>

type_synonym Memory = bytes

definition memory_new :: Memory where
  "memory_new = []"

definition memory_resize :: "Memory \<Rightarrow> nat \<Rightarrow> ('e, Memory) result" where
  "memory_resize m new_size = (if new_size > length m then vec_resize m new_size else Ok m)"

definition memory_get :: "Memory \<Rightarrow> nat \<Rightarrow> nat \<Rightarrow> ('e, bytes) result" where
  "memory_get m offset sz =
     (if sz = 0 then Ok []
      else
        let e = saturating_add_usize offset sz in
        if offset \<ge> length m then vec_zeros sz
        else if e > length m then vec_resize (drop offset m) sz
        else slice m offset e)"

definition memory_get_u256 :: "Memory \<Rightarrow> nat \<Rightarrow> ('e, U256) result" where
  "memory_get_u256 m offset = map_ok from_be (memory_get m offset 32)"

text \<open>\<^verbatim>\<open>data[offset..end].copy_from_slice(src)\<close>, for a range of the length of \<open>src\<close>.\<close>

definition overwrite :: "bytes \<Rightarrow> nat \<Rightarrow> bytes \<Rightarrow> bytes" where
  "overwrite m offset src = take offset m @ src @ drop (offset + length src) m"

definition memory_set :: "Memory \<Rightarrow> nat \<Rightarrow> bytes \<Rightarrow> Memory EvmResult" where
  "memory_set m offset src =
     (if src = [] then Ok m
      else case checked_add_usize offset (length src) of
        None \<Rightarrow> Err InvalidMemoryAccess
      | Some e \<Rightarrow> bind_res (memory_resize m e) (\<lambda>m'. Ok (overwrite m' offset src)))"

definition memory_set_u256 :: "Memory \<Rightarrow> nat \<Rightarrow> U256 \<Rightarrow> Memory EvmResult" where
  "memory_set_u256 m offset v = memory_set m offset (to_be 32 v)"

definition memory_set_byte :: "Memory \<Rightarrow> nat \<Rightarrow> u8 \<Rightarrow> Memory EvmResult" where
  "memory_set_byte m offset b =
     (case checked_add_usize offset 1 of
        None \<Rightarrow> Err InvalidMemoryAccess
      | Some e \<Rightarrow> bind_res (memory_resize m e) (\<lambda>m'. Ok (m'[offset := b])))"

definition memory_copy_within :: "Memory \<Rightarrow> nat \<Rightarrow> nat \<Rightarrow> nat \<Rightarrow> Memory EvmResult" where
  "memory_copy_within m dst src len =
     (if len = 0 then Ok m
      else case checked_add_usize src len of
        None \<Rightarrow> Err InvalidMemoryAccess
      | Some src_end \<Rightarrow>
          (case checked_add_usize dst len of
             None \<Rightarrow> Err InvalidMemoryAccess
           | Some dst_end \<Rightarrow>
               bind_res (memory_resize m (max src_end dst_end)) (\<lambda>m'.
               bind_res (memory_get m' src len) (\<lambda>d. Ok (overwrite m' dst d)))))"

definition memory_effective_len :: "Memory \<Rightarrow> U256" where
  "memory_effective_len m = of_nat (length m)"

definition memory_required_size :: "U256 \<Rightarrow> U256 \<Rightarrow> ('e, U256 option) result" where
  "memory_required_size offset sz =
     (if sz = 0 then Ok (Some 0)
      else case checked_add256 offset sz of
        None \<Rightarrow> Ok None
      | Some e \<Rightarrow>
          (case checked_add256 e 31 of
             None \<Rightarrow> Panic
           | Some e' \<Rightarrow> Ok (Some (e' div 32 * 32))))"

subsection \<open>Lemmas\<close>

text \<open>
  A memory is read as if it were followed by zeros for ever: \<open>byte_at\<close> is the specification
  every operation is related to.
\<close>

definition byte_at :: "Memory \<Rightarrow> nat \<Rightarrow> u8" where
  "byte_at m i = (if i < length m then m ! i else 0)"

lemma vec_resize_Ok:
  "vec_resize xs n = Ok ys \<longleftrightarrow>
     (if n \<le> length xs then ys = take n xs
      else n \<le> isize_max \<and> ys = xs @ replicate (n - length xs) 0)"
  by (auto simp: vec_resize_def)

lemma memory_resize_Ok:
  "memory_resize m n = Ok m' \<longleftrightarrow>
     (if n \<le> length m then m' = m else n \<le> isize_max \<and> m' = m @ replicate (n - length m) 0)"
  by (auto simp: memory_resize_def vec_resize_Ok not_less)

lemma byte_at_resize [simp]: "memory_resize m n = Ok m' \<Longrightarrow> byte_at m' i = byte_at m i"
  by (auto simp: memory_resize_Ok byte_at_def nth_append split: if_splits)

lemma length_resize: "memory_resize m n = Ok m' \<Longrightarrow> length m' = max n (length m)"
  by (auto simp: memory_resize_Ok split: if_splits)

lemma length_overwrite [simp]:
  "offset + length src \<le> length m \<Longrightarrow> length (overwrite m offset src) = length m"
  by (simp add: overwrite_def)

lemma byte_at_overwrite:
  assumes "offset + length src \<le> length m"
  shows "byte_at (overwrite m offset src) i =
    (if offset \<le> i \<and> i < offset + length src then src ! (i - offset) else byte_at m i)"
  using assms
  by (auto simp: byte_at_def overwrite_def nth_append)

lemma memory_get_bytes:
  assumes "offset + sz \<le> usize_max" and "length m \<le> isize_max"
    and "memory_get m offset sz = Ok bs"
  shows "bs = map (\<lambda>i. byte_at m (offset + i)) [0..<sz]"
proof -
  have "length bs = sz \<and> (\<forall>i < sz. bs ! i = byte_at m (offset + i))"
    using assms
    by (auto simp: memory_get_def vec_zeros_def vec_resize_Ok saturating_add_usize_def Let_def
        byte_at_def nth_append split: if_splits)
  then show ?thesis by (intro nth_equalityI) auto
qed

lemma memory_get_defined:
  assumes "sz \<le> isize_max" and "offset + sz \<le> usize_max"
  shows "memory_get m offset sz = Ok (map (\<lambda>i. byte_at m (offset + i)) [0..<sz])"
proof -
  consider (zero) "sz = 0" | (beyond) "sz \<noteq> 0" "offset \<ge> length m"
    | (part) "sz \<noteq> 0" "offset < length m" "offset + sz > length m"
    | (inside) "sz \<noteq> 0" "offset + sz \<le> length m" by linarith
  then show ?thesis
  proof cases
    case zero
    then show ?thesis by (simp add: memory_get_def)
  next
    case beyond
    then show ?thesis using assms
      by (auto simp: memory_get_def vec_zeros_def byte_at_def intro!: nth_equalityI)
  next
    case part
    then show ?thesis using assms
      by (auto simp: memory_get_def vec_resize_def saturating_add_usize_def Let_def byte_at_def
          nth_append intro!: nth_equalityI)
  next
    case inside
    then show ?thesis using assms
      by (auto simp: memory_get_def saturating_add_usize_def Let_def byte_at_def slice_def
          intro!: nth_equalityI)
  qed
qed

lemma memory_set_Ok:
  assumes "memory_set m offset src = Ok m'"
  shows "length m' = (if src = [] then length m else max (length m) (offset + length src))"
    and "byte_at m' i =
      (if offset \<le> i \<and> i < offset + length src then src ! (i - offset) else byte_at m i)"
proof -
  have "length m' = (if src = [] then length m else max (length m) (offset + length src)) \<and>
     byte_at m' i =
      (if offset \<le> i \<and> i < offset + length src then src ! (i - offset) else byte_at m i)"
  proof (cases "src = []")
    case True
    then show ?thesis using assms by (auto simp: memory_set_def)
  next
    case False
    then obtain m1 where m1: "memory_resize m (offset + length src) = (Ok m1 :: (EvmError, bytes) result)"
      and m': "m' = overwrite m1 offset src"
      using assms by (auto simp: memory_set_def checked_add_usize_def split: if_splits)
    have len: "length m1 = max (offset + length src) (length m)"
      using m1 by (rule length_resize)
    then show ?thesis
      using False by (auto simp: m' byte_at_overwrite byte_at_resize [OF m1])
  qed
  then show "length m' = (if src = [] then length m else max (length m) (offset + length src))"
    and "byte_at m' i =
      (if offset \<le> i \<and> i < offset + length src then src ! (i - offset) else byte_at m i)"
    by blast+
qed

lemma memory_set_fits:
  assumes "offset + length src \<le> isize_max"
  shows "\<exists>m'. memory_set m offset src = Ok m'"
  using assms
  by (auto simp: memory_set_def checked_add_usize_def memory_resize_def vec_resize_def)

lemma memory_get_set:
  assumes "memory_set m offset src = Ok m'" and "length src \<le> isize_max"
    and "offset + length src \<le> usize_max"
  shows "memory_get m' offset (length src) = Ok src"
  using assms(2,3)
  by (auto simp: memory_get_defined memory_set_Ok(2) [OF assms(1)] intro!: nth_equalityI)

lemma memory_copy_within_Ok:
  assumes "memory_copy_within m dst src len = Ok m'"
  shows "byte_at m' i = (if dst \<le> i \<and> i < dst + len then byte_at m (src + (i - dst)) else byte_at m i)"
proof (cases "len = 0")
  case True
  then show ?thesis using assms by (auto simp: memory_copy_within_def)
next
  case False
  have fits: "src + len \<le> usize_max" "dst + len \<le> usize_max"
    using assms False by (auto simp: memory_copy_within_def checked_add_usize_def split: if_splits)
  then obtain m1 d where m1: "memory_resize m (max (src + len) (dst + len)) = (Ok m1 :: (EvmError, bytes) result)"
    and d: "memory_get m1 src len = (Ok d :: (EvmError, bytes) result)" and m': "m' = overwrite m1 dst d"
    using assms False by (auto simp: memory_copy_within_def checked_add_usize_def)
  have len1: "length m1 = max (max (src + len) (dst + len)) (length m)"
    using m1 by (rule length_resize)
  then have "d = take len (drop src m1)"
    using d False fits by (auto simp: memory_get_def saturating_add_usize_def Let_def split: if_splits)
  then have dl: "length d = len" and "\<forall>j<len. d ! j = byte_at m1 (src + j)"
    using len1 by (auto simp: byte_at_def)
  then show ?thesis
    using len1 by (auto simp: m' byte_at_overwrite dl byte_at_resize [OF m1])
qed

end
