(* ===== verification/Evm_Gas.thy ===== *)
theory Evm_Gas
  imports Evm_Types
begin

text \<open>
  The gas meter and the price list, \<^verbatim>\<open>crates/evm/src/gas.rs\<close>.  The meter keeps a limit
  and what is used; both are \<^verbatim>\<open>u64\<close> and the arithmetic saturates.
\<close>

record Gas =
  gas_limit :: u64
  gas_used :: u64

definition gas_new :: "u64 \<Rightarrow> Gas" where
  "gas_new l = \<lparr>gas_limit = l, gas_used = 0\<rparr>"

definition gas_consume :: "Gas \<Rightarrow> u64 \<Rightarrow> Gas EvmResult" where
  "gas_consume g amount =
     (let new_used = saturating_add64 (gas_used g) amount in
      if new_used > gas_limit g then Err OutOfGas else Ok (g\<lparr>gas_used := new_used\<rparr>))"

definition gas_remaining :: "Gas \<Rightarrow> u64" where
  "gas_remaining g = saturating_sub64 (gas_limit g) (gas_used g)"

definition gas_refund :: "Gas \<Rightarrow> u64 \<Rightarrow> Gas" where
  "gas_refund g amount = g\<lparr>gas_used := saturating_sub64 (gas_used g) amount\<rparr>"

subsection \<open>The price list\<close>

definition GAS_ZERO :: u64 where "GAS_ZERO = 0"
definition GAS_BASE :: u64 where "GAS_BASE = 2"
definition GAS_VERYLOW :: u64 where "GAS_VERYLOW = 3"
definition GAS_LOW :: u64 where "GAS_LOW = 5"
definition GAS_MID :: u64 where "GAS_MID = 8"
definition GAS_HIGH :: u64 where "GAS_HIGH = 10"
definition GAS_BALANCE :: u64 where "GAS_BALANCE = 2600"
definition GAS_SLOAD :: u64 where "GAS_SLOAD = 2100"
definition GAS_JUMPDEST :: u64 where "GAS_JUMPDEST = 1"
definition GAS_SSET :: u64 where "GAS_SSET = 20000"
definition GAS_EXP :: u64 where "GAS_EXP = 10"
definition GAS_EXPBYTE :: u64 where "GAS_EXPBYTE = 50"
definition GAS_MEMORY :: u64 where "GAS_MEMORY = 3"
definition GAS_LOG :: u64 where "GAS_LOG = 375"
definition GAS_LOGDATA :: u64 where "GAS_LOGDATA = 8"
definition GAS_LOGTOPIC :: u64 where "GAS_LOGTOPIC = 375"
definition GAS_KECCAK256 :: u64 where "GAS_KECCAK256 = 30"
definition GAS_KECCAK256WORD :: u64 where "GAS_KECCAK256WORD = 6"
definition GAS_COPY :: u64 where "GAS_COPY = 3"
definition GAS_BLOCKHASH :: u64 where "GAS_BLOCKHASH = 20"
definition GAS_EXTCODESIZE :: u64 where "GAS_EXTCODESIZE = 2600"
definition GAS_EXTCODECOPY :: u64 where "GAS_EXTCODECOPY = 2600"
definition GAS_EXTCODEHASH :: u64 where "GAS_EXTCODEHASH = 2600"
definition GAS_CHAINID :: u64 where "GAS_CHAINID = 2"
definition GAS_SELFBALANCE :: u64 where "GAS_SELFBALANCE = 5"
definition GAS_BASEFEE :: u64 where "GAS_BASEFEE = 2"

lemmas gas_price_defs = GAS_ZERO_def GAS_BASE_def GAS_VERYLOW_def GAS_LOW_def GAS_MID_def
  GAS_HIGH_def GAS_BALANCE_def GAS_SLOAD_def GAS_JUMPDEST_def GAS_SSET_def GAS_EXP_def
  GAS_EXPBYTE_def GAS_MEMORY_def GAS_LOG_def GAS_LOGDATA_def GAS_LOGTOPIC_def
  GAS_KECCAK256_def GAS_KECCAK256WORD_def GAS_COPY_def GAS_BLOCKHASH_def GAS_EXTCODESIZE_def
  GAS_EXTCODECOPY_def GAS_EXTCODEHASH_def GAS_CHAINID_def GAS_SELFBALANCE_def GAS_BASEFEE_def

definition memory_gas_cost :: "U256 \<Rightarrow> ('e, u64) result" where
  "memory_gas_cost sz =
     bind_res (as_u64 sz) (\<lambda>size_u64.
       let memory_size_word = (size_u64 + 31) div 32;
           linear_cost = saturating_mul64 memory_size_word GAS_MEMORY;
           quadratic_cost = saturating_mul64 memory_size_word memory_size_word div 512
       in Ok (saturating_add64 linear_cost quadratic_cost))"

text \<open>\<^verbatim>\<open>U256::bits\<close>: the number of bits up to the highest one that is set.\<close>

fun bit_length :: "nat \<Rightarrow> nat" where
  "bit_length n = (if n = 0 then 0 else Suc (bit_length (n div 2)))"

declare bit_length.simps [simp del]

definition exp_gas_cost :: "U256 \<Rightarrow> u64" where
  "exp_gas_cost exponent =
     (let byte_size = (bit_length (unat exponent) + 7) div 8 in
      saturating_add64 GAS_EXP (saturating_mul64 GAS_EXPBYTE (of_nat byte_size)))"

definition keccak256_gas_cost :: "U256 \<Rightarrow> ('e, u64) result" where
  "keccak256_gas_cost data_size =
     bind_res (as_u64 data_size) (\<lambda>size_u64.
       let word_size = (size_u64 + 31) div 32
       in Ok (saturating_add64 GAS_KECCAK256 (saturating_mul64 GAS_KECCAK256WORD word_size)))"

definition copy_gas_cost :: "U256 \<Rightarrow> ('e, u64) result" where
  "copy_gas_cost data_size =
     bind_res (as_u64 data_size) (\<lambda>size_u64.
       let word_size = (size_u64 + 31) div 32 in Ok (saturating_mul64 GAS_COPY word_size))"

definition log_gas_cost :: "u8 \<Rightarrow> U256 \<Rightarrow> ('e, u64) result" where
  "log_gas_cost topic_count data_size =
     bind_res (as_u64 data_size) (\<lambda>size_u64.
       Ok (saturating_add64
             (saturating_add64 GAS_LOG (saturating_mul64 GAS_LOGTOPIC (ucast topic_count)))
             (saturating_mul64 GAS_LOGDATA size_u64)))"

subsection \<open>Lemmas\<close>

lemma gas_consume_Ok:
  assumes "gas_consume g n = Ok g'"
  shows "gas_limit g' = gas_limit g" and "gas_used g' = saturating_add64 (gas_used g) n"
    and "gas_used g' \<le> gas_limit g'" and "gas_used g \<le> gas_used g'"
proof -
  show "gas_limit g' = gas_limit g" and "gas_used g' = saturating_add64 (gas_used g) n"
    and "gas_used g' \<le> gas_limit g'"
    using assms by (auto simp: gas_consume_def Let_def split: if_splits)
  then show "gas_used g \<le> gas_used g'"
    using unsigned_less [of "gas_used g", where ?'a = nat]
    by (simp add: word_le_nat_alt unat_saturating_add64)
qed

text \<open>Below the largest limit the meter never saturates: a charge is exact.\<close>

lemma gas_consume_exact:
  assumes "gas_consume g n = Ok g'" and "gas_limit g \<noteq> u64_max"
  shows "unat (gas_used g') = unat (gas_used g) + unat n"
proof -
  have u: "unat (gas_used g') = min (unat (gas_used g) + unat n) (2 ^ 64 - 1)"
    using gas_consume_Ok(2) [OF assms(1)] by (simp add: unat_saturating_add64)
  have "gas_used g' \<le> gas_limit g" using gas_consume_Ok(1,3) [OF assms(1)] by simp
  moreover have "unat (gas_limit g) < 2 ^ 64 - 1"
    using assms(2) by (rule unat_less_u64_max)
  ultimately have "unat (gas_used g') < 2 ^ 64 - 1"
    by (simp add: word_le_nat_alt)
  with u show ?thesis by linarith
qed

lemma gas_consume_fails:
  "gas_consume g n = Err e \<longleftrightarrow> e = OutOfGas \<and> min (unat (gas_used g) + unat n) (2 ^ 64 - 1) > unat (gas_limit g)"
  by (auto simp: gas_consume_def Let_def word_less_nat_alt unat_saturating_add64)

lemma gas_consume_not_Panic [simp]: "gas_consume g n \<noteq> Panic"
  by (simp add: gas_consume_def Let_def)

lemma bit_length_bound: "n < 2 ^ k \<Longrightarrow> bit_length n \<le> k"
proof (induction n arbitrary: k rule: bit_length.induct)
  case (1 n)
  show ?case
  proof (cases "n = 0")
    case True
    then show ?thesis by (simp add: bit_length.simps [of 0])
  next
    case False
    then obtain j where k: "k = Suc j" using "1.prems" by (cases k) auto
    then have "n div 2 < 2 ^ j" using "1.prems" by auto
    then have "bit_length (n div 2) \<le> j" using "1.IH" False by simp
    then show ?thesis using False k by (simp add: bit_length.simps [of n])
  qed
qed

end
