(* ===== verification/Evm_Opcodes.thy ===== *)
theory Evm_Opcodes
  imports Prelude
begin

text \<open>
  The instruction set, \<^verbatim>\<open>crates/evm/src/opcodes.rs\<close>.  The Rust enum has 149 variants with
  explicit byte values.  Here its variants keep their names, with the prefix \<open>OP_\<close>, and are
  grouped the way the comments of the enum group them; the three uniform families carry their
  index instead of a number in the name, in a word type that has exactly as many values:
  \<open>Push k\<close> is \<^verbatim>\<open>PUSH(k+1)\<close> for the 32 values of a 5-bit word, \<open>Dup k\<close> and \<open>Swap k\<close> are
  \<^verbatim>\<open>DUP(k+1)\<close> and \<^verbatim>\<open>SWAP(k+1)\<close> for the 16 values of a 4-bit word.  So the type has no
  value that the enum does not have.
\<close>

datatype arith_op =
    OP_STOP | OP_ADD | OP_MUL | OP_SUB | OP_DIV
  | OP_SDIV | OP_MOD | OP_SMOD | OP_ADDMOD | OP_MULMOD
  | OP_EXP | OP_SIGNEXTEND

datatype logic_op =
    OP_LT | OP_GT | OP_SLT | OP_SGT | OP_EQ
  | OP_ISZERO | OP_AND | OP_OR | OP_XOR | OP_NOT
  | OP_BYTE | OP_SHL | OP_SHR | OP_SAR

datatype env_op =
    OP_ADDRESS | OP_BALANCE | OP_ORIGIN | OP_CALLER | OP_CALLVALUE
  | OP_CALLDATALOAD | OP_CALLDATASIZE | OP_CALLDATACOPY | OP_CODESIZE | OP_CODECOPY
  | OP_GASPRICE | OP_EXTCODESIZE | OP_EXTCODECOPY | OP_RETURNDATASIZE | OP_RETURNDATACOPY
  | OP_EXTCODEHASH

datatype block_op =
    OP_BLOCKHASH | OP_COINBASE | OP_TIMESTAMP | OP_NUMBER | OP_DIFFICULTY
  | OP_GASLIMIT | OP_CHAINID | OP_SELFBALANCE | OP_BASEFEE | OP_BLOBHASH
  | OP_BLOBBASEFEE

datatype flow_op =
    OP_POP | OP_MLOAD | OP_MSTORE | OP_MSTORE8 | OP_SLOAD
  | OP_SSTORE | OP_JUMP | OP_JUMPI | OP_PC | OP_MSIZE
  | OP_GAS | OP_JUMPDEST | OP_TLOAD | OP_TSTORE | OP_MCOPY
  | OP_PUSH0

datatype log_op =
    OP_LOG0 | OP_LOG1 | OP_LOG2 | OP_LOG3 | OP_LOG4

datatype sys_op =
    OP_CREATE | OP_CALL | OP_CALLCODE | OP_RETURN | OP_DELEGATECALL
  | OP_CREATE2 | OP_STATICCALL | OP_REVERT | OP_INVALID | OP_SELFDESTRUCT

datatype Opcode =
    Arith arith_op
  | Logic logic_op
  | Keccak
  | Env env_op
  | Block block_op
  | Flow flow_op
  | Push "5 word"
  | Dup "4 word"
  | Swap "4 word"
  | Logs log_op
  | Sys sys_op

subsection \<open>The byte of an opcode, and back\<close>

primrec arith_byte :: "arith_op \<Rightarrow> u8" where
  "arith_byte OP_STOP = 0x00"
| "arith_byte OP_ADD = 0x01"
| "arith_byte OP_MUL = 0x02"
| "arith_byte OP_SUB = 0x03"
| "arith_byte OP_DIV = 0x04"
| "arith_byte OP_SDIV = 0x05"
| "arith_byte OP_MOD = 0x06"
| "arith_byte OP_SMOD = 0x07"
| "arith_byte OP_ADDMOD = 0x08"
| "arith_byte OP_MULMOD = 0x09"
| "arith_byte OP_EXP = 0x0a"
| "arith_byte OP_SIGNEXTEND = 0x0b"

primrec logic_byte :: "logic_op \<Rightarrow> u8" where
  "logic_byte OP_LT = 0x10"
| "logic_byte OP_GT = 0x11"
| "logic_byte OP_SLT = 0x12"
| "logic_byte OP_SGT = 0x13"
| "logic_byte OP_EQ = 0x14"
| "logic_byte OP_ISZERO = 0x15"
| "logic_byte OP_AND = 0x16"
| "logic_byte OP_OR = 0x17"
| "logic_byte OP_XOR = 0x18"
| "logic_byte OP_NOT = 0x19"
| "logic_byte OP_BYTE = 0x1a"
| "logic_byte OP_SHL = 0x1b"
| "logic_byte OP_SHR = 0x1c"
| "logic_byte OP_SAR = 0x1d"

primrec env_byte :: "env_op \<Rightarrow> u8" where
  "env_byte OP_ADDRESS = 0x30"
| "env_byte OP_BALANCE = 0x31"
| "env_byte OP_ORIGIN = 0x32"
| "env_byte OP_CALLER = 0x33"
| "env_byte OP_CALLVALUE = 0x34"
| "env_byte OP_CALLDATALOAD = 0x35"
| "env_byte OP_CALLDATASIZE = 0x36"
| "env_byte OP_CALLDATACOPY = 0x37"
| "env_byte OP_CODESIZE = 0x38"
| "env_byte OP_CODECOPY = 0x39"
| "env_byte OP_GASPRICE = 0x3a"
| "env_byte OP_EXTCODESIZE = 0x3b"
| "env_byte OP_EXTCODECOPY = 0x3c"
| "env_byte OP_RETURNDATASIZE = 0x3d"
| "env_byte OP_RETURNDATACOPY = 0x3e"
| "env_byte OP_EXTCODEHASH = 0x3f"

primrec block_byte :: "block_op \<Rightarrow> u8" where
  "block_byte OP_BLOCKHASH = 0x40"
| "block_byte OP_COINBASE = 0x41"
| "block_byte OP_TIMESTAMP = 0x42"
| "block_byte OP_NUMBER = 0x43"
| "block_byte OP_DIFFICULTY = 0x44"
| "block_byte OP_GASLIMIT = 0x45"
| "block_byte OP_CHAINID = 0x46"
| "block_byte OP_SELFBALANCE = 0x47"
| "block_byte OP_BASEFEE = 0x48"
| "block_byte OP_BLOBHASH = 0x49"
| "block_byte OP_BLOBBASEFEE = 0x4a"

primrec flow_byte :: "flow_op \<Rightarrow> u8" where
  "flow_byte OP_POP = 0x50"
| "flow_byte OP_MLOAD = 0x51"
| "flow_byte OP_MSTORE = 0x52"
| "flow_byte OP_MSTORE8 = 0x53"
| "flow_byte OP_SLOAD = 0x54"
| "flow_byte OP_SSTORE = 0x55"
| "flow_byte OP_JUMP = 0x56"
| "flow_byte OP_JUMPI = 0x57"
| "flow_byte OP_PC = 0x58"
| "flow_byte OP_MSIZE = 0x59"
| "flow_byte OP_GAS = 0x5a"
| "flow_byte OP_JUMPDEST = 0x5b"
| "flow_byte OP_TLOAD = 0x5c"
| "flow_byte OP_TSTORE = 0x5d"
| "flow_byte OP_MCOPY = 0x5e"
| "flow_byte OP_PUSH0 = 0x5f"

primrec log_byte :: "log_op \<Rightarrow> u8" where
  "log_byte OP_LOG0 = 0xa0"
| "log_byte OP_LOG1 = 0xa1"
| "log_byte OP_LOG2 = 0xa2"
| "log_byte OP_LOG3 = 0xa3"
| "log_byte OP_LOG4 = 0xa4"

primrec sys_byte :: "sys_op \<Rightarrow> u8" where
  "sys_byte OP_CREATE = 0xf0"
| "sys_byte OP_CALL = 0xf1"
| "sys_byte OP_CALLCODE = 0xf2"
| "sys_byte OP_RETURN = 0xf3"
| "sys_byte OP_DELEGATECALL = 0xf4"
| "sys_byte OP_CREATE2 = 0xf5"
| "sys_byte OP_STATICCALL = 0xfa"
| "sys_byte OP_REVERT = 0xfd"
| "sys_byte OP_INVALID = 0xfe"
| "sys_byte OP_SELFDESTRUCT = 0xff"

primrec as_u8 :: "Opcode \<Rightarrow> u8" where
  "as_u8 (Arith x) = arith_byte x"
| "as_u8 (Logic x) = logic_byte x"
| "as_u8 Keccak = 0x20"
| "as_u8 (Env x) = env_byte x"
| "as_u8 (Block x) = block_byte x"
| "as_u8 (Flow x) = flow_byte x"
| "as_u8 (Push k) = 0x60 + ucast k"
| "as_u8 (Dup k) = 0x80 + ucast k"
| "as_u8 (Swap k) = 0x90 + ucast k"
| "as_u8 (Logs x) = log_byte x"
| "as_u8 (Sys x) = sys_byte x"

text \<open>The match of \<^verbatim>\<open>from_u8\<close>, its arms in the order of the source.\<close>

definition from_u8 :: "u8 \<Rightarrow> Opcode option" where
  "from_u8 b =
     (if b = 0x00 then Some (Arith OP_STOP)
      else if b = 0x01 then Some (Arith OP_ADD)
      else if b = 0x02 then Some (Arith OP_MUL)
      else if b = 0x03 then Some (Arith OP_SUB)
      else if b = 0x04 then Some (Arith OP_DIV)
      else if b = 0x05 then Some (Arith OP_SDIV)
      else if b = 0x06 then Some (Arith OP_MOD)
      else if b = 0x07 then Some (Arith OP_SMOD)
      else if b = 0x08 then Some (Arith OP_ADDMOD)
      else if b = 0x09 then Some (Arith OP_MULMOD)
      else if b = 0x0a then Some (Arith OP_EXP)
      else if b = 0x0b then Some (Arith OP_SIGNEXTEND)
      else if b = 0x10 then Some (Logic OP_LT)
      else if b = 0x11 then Some (Logic OP_GT)
      else if b = 0x12 then Some (Logic OP_SLT)
      else if b = 0x13 then Some (Logic OP_SGT)
      else if b = 0x14 then Some (Logic OP_EQ)
      else if b = 0x15 then Some (Logic OP_ISZERO)
      else if b = 0x16 then Some (Logic OP_AND)
      else if b = 0x17 then Some (Logic OP_OR)
      else if b = 0x18 then Some (Logic OP_XOR)
      else if b = 0x19 then Some (Logic OP_NOT)
      else if b = 0x1a then Some (Logic OP_BYTE)
      else if b = 0x1b then Some (Logic OP_SHL)
      else if b = 0x1c then Some (Logic OP_SHR)
      else if b = 0x1d then Some (Logic OP_SAR)
      else if b = 0x20 then Some Keccak
      else if b = 0x30 then Some (Env OP_ADDRESS)
      else if b = 0x31 then Some (Env OP_BALANCE)
      else if b = 0x32 then Some (Env OP_ORIGIN)
      else if b = 0x33 then Some (Env OP_CALLER)
      else if b = 0x34 then Some (Env OP_CALLVALUE)
      else if b = 0x35 then Some (Env OP_CALLDATALOAD)
      else if b = 0x36 then Some (Env OP_CALLDATASIZE)
      else if b = 0x37 then Some (Env OP_CALLDATACOPY)
      else if b = 0x38 then Some (Env OP_CODESIZE)
      else if b = 0x39 then Some (Env OP_CODECOPY)
      else if b = 0x3a then Some (Env OP_GASPRICE)
      else if b = 0x3b then Some (Env OP_EXTCODESIZE)
      else if b = 0x3c then Some (Env OP_EXTCODECOPY)
      else if b = 0x3d then Some (Env OP_RETURNDATASIZE)
      else if b = 0x3e then Some (Env OP_RETURNDATACOPY)
      else if b = 0x3f then Some (Env OP_EXTCODEHASH)
      else if b = 0x40 then Some (Block OP_BLOCKHASH)
      else if b = 0x41 then Some (Block OP_COINBASE)
      else if b = 0x42 then Some (Block OP_TIMESTAMP)
      else if b = 0x43 then Some (Block OP_NUMBER)
      else if b = 0x44 then Some (Block OP_DIFFICULTY)
      else if b = 0x45 then Some (Block OP_GASLIMIT)
      else if b = 0x46 then Some (Block OP_CHAINID)
      else if b = 0x47 then Some (Block OP_SELFBALANCE)
      else if b = 0x48 then Some (Block OP_BASEFEE)
      else if b = 0x49 then Some (Block OP_BLOBHASH)
      else if b = 0x4a then Some (Block OP_BLOBBASEFEE)
      else if b = 0x50 then Some (Flow OP_POP)
      else if b = 0x51 then Some (Flow OP_MLOAD)
      else if b = 0x52 then Some (Flow OP_MSTORE)
      else if b = 0x53 then Some (Flow OP_MSTORE8)
      else if b = 0x54 then Some (Flow OP_SLOAD)
      else if b = 0x55 then Some (Flow OP_SSTORE)
      else if b = 0x56 then Some (Flow OP_JUMP)
      else if b = 0x57 then Some (Flow OP_JUMPI)
      else if b = 0x58 then Some (Flow OP_PC)
      else if b = 0x59 then Some (Flow OP_MSIZE)
      else if b = 0x5a then Some (Flow OP_GAS)
      else if b = 0x5b then Some (Flow OP_JUMPDEST)
      else if b = 0x5c then Some (Flow OP_TLOAD)
      else if b = 0x5d then Some (Flow OP_TSTORE)
      else if b = 0x5e then Some (Flow OP_MCOPY)
      else if b = 0x5f then Some (Flow OP_PUSH0)
      else if 0x60 \<le> b \<and> b \<le> 0x7f then Some (Push (ucast (b - 0x60)))
      else if 0x80 \<le> b \<and> b \<le> 0x8f then Some (Dup (ucast (b - 0x80)))
      else if 0x90 \<le> b \<and> b \<le> 0x9f then Some (Swap (ucast (b - 0x90)))
      else if b = 0xa0 then Some (Logs OP_LOG0)
      else if b = 0xa1 then Some (Logs OP_LOG1)
      else if b = 0xa2 then Some (Logs OP_LOG2)
      else if b = 0xa3 then Some (Logs OP_LOG3)
      else if b = 0xa4 then Some (Logs OP_LOG4)
      else if b = 0xf0 then Some (Sys OP_CREATE)
      else if b = 0xf1 then Some (Sys OP_CALL)
      else if b = 0xf2 then Some (Sys OP_CALLCODE)
      else if b = 0xf3 then Some (Sys OP_RETURN)
      else if b = 0xf4 then Some (Sys OP_DELEGATECALL)
      else if b = 0xf5 then Some (Sys OP_CREATE2)
      else if b = 0xfa then Some (Sys OP_STATICCALL)
      else if b = 0xfd then Some (Sys OP_REVERT)
      else if b = 0xfe then Some (Sys OP_INVALID)
      else if b = 0xff then Some (Sys OP_SELFDESTRUCT)
      else None)"

definition is_push :: "Opcode \<Rightarrow> bool" where
  "is_push op = (let b = as_u8 op in 0x60 \<le> b \<and> b \<le> 0x7f)"

definition push_bytes :: "Opcode \<Rightarrow> nat option" where
  "push_bytes op = (if is_push op then Some (unat (as_u8 op - 0x60 + 1)) else None)"

subsection \<open>Stack effect\<close>

fun arith_inputs :: "arith_op \<Rightarrow> nat" where
  "arith_inputs OP_STOP = 0"
| "arith_inputs OP_ADDMOD = 3"
| "arith_inputs OP_MULMOD = 3"
| "arith_inputs _ = 2"

fun logic_inputs :: "logic_op \<Rightarrow> nat" where
  "logic_inputs OP_ISZERO = 1"
| "logic_inputs OP_NOT = 1"
| "logic_inputs _ = 2"

fun env_inputs :: "env_op \<Rightarrow> nat" where
  "env_inputs OP_CALLDATALOAD = 1"
| "env_inputs OP_CALLDATACOPY = 3"
| "env_inputs OP_CODECOPY = 3"
| "env_inputs OP_EXTCODESIZE = 1"
| "env_inputs OP_BALANCE = 1"
| "env_inputs OP_EXTCODEHASH = 1"
| "env_inputs OP_EXTCODECOPY = 4"
| "env_inputs OP_RETURNDATACOPY = 3"
| "env_inputs _ = 0"

fun block_inputs :: "block_op \<Rightarrow> nat" where
  "block_inputs OP_BLOCKHASH = 1"
| "block_inputs OP_BLOBHASH = 1"
| "block_inputs _ = 0"

fun flow_inputs :: "flow_op \<Rightarrow> nat" where
  "flow_inputs OP_POP = 1"
| "flow_inputs OP_MLOAD = 1"
| "flow_inputs OP_SLOAD = 1"
| "flow_inputs OP_MSTORE = 2"
| "flow_inputs OP_SSTORE = 2"
| "flow_inputs OP_MSTORE8 = 2"
| "flow_inputs OP_JUMP = 1"
| "flow_inputs OP_JUMPI = 2"
| "flow_inputs OP_TLOAD = 1"
| "flow_inputs OP_TSTORE = 2"
| "flow_inputs OP_MCOPY = 3"
| "flow_inputs _ = 0"

fun log_inputs :: "log_op \<Rightarrow> nat" where
  "log_inputs OP_LOG0 = 2"
| "log_inputs OP_LOG1 = 3"
| "log_inputs OP_LOG2 = 4"
| "log_inputs OP_LOG3 = 5"
| "log_inputs OP_LOG4 = 6"

fun sys_inputs :: "sys_op \<Rightarrow> nat" where
  "sys_inputs OP_CREATE = 3"
| "sys_inputs OP_CALL = 7"
| "sys_inputs OP_CALLCODE = 7"
| "sys_inputs OP_RETURN = 2"
| "sys_inputs OP_REVERT = 2"
| "sys_inputs OP_DELEGATECALL = 6"
| "sys_inputs OP_STATICCALL = 6"
| "sys_inputs OP_CREATE2 = 4"
| "sys_inputs OP_SELFDESTRUCT = 1"
| "sys_inputs OP_INVALID = 0"

primrec stack_inputs :: "Opcode \<Rightarrow> nat" where
  "stack_inputs (Arith x) = arith_inputs x"
| "stack_inputs (Logic x) = logic_inputs x"
| "stack_inputs Keccak = 2"
| "stack_inputs (Env x) = env_inputs x"
| "stack_inputs (Block x) = block_inputs x"
| "stack_inputs (Flow x) = flow_inputs x"
| "stack_inputs (Push k) = 0"
| "stack_inputs (Dup k) = unat k + 1"
| "stack_inputs (Swap k) = unat k + 2"
| "stack_inputs (Logs x) = log_inputs x"
| "stack_inputs (Sys x) = sys_inputs x"

fun flow_outputs :: "flow_op \<Rightarrow> nat" where
  "flow_outputs OP_JUMP = 0"
| "flow_outputs OP_JUMPI = 0"
| "flow_outputs OP_SSTORE = 0"
| "flow_outputs OP_POP = 0"
| "flow_outputs OP_MSTORE = 0"
| "flow_outputs OP_MSTORE8 = 0"
| "flow_outputs OP_JUMPDEST = 0"
| "flow_outputs OP_TSTORE = 0"
| "flow_outputs OP_MCOPY = 0"
| "flow_outputs _ = 1"

fun env_outputs :: "env_op \<Rightarrow> nat" where
  "env_outputs OP_CALLDATACOPY = 0"
| "env_outputs OP_CODECOPY = 0"
| "env_outputs OP_EXTCODECOPY = 0"
| "env_outputs OP_RETURNDATACOPY = 0"
| "env_outputs _ = 1"

fun sys_outputs :: "sys_op \<Rightarrow> nat" where
  "sys_outputs OP_RETURN = 0"
| "sys_outputs OP_REVERT = 0"
| "sys_outputs OP_SELFDESTRUCT = 0"
| "sys_outputs OP_INVALID = 0"
| "sys_outputs _ = 1"

primrec stack_outputs :: "Opcode \<Rightarrow> nat" where
  "stack_outputs (Arith x) = (if x = OP_STOP then 0 else 1)"
| "stack_outputs (Logic x) = 1"
| "stack_outputs Keccak = 1"
| "stack_outputs (Env x) = env_outputs x"
| "stack_outputs (Block x) = 1"
| "stack_outputs (Flow x) = flow_outputs x"
| "stack_outputs (Push k) = 1"
| "stack_outputs (Dup k) = unat k + 2"
| "stack_outputs (Swap k) = unat k + 2"
| "stack_outputs (Logs x) = 0"
| "stack_outputs (Sys x) = sys_outputs x"

subsection \<open>Lemmas\<close>

lemma unat_less_32: "unat (k :: 5 word) < 32"
  using unsigned_less [of k, where ?'a = nat] by simp

lemma unat_less_16: "unat (k :: 4 word) < 16"
  using unsigned_less [of k, where ?'a = nat] by simp

lemma unat_ucast5: "unat (ucast (k :: 5 word) :: u8) = unat k"
  using unat_less_32 [of k] by (intro unat_ucast_small) simp

lemma unat_ucast4: "unat (ucast (k :: 4 word) :: u8) = unat k"
  using unat_less_16 [of k] by (intro unat_ucast_small) simp

lemma unat_push_byte: "unat (0x60 + ucast (k :: 5 word) :: u8) = 0x60 + unat k"
  using unat_less_32 [of k] by (simp add: unat_word_ariths unat_ucast5)

lemma unat_dup_byte: "unat (0x80 + ucast (k :: 4 word) :: u8) = 0x80 + unat k"
  using unat_less_16 [of k] by (simp add: unat_word_ariths unat_ucast4)

lemma unat_swap_byte: "unat (0x90 + ucast (k :: 4 word) :: u8) = 0x90 + unat k"
  using unat_less_16 [of k] by (simp add: unat_word_ariths unat_ucast4)

lemma ucast_ucast5 [simp]: "ucast (ucast (k :: 5 word) :: u8) = k"
  using unat_less_32 [of k] by (intro ucast_ucast_small) simp

lemma ucast_ucast4 [simp]: "ucast (ucast (k :: 4 word) :: u8) = k"
  using unat_less_16 [of k] by (intro ucast_ucast_small) simp

lemma from_u8_push: "from_u8 (0x60 + ucast (k :: 5 word)) = Some (Push k)"
  using unat_less_32 [of k]
  by (simp add: from_u8_def word_unat_eq_iff [where ?'a = 8] word_le_nat_alt unat_push_byte)

lemma from_u8_dup: "from_u8 (0x80 + ucast (k :: 4 word)) = Some (Dup k)"
  using unat_less_16 [of k]
  by (simp add: from_u8_def word_unat_eq_iff [where ?'a = 8] word_le_nat_alt unat_dup_byte)

lemma from_u8_swap: "from_u8 (0x90 + ucast (k :: 4 word)) = Some (Swap k)"
  using unat_less_16 [of k]
  by (simp add: from_u8_def word_unat_eq_iff [where ?'a = 8] word_le_nat_alt unat_swap_byte)

lemma from_u8_arith: "from_u8 (arith_byte x) = Some (Arith x)"
  by (cases x) (simp_all add: from_u8_def)

lemma from_u8_logic: "from_u8 (logic_byte x) = Some (Logic x)"
  by (cases x) (simp_all add: from_u8_def)

lemma from_u8_env: "from_u8 (env_byte x) = Some (Env x)"
  by (cases x) (simp_all add: from_u8_def)

lemma from_u8_block: "from_u8 (block_byte x) = Some (Block x)"
  by (cases x) (simp_all add: from_u8_def)

lemma from_u8_flow: "from_u8 (flow_byte x) = Some (Flow x)"
  by (cases x) (simp_all add: from_u8_def)

lemma from_u8_log: "from_u8 (log_byte x) = Some (Logs x)"
  by (cases x) (simp_all add: from_u8_def)

lemma from_u8_sys: "from_u8 (sys_byte x) = Some (Sys x)"
  by (cases x) (simp_all add: from_u8_def)

lemmas from_u8_groups = from_u8_arith from_u8_logic from_u8_env from_u8_block from_u8_flow
  from_u8_log from_u8_sys from_u8_push from_u8_dup from_u8_swap

lemma from_u8_as_u8_eq: "from_u8 (as_u8 op) = Some op"
proof (cases op)
  case Keccak
  then show ?thesis by (simp add: from_u8_def)
qed (simp_all add: from_u8_groups)

text \<open>The converse: a byte that decodes is the byte of what it decodes to.\<close>

lemma as_u8_range:
  "0x60 \<le> b \<Longrightarrow> b \<le> (0x7f :: u8) \<Longrightarrow> 0x60 + ucast (ucast (b - 0x60) :: 5 word) = b"
  "0x80 \<le> b \<Longrightarrow> b \<le> (0x8f :: u8) \<Longrightarrow> 0x80 + ucast (ucast (b - 0x80) :: 4 word) = b"
  "0x90 \<le> b \<Longrightarrow> b \<le> (0x9f :: u8) \<Longrightarrow> 0x90 + ucast (ucast (b - 0x90) :: 4 word) = b"
  by (subst ucast_ucast_small; simp add: word_le_nat_alt unat_sub)+

lemma if_SomeE:
  assumes "(if P then Some a else y) = Some x"
    and "P \<Longrightarrow> a = x \<Longrightarrow> R" and "y = Some x \<Longrightarrow> R"
  shows R
  using assms by (cases P) auto

lemma as_u8_from_u8_eq:
  assumes "from_u8 b = Some op"
  shows "as_u8 op = b"
  using assms unfolding from_u8_def
  by (elim if_SomeE) (auto simp: as_u8_range)

end
