(* ===== verification/Evm_State.thy ===== *)
theory Evm_State
  imports Evm_Types
begin

text \<open>
  The account store the interpreter runs on, \<^verbatim>\<open>crates/evm/src/state.rs\<close>: the trait
  \<^verbatim>\<open>StateDB\<close> as a locale of laws, its implementation for
  \<^verbatim>\<open>HashMap<Address, Account>\<close> as a partial map, and the change log \<^verbatim>\<open>StateChanges\<close>.
\<close>

type_synonym World = "Address \<rightharpoonup> Account"

definition get_account :: "World \<Rightarrow> Address \<Rightarrow> Account option" where
  "get_account w a = w a"

definition set_account :: "World \<Rightarrow> Address \<Rightarrow> Account \<Rightarrow> World" where
  "set_account w a acc = w(a \<mapsto> acc)"

definition get_storage :: "World \<Rightarrow> Address \<Rightarrow> H256 \<Rightarrow> H256" where
  "get_storage w a key =
     (case w a of
        None \<Rightarrow> 0
      | Some acc \<Rightarrow> (case acc_storage acc key of None \<Rightarrow> 0 | Some v \<Rightarrow> v))"

definition set_storage :: "World \<Rightarrow> Address \<Rightarrow> H256 \<Rightarrow> H256 \<Rightarrow> World" where
  "set_storage w a key v =
     (let acc = (case w a of None \<Rightarrow> default_account | Some acc \<Rightarrow> acc)
      in w(a \<mapsto> acc\<lparr>acc_storage := (acc_storage acc)(key \<mapsto> v)\<rparr>))"

definition account_exists :: "World \<Rightarrow> Address \<Rightarrow> bool" where
  "account_exists w a \<longleftrightarrow> w a \<noteq> None"

definition account_is_empty :: "World \<Rightarrow> Address \<Rightarrow> bool" where
  "account_is_empty w a =
     (case w a of
        None \<Rightarrow> True
      | Some acc \<Rightarrow> acc_balance acc = 0 \<and> acc_nonce acc = 0 \<and> acc_code acc = [])"

definition remove_account :: "World \<Rightarrow> Address \<Rightarrow> World" where
  "remove_account w a = w(a := None)"

subsection \<open>The change log\<close>

record AccountChange =
  chg_address :: Address
  chg_balance_change :: "(U256 \<times> U256) option"
  chg_nonce_change :: "(u64 \<times> u64) option"
  chg_code_change :: "(bytes \<times> bytes) option"
  chg_storage_changes :: "H256 \<rightharpoonup> H256 \<times> H256"

record StateChanges =
  sc_account_changes :: "Address \<rightharpoonup> AccountChange"
  sc_created_accounts :: "Address list"
  sc_deleted_accounts :: "Address list"

definition state_changes_new :: StateChanges where
  "state_changes_new =
     \<lparr>sc_account_changes = Map.empty, sc_created_accounts = [], sc_deleted_accounts = []\<rparr>"

definition account_change_entry :: "StateChanges \<Rightarrow> Address \<Rightarrow> AccountChange" where
  "account_change_entry sc a =
     (case sc_account_changes sc a of
        Some c \<Rightarrow> c
      | None \<Rightarrow> \<lparr>chg_address = a, chg_balance_change = None, chg_nonce_change = None,
                 chg_code_change = None, chg_storage_changes = Map.empty\<rparr>)"

definition record_balance_change :: "StateChanges \<Rightarrow> Address \<Rightarrow> U256 \<Rightarrow> U256 \<Rightarrow> StateChanges" where
  "record_balance_change sc a old new =
     sc\<lparr>sc_account_changes := (sc_account_changes sc)
          (a \<mapsto> (account_change_entry sc a)\<lparr>chg_balance_change := Some (old, new)\<rparr>)\<rparr>"

definition record_storage_change ::
  "StateChanges \<Rightarrow> Address \<Rightarrow> H256 \<Rightarrow> H256 \<Rightarrow> H256 \<Rightarrow> StateChanges" where
  "record_storage_change sc a key old new =
     (let c = account_change_entry sc a in
      sc\<lparr>sc_account_changes := (sc_account_changes sc)
           (a \<mapsto> c\<lparr>chg_storage_changes := (chg_storage_changes c)(key \<mapsto> (old, new))\<rparr>)\<rparr>)"

subsection \<open>The contract of \<^verbatim>\<open>StateDB\<close>\<close>

text \<open>
  What a client of the trait may rely on: a read after a write gives what was written, a
  write touches one slot of one account, and a write of storage leaves balance, nonce and
  code alone.
\<close>

locale state_db =
  fixes account :: "'w \<Rightarrow> Address \<Rightarrow> Account option"
    and put_account :: "'w \<Rightarrow> Address \<Rightarrow> Account \<Rightarrow> 'w"
    and load :: "'w \<Rightarrow> Address \<Rightarrow> H256 \<Rightarrow> H256"
    and store :: "'w \<Rightarrow> Address \<Rightarrow> H256 \<Rightarrow> H256 \<Rightarrow> 'w"
    and drop_account :: "'w \<Rightarrow> Address \<Rightarrow> 'w"
  assumes account_put: "account (put_account w a acc) b = (if b = a then Some acc else account w b)"
    and account_drop: "account (drop_account w a) b = (if b = a then None else account w b)"
    and load_store: "load (store w a k v) b j = (if b = a \<and> j = k then v else load w b j)"
    and account_store_other: "b \<noteq> a \<Longrightarrow> account (store w a k v) b = account w b"
    and account_store_same:
      "\<exists>acc. account (store w a k v) a = Some acc \<and>
         (\<forall>acc0. account w a = Some acc0 \<longrightarrow>
            acc_balance acc = acc_balance acc0 \<and> acc_nonce acc = acc_nonce acc0 \<and>
            acc_code acc = acc_code acc0)"
begin

text \<open>Writes to different slots commute as far as any reader can tell.\<close>

lemma load_store_commute:
  "(a, k) \<noteq> (b, j) \<Longrightarrow>
   load (store (store w a k v) b j u) = load (store (store w b j u) a k v)"
  by (auto simp: load_store fun_eq_iff)

lemma load_store_twice: "load (store (store w a k v) a k u) = load (store w a k u)"
  by (auto simp: load_store fun_eq_iff)

fun store_all :: "'w \<Rightarrow> Address \<Rightarrow> (H256 \<times> H256) list \<Rightarrow> 'w" where
  "store_all w a [] = w"
| "store_all w a ((k, v) # kvs) = store_all (store w a k v) a kvs"

text \<open>A batch of writes leaves the last value written to each slot.\<close>

lemma load_store_all:
  "load (store_all w a kvs) b j =
     (case map_of (rev kvs) j of
        Some v \<Rightarrow> if b = a then v else load w b j
      | None \<Rightarrow> load w b j)"
proof (induction kvs arbitrary: w)
  case Nil
  then show ?case by simp
next
  case (Cons kv kvs)
  then show ?case
    by (cases kv) (auto simp: load_store map_add_def split: option.splits)
qed

end

interpretation hash_state: state_db get_account set_account get_storage set_storage remove_account
  by unfold_locales
    (auto simp: get_account_def set_account_def get_storage_def set_storage_def
      remove_account_def default_account_def Let_def split: option.splits)

subsection \<open>Lemmas\<close>

lemma set_storage_other: "b \<noteq> a \<Longrightarrow> set_storage w a k v b = w b"
  by (simp add: set_storage_def Let_def)

lemma set_storage_fields:
  "w a = Some acc \<Longrightarrow> \<exists>acc'. set_storage w a k v a = Some acc' \<and>
     acc_balance acc' = acc_balance acc \<and> acc_nonce acc' = acc_nonce acc \<and>
     acc_code acc' = acc_code acc"
  by (simp add: set_storage_def Let_def)

end
