(* ===== verification/Evm_Arith.thy ===== *)
theory Evm_Arith
  imports Prelude "HOL-Library.Signed_Division"
begin

text \<open>
  The 256-bit arithmetic helpers of the interpreter,
  \<^verbatim>\<open>crates/evm/src/interpreter.rs\<close> lines 792-880, with the conversions between words,
  hashes and addresses that the opcode bodies spell out with byte arrays.  \<^verbatim>\<open>U256\<close> is a
  256-bit word; its subtraction panics on underflow, its shift by 256 or more gives zero, and
  \<^verbatim>\<open>byte(i)\<close> counts from the least significant byte.
\<close>

definition sub256 :: "U256 \<Rightarrow> U256 \<Rightarrow> ('e, U256) result" where
  "sub256 a b = (if b \<le> a then Ok (a - b) else Panic)"

definition u256_byte :: "U256 \<Rightarrow> nat \<Rightarrow> u8" where
  "u256_byte v i = ucast (drop_bit (8 * i) v)"

definition u256_of_h256 :: "H256 \<Rightarrow> U256" where
  "u256_of_h256 h = from_be (to_be 32 h)"

definition h256_of_u256 :: "U256 \<Rightarrow> H256" where
  "h256_of_u256 v = from_be (to_be 32 v)"

definition u256_of_address :: "Address \<Rightarrow> U256" where
  "u256_of_address a = from_be (to_be 20 a)"

definition address_from_u256 :: "U256 \<Rightarrow> Address" where
  "address_from_u256 v = from_be (drop 12 (to_be 32 v))"

definition bool256 :: "bool \<Rightarrow> U256" where
  "bool256 b = (if b then 1 else 0)"

definition is_negative :: "U256 \<Rightarrow> bool" where
  "is_negative v = bit v 255"

definition twos_complement :: "U256 \<Rightarrow> U256" where
  "twos_complement v = NOT v + 1"

definition signed_div :: "U256 \<Rightarrow> U256 \<Rightarrow> U256" where
  "signed_div a b =
     (if b = 0 then 0
      else
        let a_negative = is_negative a;
            b_negative = is_negative b;
            a_abs = (if a_negative then twos_complement a else a);
            b_abs = (if b_negative then twos_complement b else b);
            r = a_abs div b_abs
        in if a_negative \<noteq> b_negative then twos_complement r else r)"

definition signed_mod :: "U256 \<Rightarrow> U256 \<Rightarrow> U256" where
  "signed_mod a b =
     (if b = 0 then 0
      else
        let a_negative = is_negative a;
            a_abs = (if a_negative then twos_complement a else a);
            b_abs = (if is_negative b then twos_complement b else b);
            r = a_abs mod b_abs
        in if a_negative \<and> r \<noteq> 0 then twos_complement r else r)"

definition sign_extend :: "U256 \<Rightarrow> U256 \<Rightarrow> ('e, U256) result" where
  "sign_extend ext x =
     (if ext \<ge> 32 then Ok x
      else
        bind_res (as_usize ext) (\<lambda>e.
          let bit_index = e * 8 + 7;
              b = bit x bit_index
          in bind_res (sub256 (push_bit (bit_index + 1) 1) 1) (\<lambda>mask.
               Ok (if b then x OR NOT mask else x AND mask))))"

definition arithmetic_shr :: "U256 \<Rightarrow> U256 \<Rightarrow> ('e, U256) result" where
  "arithmetic_shr v shift =
     (if shift \<ge> 256 then Ok (if is_negative v then - 1 else 0)
      else
        bind_res (as_usize shift) (\<lambda>n.
          Ok (if is_negative v
              then drop_bit n v OR push_bit (256 - n) (- 1)
              else drop_bit n v)))"

text \<open>The 512-bit intermediate results of \<^verbatim>\<open>ADDMOD\<close> and \<^verbatim>\<open>MULMOD\<close>.\<close>

definition full_mul :: "U256 \<Rightarrow> U256 \<Rightarrow> 512 word" where
  "full_mul a b = ucast a * ucast b"

definition u512_try_into :: "512 word \<Rightarrow> U256 option" where
  "u512_try_into w = (if unat w < 2 ^ 256 then Some (ucast w) else None)"

definition add_mod :: "U256 \<Rightarrow> U256 \<Rightarrow> U256 \<Rightarrow> U256" where
  "add_mod a b n =
     (if n = 0 then 0
      else
        let a_big = full_mul a 1;
            b_big = full_mul b 1;
            sm = a_big + b_big;
            remainder = sm mod ucast n
        in (case u512_try_into remainder of Some r \<Rightarrow> r | None \<Rightarrow> 0))"

definition mul_mod :: "U256 \<Rightarrow> U256 \<Rightarrow> U256 \<Rightarrow> U256" where
  "mul_mod a b n =
     (if n = 0 then 0
      else
        let product = full_mul a b;
            remainder = product mod ucast n
        in (case u512_try_into remainder of Some r \<Rightarrow> r | None \<Rightarrow> 0))"

subsection \<open>Conversions\<close>

lemma u256_of_h256 [simp]: "u256_of_h256 h = h"
  by (simp add: u256_of_h256_def from_be_to_be)

lemma h256_of_u256 [simp]: "h256_of_u256 v = v"
  by (simp add: h256_of_u256_def from_be_to_be)

lemma be_nat_drop:
  "be_nat (drop k bs) = be_nat bs mod 256 ^ (length bs - k)"
proof -
  have "be_nat bs = be_nat (take k bs) * 256 ^ length (drop k bs) + be_nat (drop k bs)"
    using be_nat_append [of "take k bs" "drop k bs"] by simp
  then show ?thesis
    using be_nat_bound [of "drop k bs"] by simp
qed

lemma address_of_word: "unat (address_from_u256 v) = unat v mod 2 ^ 160"
proof -
  have "be_nat (drop 12 (to_be 32 v)) = unat v mod 256 ^ 32 mod 256 ^ 20"
    by (simp add: be_nat_drop to_be_def be_nat_be_digits)
  then show ?thesis
    by (simp add: address_from_u256_def from_be_def unat_of_nat mod_mod_cancel)
qed

lemma address_roundtrip: "address_from_u256 (u256_of_address a) = a"
proof -
  have a: "unat a < 2 ^ 160" using unsigned_less [of a, where ?'a = nat] by simp
  then have "be_nat (to_be 20 a) = unat a"
    by (simp add: to_be_def be_nat_be_digits)
  then have "unat (u256_of_address a) = unat a"
    using a by (simp add: u256_of_address_def from_be_def unat_ucast_small)
  then have "unat (address_from_u256 (u256_of_address a)) = unat a"
    using a by (simp add: address_of_word)
  then show ?thesis by (simp only: word_unat_eq_iff)
qed

subsection \<open>Signed arithmetic\<close>

lemma twos_complement_eq: "twos_complement v = - v"
  by (simp add: twos_complement_def minus_eq_not_plus_1)

lemma is_negative_sint: "is_negative v \<longleftrightarrow> sint v < 0"
  using bit_last_iff [of v] by (simp add: is_negative_def)

lemma sint_by_sign: "sint (v :: U256) = (if is_negative v then uint v - 2 ^ 256 else uint v)"
proof -
  have bounds: "- (2 ^ 255) \<le> sint v" "sint v < 2 ^ 255"
    using sint_ge [of v] sint_lt [of v] by simp_all
  have u: "uint v = sint v mod 2 ^ 256" by (simp add: uint_sint take_bit_eq_mod)
  show ?thesis
  proof (cases "sint v < 0")
    case True
    then have "(sint v + 2 ^ 256) mod 2 ^ 256 = sint v + 2 ^ 256"
      using bounds by (intro mod_pos_pos_trivial) simp_all
    then show ?thesis using True u by (simp add: is_negative_sint)
  next
    case False
    then have "sint v mod 2 ^ 256 = sint v"
      using bounds by (intro mod_pos_pos_trivial) simp_all
    then show ?thesis using False u by (simp add: is_negative_sint)
  qed
qed

text \<open>The comparison that \<^verbatim>\<open>SLT\<close> and \<^verbatim>\<open>SGT\<close> spell out is the one of the signed values.\<close>

lemma signed_less:
  "(if is_negative a = is_negative b then bool256 (a < b) else if is_negative a then 1 else 0)
     = bool256 (sint a < sint b)"
proof -
  have "uint a < 2 ^ 256" "uint b < 2 ^ 256" "0 \<le> uint a" "0 \<le> uint b"
    using unsigned_less [of a, where ?'a = int] unsigned_less [of b, where ?'a = int] by simp_all
  then have "uint a - 2 ^ 256 < uint b" "\<not> uint a < uint b - 2 ^ 256" by linarith+
  then show ?thesis by (auto simp: sint_by_sign bool256_def word_less_def)
qed

lemma uint_magnitude:
  "uint (if is_negative v then twos_complement v else v) = \<bar>sint v\<bar>"
proof -
  have bounds: "- (2 ^ 255) \<le> sint v" "sint v < 2 ^ 255"
    using sint_ge [of v] sint_lt [of v] by simp_all
  show ?thesis
  proof (cases "is_negative v")
    case True
    then have neg: "sint v < 0" by (simp add: is_negative_sint)
    have "- v = word_of_int (- sint v)" by simp
    then have "uint (- v) = take_bit 256 (- sint v)"
      using uint_word_of_int_eq [of "- sint v", where ?'a = 256] by simp
    also have "\<dots> = - sint v"
      using neg bounds by (intro take_bit_int_eq_self) auto
    finally show ?thesis using True neg by (simp add: twos_complement_eq)
  next
    case False
    then have "0 \<le> sint v" by (simp add: is_negative_sint)
    moreover have "uint v = take_bit 256 (sint v)" using uint_sint [of v] by simp
    ultimately have "uint v = sint v"
      using bounds by (simp add: take_bit_int_eq_self)
    with False \<open>0 \<le> sint v\<close> show ?thesis by simp
  qed
qed

lemma signed_div_sdiv: "signed_div a b = word_of_int (sint a sdiv sint b)"
proof (cases "b = 0")
  case True
  then show ?thesis by (simp add: signed_div_def sdiv_int_div_0)
next
  case False
  define r where "r = (if is_negative a then twos_complement a else a) div
                      (if is_negative b then twos_complement b else b)"
  have "uint r = \<bar>sint a\<bar> div \<bar>sint b\<bar>"
    unfolding r_def by (simp only: uint_div uint_magnitude)
  then have r: "r = word_of_int (\<bar>sint a\<bar> div \<bar>sint b\<bar>)"
    by (metis word_of_int_uint)
  have d: "signed_div a b = (if is_negative a \<noteq> is_negative b then - r else r)"
    using False by (simp add: signed_div_def Let_def r_def twos_complement_eq)
  have b0: "sint b \<noteq> 0" using False by (metis signed_0 signed_word_eqI)
  show ?thesis
    using b0 unfolding d r
    by (auto simp: is_negative_sint signed_divide_int_def sgn_if)
qed

lemma smod_magnitude: "k smod l = sgn k * (\<bar>k\<bar> mod \<bar>l :: int\<bar>)" if "l \<noteq> 0"
  using that by (simp add: smod_int_alt_def)

lemma signed_mod_smod:
  assumes "b \<noteq> 0"
  shows "signed_mod a b = word_of_int (sint a smod sint b)"
proof -
  define r where "r = (if is_negative a then twos_complement a else a) mod
                      (if is_negative b then twos_complement b else b)"
  have "uint r = \<bar>sint a\<bar> mod \<bar>sint b\<bar>"
    unfolding r_def by (simp only: uint_mod uint_magnitude)
  then have r: "r = word_of_int (\<bar>sint a\<bar> mod \<bar>sint b\<bar>)"
    by (metis word_of_int_uint)
  have d: "signed_mod a b = (if is_negative a then - r else r)"
    using assms by (simp add: signed_mod_def Let_def r_def twos_complement_eq)
  have b0: "sint b \<noteq> 0" using assms by (metis signed_0 signed_word_eqI)
  show ?thesis
    using b0 unfolding d r
    by (auto simp: is_negative_sint smod_magnitude sgn_if)
qed

lemma signed_mod_cases:
  "signed_mod a b = (if b = 0 then 0 else word_of_int (sint a smod sint b))"
  by (simp add: signed_mod_smod) (simp add: signed_mod_def)

lemma arithmetic_shr_signed_drop_bit:
  "arithmetic_shr v shift = (Ok (signed_drop_bit (unat shift) v) :: ('e, U256) result)"
proof (cases "shift \<ge> 256")
  case True
  then have n: "256 \<le> unat shift" by (simp add: word_le_nat_alt)
  have "(if is_negative v then - 1 else 0) = signed_drop_bit (unat shift) v"
    using n by (intro bit_word_eqI) (auto simp: bit_simps is_negative_def)
  with True show ?thesis by (simp add: arithmetic_shr_def)
next
  case False
  then have n: "unat shift < 256" by (simp add: word_le_nat_alt)
  have neg: "drop_bit (unat shift) v OR push_bit (256 - unat shift) (- 1) =
      signed_drop_bit (unat shift) v" if "bit v 255"
    using n that by (intro bit_word_eqI) (auto simp: bit_simps not_le)
  have pos: "drop_bit (unat shift) v = signed_drop_bit (unat shift) v" if "\<not> bit v 255"
  proof (intro bit_word_eqI)
    fix i assume "i < LENGTH(256)"
    show "bit (drop_bit (unat shift) v) i = bit (signed_drop_bit (unat shift) v) i"
      using n that bit_imp_le_length [of v "unat shift + i"] by (auto simp: bit_simps)
  qed
  from n have "as_usize shift = (Ok (unat shift) :: ('e, nat) result)"
    by (simp add: as_usize_def)
  with False neg pos show ?thesis
    by (simp add: arithmetic_shr_def is_negative_def)
qed

text \<open>
  Sign extension is right for every byte index below 31 and for every index that leaves the
  word alone, and panics at index 31: the mask is then \<^verbatim>\<open>(1 << 256) - 1\<close>, a subtraction
  from zero.
\<close>

lemma sign_mask_signed_take_bit:
  fixes x :: U256
  shows "(if bit x n then x OR NOT (mask (Suc n)) else x AND mask (Suc n)) = signed_take_bit n x"
  by (intro bit_word_eqI) (auto simp: bit_simps min_def less_Suc_eq_le dest: le_antisym)

lemma sign_extend_small:
  assumes "unat ext < 31"
  shows "sign_extend ext x = (Ok (signed_take_bit (8 * unat ext + 7) x) :: ('e, U256) result)"
proof -
  let ?n = "8 * unat ext + 7"
  have lt: "\<not> 32 \<le> ext" using assms by (simp add: word_le_nat_alt)
  have us: "as_usize ext = (Ok (unat ext) :: ('e, nat) result)"
    using assms by (simp add: as_usize_def)
  have n: "Suc ?n < 256" using assms by simp
  have "(2 :: U256) ^ Suc ?n \<noteq> 0" using n by (simp only: exp_eq_zero_iff) simp
  then have "(1 :: U256) \<le> push_bit (Suc ?n) 1"
    by (simp only: push_bit_eq_mult mult_1 word_le_nat_alt unat_1 Suc_le_eq unat_gt_0 One_nat_def
      not_False_eq_True)
  then have "sub256 (push_bit (Suc ?n) 1) 1 = (Ok (mask (Suc ?n)) :: ('e, U256) result)"
    by (simp add: sub256_def mask_eq_exp_minus_1 push_bit_eq_mult)
  then have "sign_extend ext x =
      (Ok (if bit x ?n then x OR NOT (mask (Suc ?n)) else x AND mask (Suc ?n)) :: ('e, U256) result)"
    by (simp only: sign_extend_def lt us if_False bind_res.simps Let_def mult.commute [of _ 8]
        Suc_eq_plus1)
  then show ?thesis by (simp only: sign_mask_signed_take_bit)
qed

lemma sign_extend_31: "sign_extend 31 x = (Panic :: ('e, U256) result)"
proof -
  have "push_bit 256 1 = (0 :: U256)"
    by (intro bit_word_eqI) (simp only: bit_push_bit_iff, simp)
  then have "sub256 (push_bit 256 1) 1 = (Panic :: ('e, U256) result)"
    by (simp only: sub256_def) simp
  then show ?thesis by (simp add: sign_extend_def as_usize_def Let_def del: push_bit_numeral_minus_1)
qed

lemma sign_extend_large: "32 \<le> ext \<Longrightarrow> sign_extend ext x = Ok x"
  by (simp add: sign_extend_def)

subsection \<open>Modular arithmetic\<close>

lemma unat_ucast512: "unat (ucast (a :: U256) :: 512 word) = unat a"
proof (rule unat_ucast_small)
  have "unat a < 2 ^ 256" using unsigned_less [of a, where ?'a = nat] by simp
  also have "(2 :: nat) ^ 256 < 2 ^ LENGTH(512)" by simp
  finally show "unat a < 2 ^ LENGTH(512)" .
qed

lemma unat_full_mul: "unat (full_mul a b) = unat a * unat b"
proof -
  have "unat a < 2 ^ 256" "unat b < 2 ^ 256"
    using unsigned_less [of a, where ?'a = nat] unsigned_less [of b, where ?'a = nat] by simp_all
  then have "unat a * unat b < 2 ^ 256 * 2 ^ 256"
    by (intro mult_strict_mono) auto
  then have "unat a * unat b < 2 ^ LENGTH(512)" by simp
  then show ?thesis
    by (simp add: full_mul_def unat_word_ariths unat_ucast512)
qed

lemma u512_try_into_mod:
  assumes "n \<noteq> 0"
  shows "u512_try_into (w mod ucast (n :: U256)) = Some (of_nat (unat w mod unat n))"
proof -
  have m: "unat (w mod ucast n) = unat w mod unat n"
    by (simp add: unat_mod unat_ucast512)
  have "unat n \<noteq> 0" using assms by (simp add: unat_eq_0)
  then have lt: "unat w mod unat n < unat n" by simp
  also have "unat n < 2 ^ 256" using unsigned_less [of n, where ?'a = nat] by simp
  finally have b: "unat w mod unat n < 2 ^ 256" .
  have "ucast (w mod ucast n) = (of_nat (unat (w mod ucast n)) :: U256)"
    by simp
  then show ?thesis using b m by (simp add: u512_try_into_def)
qed

lemma unat_of_nat_mod256:
  assumes "n \<noteq> (0 :: U256)"
  shows "unat (of_nat (x mod unat n) :: U256) = x mod unat n"
proof -
  have "x mod unat n < unat n" using assms by (intro mod_less_divisor) (simp add: unat_gt_0)
  also have "unat n < 2 ^ 256" using unsigned_less [of n, where ?'a = nat] by simp
  finally show ?thesis by (simp add: unat_of_nat)
qed

lemma unat_add_mod: "n \<noteq> 0 \<Longrightarrow> unat (add_mod a b n) = (unat a + unat b) mod unat n"
proof -
  assume n: "n \<noteq> 0"
  have "unat a < 2 ^ 256" "unat b < 2 ^ 256"
    using unsigned_less [of a, where ?'a = nat] unsigned_less [of b, where ?'a = nat] by simp_all
  then have "unat a + unat b < 2 ^ LENGTH(512)" by simp
  then have s: "unat (full_mul a 1 + full_mul b 1) = unat a + unat b"
    by (simp add: unat_word_ariths unat_full_mul)
  have "add_mod a b n = of_nat ((unat a + unat b) mod unat n)"
    using n by (simp add: add_mod_def Let_def u512_try_into_mod s)
  then show ?thesis by (simp only: unat_of_nat_mod256 [OF n])
qed

lemma unat_mul_mod: "n \<noteq> 0 \<Longrightarrow> unat (mul_mod a b n) = (unat a * unat b) mod unat n"
proof -
  assume n: "n \<noteq> 0"
  have "mul_mod a b n = of_nat ((unat a * unat b) mod unat n)"
    using n by (simp add: mul_mod_def Let_def u512_try_into_mod unat_full_mul)
  then show ?thesis by (simp only: unat_of_nat_mod256 [OF n])
qed

end
