(* ===== verification/Evm_Interp.thy ===== *)
theory Evm_Interp
  imports Evm_Stack Evm_Memory Evm_Gas Evm_Opcodes Evm_State Evm_Arith
begin

text \<open>
  The interpreter, \<^verbatim>\<open>crates/evm/src/interpreter.rs\<close>, and the entry point
  \<^verbatim>\<open>Evm::execute\<close> of \<^verbatim>\<open>lib.rs\<close>.  The struct \<^verbatim>\<open>Interpreter\<close> is the record \<open>Interp\<close>;
  the borrowed state database is the account map of \<open>Evm_State\<close>.

  A piece of an opcode body is a \<open>step\<close>: a function from the interpreter to an outcome and the
  interpreter after it.  The interpreter is returned on every outcome, because Rust code that
  leaves early with \<^verbatim>\<open>?\<close> keeps the mutations made before.  The bodies are written with
  combinators that take the rest of the body as a continuation and read in the order of the
  source: \<open>charge\<close> is \<^verbatim>\<open>self.gas.consume(..)?\<close>, \<open>pop\<close> is \<^verbatim>\<open>let v = self.stack.pop()?\<close>,
  \<open>push\<close> is \<^verbatim>\<open>self.stack.push(..)?\<close>, \<open>lift_res\<close> runs a computation that may fail or panic,
  \<open>advance\<close> is \<^verbatim>\<open>self.pc += 1; Ok(())\<close>.  The program counter stays below the length of
  the code when it is incremented, so the increment does not wrap.

  The hash function \<^verbatim>\<open>keccak256\<close> is the argument \<open>kec\<close> of the definitions that use it.
\<close>

record Interp =
  i_context :: ExecutionContext
  i_state :: World
  i_stack :: Stack
  i_memory :: Memory
  i_gas :: Gas
  i_pc :: nat
  i_return_data :: bytes
  i_logs :: "Log list"
  i_result :: "ExecutionResult option"

type_synonym step = "Interp \<Rightarrow> unit EvmResult \<times> Interp"

definition interpreter_new :: "ExecutionContext \<Rightarrow> World \<Rightarrow> Interp" where
  "interpreter_new ctx w =
     \<lparr>i_context = ctx, i_state = w, i_stack = stack_new, i_memory = memory_new,
      i_gas = gas_new (ctx_gas_limit ctx), i_pc = 0, i_return_data = [], i_logs = [],
      i_result = None\<rparr>"

subsection \<open>Combinators\<close>

definition lift_res :: "'a EvmResult \<Rightarrow> ('a \<Rightarrow> step) \<Rightarrow> step" where
  "lift_res r k = (\<lambda>s. case r of Ok x \<Rightarrow> k x s | Err e \<Rightarrow> (Err e, s) | Panic \<Rightarrow> (Panic, s))"

definition fail :: "EvmError \<Rightarrow> step" where
  "fail e = (\<lambda>s. (Err e, s))"

definition asks :: "(Interp \<Rightarrow> 'a) \<Rightarrow> ('a \<Rightarrow> step) \<Rightarrow> step" where
  "asks f k = (\<lambda>s. k (f s) s)"

definition charge :: "u64 \<Rightarrow> step \<Rightarrow> step" where
  "charge n k = (\<lambda>s. lift_res (gas_consume (i_gas s) n) (\<lambda>g s. k (s\<lparr>i_gas := g\<rparr>)) s)"

definition pop :: "(U256 \<Rightarrow> step) \<Rightarrow> step" where
  "pop k = (\<lambda>s. lift_res (stack_pop (i_stack s)) (\<lambda>(v, st) s. k v (s\<lparr>i_stack := st\<rparr>)) s)"

definition push :: "U256 \<Rightarrow> step \<Rightarrow> step" where
  "push v k = (\<lambda>s. lift_res (stack_push (i_stack s) v) (\<lambda>st s. k (s\<lparr>i_stack := st\<rparr>)) s)"

definition dup :: "nat \<Rightarrow> step \<Rightarrow> step" where
  "dup n k = (\<lambda>s. lift_res (stack_dup (i_stack s) n) (\<lambda>st s. k (s\<lparr>i_stack := st\<rparr>)) s)"

definition swap :: "nat \<Rightarrow> step \<Rightarrow> step" where
  "swap n k = (\<lambda>s. lift_res (stack_swap (i_stack s) n) (\<lambda>st s. k (s\<lparr>i_stack := st\<rparr>)) s)"

primrec pops :: "nat \<Rightarrow> H256 list \<Rightarrow> (H256 list \<Rightarrow> step) \<Rightarrow> step" where
  "pops 0 topics k = k topics"
| "pops (Suc n) topics k = pop (\<lambda>topic. pops n (topics @ [h256_of_u256 topic]) k)"

definition mem_get :: "nat \<Rightarrow> nat \<Rightarrow> (bytes \<Rightarrow> step) \<Rightarrow> step" where
  "mem_get offset sz k = (\<lambda>s. lift_res (memory_get (i_memory s) offset sz) k s)"

definition mem_update :: "(Memory \<Rightarrow> Memory EvmResult) \<Rightarrow> step \<Rightarrow> step" where
  "mem_update f k = (\<lambda>s. lift_res (f (i_memory s)) (\<lambda>m s. k (s\<lparr>i_memory := m\<rparr>)) s)"

definition unless_static :: "step \<Rightarrow> step" where
  "unless_static k =
     (\<lambda>s. if ctx_is_static (i_context s) then (Err StaticCallStateModification, s) else k s)"

definition store :: "H256 \<Rightarrow> H256 \<Rightarrow> step \<Rightarrow> step" where
  "store key v k =
     (\<lambda>s. k (s\<lparr>i_state := set_storage (i_state s) (ctx_address (i_context s)) key v\<rparr>))"

definition emit_log :: "H256 list \<Rightarrow> bytes \<Rightarrow> step \<Rightarrow> step" where
  "emit_log topics dat k =
     (\<lambda>s. k (s\<lparr>i_logs := i_logs s @
        [\<lparr>log_address = ctx_address (i_context s), log_topics = topics, log_data = dat\<rparr>]\<rparr>))"

definition finish :: "(u64 \<Rightarrow> ExecutionResult) \<Rightarrow> step" where
  "finish r = (\<lambda>s. (Ok (), s\<lparr>i_result := Some (r (gas_used (i_gas s)))\<rparr>))"

definition goto :: "nat \<Rightarrow> step" where
  "goto n = (\<lambda>s. (Ok (), s\<lparr>i_pc := n\<rparr>))"

definition advance :: step where
  "advance = (\<lambda>s. (Ok (), s\<lparr>i_pc := i_pc s + 1\<rparr>))"

lemmas combinator_defs = lift_res_def fail_def asks_def charge_def pop_def push_def dup_def
  swap_def mem_get_def mem_update_def unless_static_def store_def emit_log_def finish_def
  goto_def advance_def

definition jump :: "nat \<Rightarrow> step" where
  "jump dest =
     (\<lambda>s. if dest \<ge> length (ctx_code (i_context s)) \<or>
             ctx_code (i_context s) ! dest \<noteq> as_u8 (Flow OP_JUMPDEST)
          then (Err (InvalidJump dest), s)
          else (Ok (), s\<lparr>i_pc := dest\<rparr>))"

definition get_slice :: "bytes \<Rightarrow> U256 \<Rightarrow> U256 \<Rightarrow> ('e, bytes) result" where
  "get_slice dat offset sz =
     (if sz = 0 then Ok []
      else
        bind_res (as_usize offset) (\<lambda>offset.
        bind_res (as_usize sz) (\<lambda>sz.
          if offset \<ge> length dat then vec_zeros sz
          else
            let e = min (wrap64 (offset + sz)) (length dat) in
            bind_res (slice dat offset e) (\<lambda>r. vec_resize r sz))))"

definition get_data :: "Interp \<Rightarrow> U256 \<Rightarrow> U256 \<Rightarrow> ('e, bytes) result" where
  "get_data s offset sz = get_slice (ctx_data (i_context s)) offset sz"

definition get_code :: "Interp \<Rightarrow> U256 \<Rightarrow> U256 \<Rightarrow> ('e, bytes) result" where
  "get_code s offset sz = get_slice (ctx_code (i_context s)) offset sz"

subsection \<open>Stop and arithmetic\<close>

definition op_STOP :: step where [step_defs]:
  "op_STOP = finish (result_success [])"

definition op_ADD :: step where [step_defs]:
  "op_ADD = charge GAS_VERYLOW (pop (\<lambda>b. pop (\<lambda>a. push (a + b) advance)))"

definition op_MUL :: step where [step_defs]:
  "op_MUL = charge GAS_LOW (pop (\<lambda>b. pop (\<lambda>a. push (a * b) advance)))"

definition op_SUB :: step where [step_defs]:
  "op_SUB = charge GAS_VERYLOW (pop (\<lambda>b. pop (\<lambda>a. push (a - b) advance)))"

definition op_DIV :: step where [step_defs]:
  "op_DIV = charge GAS_LOW (pop (\<lambda>b. pop (\<lambda>a.
     push (if b = 0 then 0 else a div b) advance)))"

definition op_SDIV :: step where [step_defs]:
  "op_SDIV = charge GAS_LOW (pop (\<lambda>b. pop (\<lambda>a. push (signed_div a b) advance)))"

definition op_MOD :: step where [step_defs]:
  "op_MOD = charge GAS_LOW (pop (\<lambda>b. pop (\<lambda>a.
     push (if b = 0 then 0 else a mod b) advance)))"

definition op_SMOD :: step where [step_defs]:
  "op_SMOD = charge GAS_LOW (pop (\<lambda>b. pop (\<lambda>a. push (signed_mod a b) advance)))"

definition op_ADDMOD :: step where [step_defs]:
  "op_ADDMOD = charge GAS_MID (pop (\<lambda>n. pop (\<lambda>b. pop (\<lambda>a. push (add_mod a b n) advance))))"

definition op_MULMOD :: step where [step_defs]:
  "op_MULMOD = charge GAS_MID (pop (\<lambda>n. pop (\<lambda>b. pop (\<lambda>a. push (mul_mod a b n) advance))))"

definition op_EXP :: step where [step_defs]:
  "op_EXP = pop (\<lambda>exponent. charge (exp_gas_cost exponent) (pop (\<lambda>base.
     push (base ^ unat exponent) advance)))"

definition op_SIGNEXTEND :: step where [step_defs]:
  "op_SIGNEXTEND = charge GAS_LOW (pop (\<lambda>ext. pop (\<lambda>x.
     lift_res (sign_extend ext x) (\<lambda>v. push v advance))))"

primrec exec_arith :: "arith_op \<Rightarrow> step" where
  "exec_arith OP_STOP = op_STOP"
| "exec_arith OP_ADD = op_ADD"
| "exec_arith OP_MUL = op_MUL"
| "exec_arith OP_SUB = op_SUB"
| "exec_arith OP_DIV = op_DIV"
| "exec_arith OP_SDIV = op_SDIV"
| "exec_arith OP_MOD = op_MOD"
| "exec_arith OP_SMOD = op_SMOD"
| "exec_arith OP_ADDMOD = op_ADDMOD"
| "exec_arith OP_MULMOD = op_MULMOD"
| "exec_arith OP_EXP = op_EXP"
| "exec_arith OP_SIGNEXTEND = op_SIGNEXTEND"

subsection \<open>Comparison and bitwise logic\<close>

definition op_LT :: step where [step_defs]:
  "op_LT = charge GAS_VERYLOW (pop (\<lambda>b. pop (\<lambda>a. push (bool256 (a < b)) advance)))"

definition op_GT :: step where [step_defs]:
  "op_GT = charge GAS_VERYLOW (pop (\<lambda>b. pop (\<lambda>a. push (bool256 (a > b)) advance)))"

definition op_SLT :: step where [step_defs]:
  "op_SLT = charge GAS_VERYLOW (pop (\<lambda>b. pop (\<lambda>a.
     push (if is_negative a = is_negative b then bool256 (a < b)
           else if is_negative a then 1 else 0) advance)))"

definition op_SGT :: step where [step_defs]:
  "op_SGT = charge GAS_VERYLOW (pop (\<lambda>b. pop (\<lambda>a.
     push (if is_negative a = is_negative b then bool256 (a > b)
           else if is_negative b then 1 else 0) advance)))"

definition op_EQ :: step where [step_defs]:
  "op_EQ = charge GAS_VERYLOW (pop (\<lambda>b. pop (\<lambda>a. push (bool256 (a = b)) advance)))"

definition op_ISZERO :: step where [step_defs]:
  "op_ISZERO = charge GAS_VERYLOW (pop (\<lambda>a. push (bool256 (a = 0)) advance))"

definition op_AND :: step where [step_defs]:
  "op_AND = charge GAS_VERYLOW (pop (\<lambda>b. pop (\<lambda>a. push (a AND b) advance)))"

definition op_OR :: step where [step_defs]:
  "op_OR = charge GAS_VERYLOW (pop (\<lambda>b. pop (\<lambda>a. push (a OR b) advance)))"

definition op_XOR :: step where [step_defs]:
  "op_XOR = charge GAS_VERYLOW (pop (\<lambda>b. pop (\<lambda>a. push (a XOR b) advance)))"

definition op_NOT :: step where [step_defs]:
  "op_NOT = charge GAS_VERYLOW (pop (\<lambda>a. push (NOT a) advance))"

definition op_BYTE :: step where [step_defs]:
  "op_BYTE = charge GAS_VERYLOW (pop (\<lambda>i. pop (\<lambda>x.
     push (if i < 32 then ucast (u256_byte x (31 - unat i)) else 0) advance)))"

definition op_SHL :: step where [step_defs]:
  "op_SHL = charge GAS_VERYLOW (pop (\<lambda>shift. pop (\<lambda>v.
     push (if shift \<ge> 256 then 0 else push_bit (unat shift) v) advance)))"

definition op_SHR :: step where [step_defs]:
  "op_SHR = charge GAS_VERYLOW (pop (\<lambda>shift. pop (\<lambda>v.
     push (if shift \<ge> 256 then 0 else drop_bit (unat shift) v) advance)))"

definition op_SAR :: step where [step_defs]:
  "op_SAR = charge GAS_VERYLOW (pop (\<lambda>shift. pop (\<lambda>v.
     lift_res (arithmetic_shr v shift) (\<lambda>r. push r advance))))"

primrec exec_logic :: "logic_op \<Rightarrow> step" where
  "exec_logic OP_LT = op_LT"
| "exec_logic OP_GT = op_GT"
| "exec_logic OP_SLT = op_SLT"
| "exec_logic OP_SGT = op_SGT"
| "exec_logic OP_EQ = op_EQ"
| "exec_logic OP_ISZERO = op_ISZERO"
| "exec_logic OP_AND = op_AND"
| "exec_logic OP_OR = op_OR"
| "exec_logic OP_XOR = op_XOR"
| "exec_logic OP_NOT = op_NOT"
| "exec_logic OP_BYTE = op_BYTE"
| "exec_logic OP_SHL = op_SHL"
| "exec_logic OP_SHR = op_SHR"
| "exec_logic OP_SAR = op_SAR"

subsection \<open>Hashing\<close>

definition op_KECCAK256 :: "(bytes \<Rightarrow> H256) \<Rightarrow> step" where [step_defs]:
  "op_KECCAK256 kec = pop (\<lambda>offset. pop (\<lambda>sz.
     lift_res (keccak256_gas_cost sz) (\<lambda>cost. charge cost (
     lift_res (as_usize offset) (\<lambda>off. lift_res (as_usize sz) (\<lambda>n.
     mem_get off n (\<lambda>dat. push (u256_of_h256 (kec dat)) advance)))))))"

subsection \<open>Environment\<close>

definition op_ADDRESS :: step where [step_defs]:
  "op_ADDRESS = charge GAS_BASE
     (asks (\<lambda>s. u256_of_address (ctx_address (i_context s))) (\<lambda>v. push v advance))"

text \<open>\<^verbatim>\<open>get_account(..).map(|acc| acc.balance).unwrap_or_default()\<close>\<close>

definition balance_of :: "World \<Rightarrow> Address \<Rightarrow> U256" where
  "balance_of w a = (case get_account w a of Some acc \<Rightarrow> acc_balance acc | None \<Rightarrow> 0)"

definition op_BALANCE :: step where [step_defs]:
  "op_BALANCE = pop (\<lambda>addr. charge GAS_BALANCE
     (asks (\<lambda>s. balance_of (i_state s) (address_from_u256 addr)) (\<lambda>v. push v advance)))"

definition op_ORIGIN :: step where [step_defs]:
  "op_ORIGIN = charge GAS_BASE
     (asks (\<lambda>s. u256_of_address (ctx_origin (i_context s))) (\<lambda>v. push v advance))"

definition op_CALLER :: step where [step_defs]:
  "op_CALLER = charge GAS_BASE
     (asks (\<lambda>s. u256_of_address (ctx_caller (i_context s))) (\<lambda>v. push v advance))"

definition op_CALLVALUE :: step where [step_defs]:
  "op_CALLVALUE = charge GAS_BASE (asks (\<lambda>s. ctx_value (i_context s)) (\<lambda>v. push v advance))"

definition op_CALLDATALOAD :: step where [step_defs]:
  "op_CALLDATALOAD = charge GAS_VERYLOW (pop (\<lambda>offset.
     asks (\<lambda>s. get_data s offset 32) (\<lambda>r. lift_res r (\<lambda>dat. push (from_be dat) advance))))"

definition op_CALLDATASIZE :: step where [step_defs]:
  "op_CALLDATASIZE = charge GAS_BASE
     (asks (\<lambda>s. of_nat (length (ctx_data (i_context s)))) (\<lambda>v. push v advance))"

definition op_CALLDATACOPY :: step where [step_defs]:
  "op_CALLDATACOPY = pop (\<lambda>mem_offset. pop (\<lambda>data_offset. pop (\<lambda>sz.
     lift_res (copy_gas_cost sz) (\<lambda>cost. charge cost (
     asks (\<lambda>s. get_data s data_offset sz) (\<lambda>r. lift_res r (\<lambda>dat.
     lift_res (as_usize mem_offset) (\<lambda>off.
     mem_update (\<lambda>m. memory_set m off dat) advance))))))))"

definition op_CODESIZE :: step where [step_defs]:
  "op_CODESIZE = charge GAS_BASE
     (asks (\<lambda>s. of_nat (length (ctx_code (i_context s)))) (\<lambda>v. push v advance))"

definition op_CODECOPY :: step where [step_defs]:
  "op_CODECOPY = pop (\<lambda>mem_offset. pop (\<lambda>code_offset. pop (\<lambda>sz.
     lift_res (copy_gas_cost sz) (\<lambda>cost. charge cost (
     asks (\<lambda>s. get_code s code_offset sz) (\<lambda>r. lift_res r (\<lambda>code.
     lift_res (as_usize mem_offset) (\<lambda>off.
     mem_update (\<lambda>m. memory_set m off code) advance))))))))"

definition op_GASPRICE :: step where [step_defs]:
  "op_GASPRICE = charge GAS_BASE (asks (\<lambda>s. ctx_gas_price (i_context s)) (\<lambda>v. push v advance))"

definition op_EXTCODESIZE :: step where [step_defs]:
  "op_EXTCODESIZE = pop (\<lambda>addr. charge GAS_EXTCODESIZE
     (asks (\<lambda>s. case get_account (i_state s) (address_from_u256 addr) of
                  Some acc \<Rightarrow> of_nat (length (acc_code acc)) | None \<Rightarrow> 0)
       (\<lambda>v. push v advance)))"

definition op_EXTCODECOPY :: step where [step_defs]:
  "op_EXTCODECOPY = pop (\<lambda>addr. pop (\<lambda>mem_offset. pop (\<lambda>code_offset. pop (\<lambda>sz.
     charge GAS_EXTCODECOPY (
     lift_res (copy_gas_cost sz) (\<lambda>cost. charge cost (
     asks (\<lambda>s. case get_account (i_state s) (address_from_u256 addr) of
                  Some acc \<Rightarrow> get_slice (acc_code acc) code_offset sz
                | None \<Rightarrow> bind_res (as_usize sz) vec_zeros)
     (\<lambda>r. lift_res r (\<lambda>code.
     lift_res (as_usize mem_offset) (\<lambda>off.
     mem_update (\<lambda>m. memory_set m off code) advance))))))))))"

definition op_RETURNDATASIZE :: step where [step_defs]:
  "op_RETURNDATASIZE = charge GAS_BASE
     (asks (\<lambda>s. of_nat (length (i_return_data s))) (\<lambda>v. push v advance))"

definition op_RETURNDATACOPY :: step where [step_defs]:
  "op_RETURNDATACOPY = pop (\<lambda>mem_offset. pop (\<lambda>data_offset. pop (\<lambda>sz.
     lift_res (copy_gas_cost sz) (\<lambda>cost. charge cost (
     asks i_return_data (\<lambda>rd.
     if saturating_add256 data_offset sz > of_nat (length rd) then fail ReturnDataOutOfBounds
     else
       lift_res (get_slice rd data_offset sz) (\<lambda>dat.
       lift_res (as_usize mem_offset) (\<lambda>off.
       mem_update (\<lambda>m. memory_set m off dat) advance))))))))"

definition op_EXTCODEHASH :: "(bytes \<Rightarrow> H256) \<Rightarrow> step" where [step_defs]:
  "op_EXTCODEHASH kec = pop (\<lambda>addr. charge GAS_EXTCODEHASH
     (asks (\<lambda>s. case get_account (i_state s) (address_from_u256 addr) of
                  Some acc \<Rightarrow> (if acc_code acc = [] then 0 else kec (acc_code acc))
                | None \<Rightarrow> 0)
       (\<lambda>h. push (u256_of_h256 h) advance)))"

primrec exec_env :: "(bytes \<Rightarrow> H256) \<Rightarrow> env_op \<Rightarrow> step" where
  "exec_env kec OP_ADDRESS = op_ADDRESS"
| "exec_env kec OP_BALANCE = op_BALANCE"
| "exec_env kec OP_ORIGIN = op_ORIGIN"
| "exec_env kec OP_CALLER = op_CALLER"
| "exec_env kec OP_CALLVALUE = op_CALLVALUE"
| "exec_env kec OP_CALLDATALOAD = op_CALLDATALOAD"
| "exec_env kec OP_CALLDATASIZE = op_CALLDATASIZE"
| "exec_env kec OP_CALLDATACOPY = op_CALLDATACOPY"
| "exec_env kec OP_CODESIZE = op_CODESIZE"
| "exec_env kec OP_CODECOPY = op_CODECOPY"
| "exec_env kec OP_GASPRICE = op_GASPRICE"
| "exec_env kec OP_EXTCODESIZE = op_EXTCODESIZE"
| "exec_env kec OP_EXTCODECOPY = op_EXTCODECOPY"
| "exec_env kec OP_RETURNDATASIZE = op_RETURNDATASIZE"
| "exec_env kec OP_RETURNDATACOPY = op_RETURNDATACOPY"
| "exec_env kec OP_EXTCODEHASH = op_EXTCODEHASH kec"

subsection \<open>Block information\<close>

text \<open>
  The comparison short-circuits, so the difference is taken only below the current number.
\<close>

definition block_hash :: "BlockContext \<Rightarrow> U256 \<Rightarrow> ('e, H256) result" where
  "block_hash blk block_number =
     (if block_number \<ge> blk_number blk \<or> blk_number blk - block_number > 256 then Ok 0
      else
        bind_res (as_usize block_number) (\<lambda>index.
          Ok (if index < length (blk_block_hashes blk) then blk_block_hashes blk ! index else 0)))"

definition op_BLOCKHASH :: step where [step_defs]:
  "op_BLOCKHASH = pop (\<lambda>block_number. charge GAS_BLOCKHASH
     (asks (\<lambda>s. block_hash (ctx_block (i_context s)) block_number)
       (\<lambda>r. lift_res r (\<lambda>h. push (u256_of_h256 h) advance))))"

definition op_COINBASE :: step where [step_defs]:
  "op_COINBASE = charge GAS_BASE
     (asks (\<lambda>s. u256_of_address (blk_coinbase (ctx_block (i_context s)))) (\<lambda>v. push v advance))"

definition op_TIMESTAMP :: step where [step_defs]:
  "op_TIMESTAMP = charge GAS_BASE
     (asks (\<lambda>s. blk_timestamp (ctx_block (i_context s))) (\<lambda>v. push v advance))"

definition op_NUMBER :: step where [step_defs]:
  "op_NUMBER = charge GAS_BASE
     (asks (\<lambda>s. blk_number (ctx_block (i_context s))) (\<lambda>v. push v advance))"

definition op_DIFFICULTY :: step where [step_defs]:
  "op_DIFFICULTY = charge GAS_BASE
     (asks (\<lambda>s. blk_difficulty (ctx_block (i_context s))) (\<lambda>v. push v advance))"

definition op_GASLIMIT :: step where [step_defs]:
  "op_GASLIMIT = charge GAS_BASE
     (asks (\<lambda>s. blk_gas_limit (ctx_block (i_context s))) (\<lambda>v. push v advance))"

definition op_CHAINID :: step where [step_defs]:
  "op_CHAINID = charge GAS_CHAINID
     (asks (\<lambda>s. blk_chain_id (ctx_block (i_context s))) (\<lambda>v. push v advance))"

definition op_SELFBALANCE :: step where [step_defs]:
  "op_SELFBALANCE = charge GAS_SELFBALANCE
     (asks (\<lambda>s. balance_of (i_state s) (ctx_address (i_context s))) (\<lambda>v. push v advance))"

definition op_BASEFEE :: step where [step_defs]:
  "op_BASEFEE = charge GAS_BASEFEE
     (asks (\<lambda>s. case blk_base_fee (ctx_block (i_context s)) of Some f \<Rightarrow> f | None \<Rightarrow> 0)
       (\<lambda>v. push v advance))"

text \<open>The catch-all arm of the match: the opcodes without a body only advance.\<close>

definition op_unimplemented :: step where [step_defs]:
  "op_unimplemented = advance"

primrec exec_block :: "block_op \<Rightarrow> step" where
  "exec_block OP_BLOCKHASH = op_BLOCKHASH"
| "exec_block OP_COINBASE = op_COINBASE"
| "exec_block OP_TIMESTAMP = op_TIMESTAMP"
| "exec_block OP_NUMBER = op_NUMBER"
| "exec_block OP_DIFFICULTY = op_DIFFICULTY"
| "exec_block OP_GASLIMIT = op_GASLIMIT"
| "exec_block OP_CHAINID = op_CHAINID"
| "exec_block OP_SELFBALANCE = op_SELFBALANCE"
| "exec_block OP_BASEFEE = op_BASEFEE"
| "exec_block OP_BLOBHASH = op_unimplemented"
| "exec_block OP_BLOBBASEFEE = op_unimplemented"

subsection \<open>Stack, memory, storage and control flow\<close>

definition op_POP :: step where [step_defs]:
  "op_POP = charge GAS_BASE (pop (\<lambda>_. advance))"

definition op_MLOAD :: step where [step_defs]:
  "op_MLOAD = charge GAS_VERYLOW (pop (\<lambda>offset. lift_res (as_usize offset) (\<lambda>off.
     asks (\<lambda>s. memory_get_u256 (i_memory s) off) (\<lambda>r. lift_res r (\<lambda>v. push v advance)))))"

definition op_MSTORE :: step where [step_defs]:
  "op_MSTORE = charge GAS_VERYLOW (pop (\<lambda>offset. pop (\<lambda>v.
     lift_res (as_usize offset) (\<lambda>off. mem_update (\<lambda>m. memory_set_u256 m off v) advance))))"

definition op_MSTORE8 :: step where [step_defs]:
  "op_MSTORE8 = charge GAS_VERYLOW (pop (\<lambda>offset. pop (\<lambda>v.
     lift_res (as_usize offset) (\<lambda>off.
     mem_update (\<lambda>m. memory_set_byte m off (u256_byte v 31)) advance))))"

definition op_SLOAD :: step where [step_defs]:
  "op_SLOAD = pop (\<lambda>key. charge GAS_SLOAD
     (asks (\<lambda>s. get_storage (i_state s) (ctx_address (i_context s)) (h256_of_u256 key))
       (\<lambda>v. push (u256_of_h256 v) advance)))"

definition op_SSTORE :: step where [step_defs]:
  "op_SSTORE = unless_static (pop (\<lambda>key. pop (\<lambda>v. charge GAS_SSET
     (store (h256_of_u256 key) (h256_of_u256 v) advance))))"

definition op_JUMP :: step where [step_defs]:
  "op_JUMP = charge GAS_MID (pop (\<lambda>dest. lift_res (as_usize dest) jump))"

definition op_JUMPI :: step where [step_defs]:
  "op_JUMPI = charge GAS_HIGH (pop (\<lambda>dest. pop (\<lambda>cond.
     if cond \<noteq> 0 then lift_res (as_usize dest) jump else advance)))"

definition op_PC :: step where [step_defs]:
  "op_PC = charge GAS_BASE (asks (\<lambda>s. of_nat (i_pc s)) (\<lambda>v. push v advance))"

definition op_MSIZE :: step where [step_defs]:
  "op_MSIZE = charge GAS_BASE
     (asks (\<lambda>s. memory_effective_len (i_memory s)) (\<lambda>v. push v advance))"

definition op_GAS :: step where [step_defs]:
  "op_GAS = charge GAS_BASE (asks (\<lambda>s. ucast (gas_remaining (i_gas s))) (\<lambda>v. push v advance))"

definition op_JUMPDEST :: step where [step_defs]:
  "op_JUMPDEST = charge GAS_JUMPDEST advance"

definition op_PUSH0 :: step where [step_defs]:
  "op_PUSH0 = charge GAS_BASE (push 0 advance)"

primrec exec_flow :: "flow_op \<Rightarrow> step" where
  "exec_flow OP_POP = op_POP"
| "exec_flow OP_MLOAD = op_MLOAD"
| "exec_flow OP_MSTORE = op_MSTORE"
| "exec_flow OP_MSTORE8 = op_MSTORE8"
| "exec_flow OP_SLOAD = op_SLOAD"
| "exec_flow OP_SSTORE = op_SSTORE"
| "exec_flow OP_JUMP = op_JUMP"
| "exec_flow OP_JUMPI = op_JUMPI"
| "exec_flow OP_PC = op_PC"
| "exec_flow OP_MSIZE = op_MSIZE"
| "exec_flow OP_GAS = op_GAS"
| "exec_flow OP_JUMPDEST = op_JUMPDEST"
| "exec_flow OP_TLOAD = op_unimplemented"
| "exec_flow OP_TSTORE = op_unimplemented"
| "exec_flow OP_MCOPY = op_unimplemented"
| "exec_flow OP_PUSH0 = op_PUSH0"

subsection \<open>Push, dup, swap, log\<close>

text \<open>
  \<^verbatim>\<open>PUSHn\<close> reads the bytes that follow it as far as the code goes and right-aligns what it
  finds in 32 bytes.
\<close>

definition op_PUSH :: "nat \<Rightarrow> step" where [step_defs]:
  "op_PUSH n = charge GAS_VERYLOW
     (asks (\<lambda>s. (i_pc s + 1, ctx_code (i_context s))) (\<lambda>(start, code).
        let e = min (start + n) (length code) in
        lift_res (slice code start e) (\<lambda>dat.
        push (from_be (replicate (32 - length dat) 0 @ dat)) (goto e))))"

definition op_DUP :: "nat \<Rightarrow> step" where [step_defs]:
  "op_DUP n = charge GAS_VERYLOW (dup n advance)"

definition op_SWAP :: "nat \<Rightarrow> step" where [step_defs]:
  "op_SWAP n = charge GAS_VERYLOW (swap n advance)"

definition op_LOG :: "nat \<Rightarrow> step" where [step_defs]:
  "op_LOG topic_count = unless_static (pop (\<lambda>offset. pop (\<lambda>sz.
     pops topic_count [] (\<lambda>topics.
     lift_res (log_gas_cost (of_nat topic_count) sz) (\<lambda>cost. charge cost (
     lift_res (as_usize offset) (\<lambda>off. lift_res (as_usize sz) (\<lambda>n.
     mem_get off n (\<lambda>dat. emit_log topics dat advance)))))))))"

primrec log_topic_count :: "log_op \<Rightarrow> nat" where
  "log_topic_count OP_LOG0 = 0"
| "log_topic_count OP_LOG1 = 1"
| "log_topic_count OP_LOG2 = 2"
| "log_topic_count OP_LOG3 = 3"
| "log_topic_count OP_LOG4 = 4"

subsection \<open>System operations\<close>

definition op_RETURN :: step where [step_defs]:
  "op_RETURN = pop (\<lambda>offset. pop (\<lambda>sz.
     lift_res (as_usize offset) (\<lambda>off. lift_res (as_usize sz) (\<lambda>n.
     mem_get off n (\<lambda>dat. finish (result_success dat))))))"

definition op_REVERT :: step where [step_defs]:
  "op_REVERT = pop (\<lambda>offset. pop (\<lambda>sz.
     lift_res (as_usize offset) (\<lambda>off. lift_res (as_usize sz) (\<lambda>n.
     mem_get off n (\<lambda>dat. finish (result_revert dat))))))"

fun exec_sys :: "sys_op \<Rightarrow> step" where
  "exec_sys OP_RETURN = op_RETURN"
| "exec_sys OP_REVERT = op_REVERT"
| "exec_sys _ = op_unimplemented"

subsection \<open>The interpreter loop\<close>

primrec exec_op :: "(bytes \<Rightarrow> H256) \<Rightarrow> Opcode \<Rightarrow> step" where
  "exec_op kec (Arith x) = exec_arith x"
| "exec_op kec (Logic x) = exec_logic x"
| "exec_op kec Keccak = op_KECCAK256 kec"
| "exec_op kec (Env x) = exec_env kec x"
| "exec_op kec (Block x) = exec_block x"
| "exec_op kec (Flow x) = exec_flow x"
| "exec_op kec (Push k) = op_PUSH (unat k + 1)"
| "exec_op kec (Dup k) = op_DUP (unat k)"
| "exec_op kec (Swap k) = op_SWAP (unat k + 1)"
| "exec_op kec (Logs x) = op_LOG (log_topic_count x)"
| "exec_op kec (Sys x) = exec_sys x"

definition execute_opcode :: "(bytes \<Rightarrow> H256) \<Rightarrow> Opcode \<Rightarrow> step" where
  "execute_opcode kec opcode =
     asks (\<lambda>s. stack_require (i_stack s) (stack_inputs opcode)) (\<lambda>r. lift_res r (\<lambda>_.
     asks (\<lambda>s. stack_limit_check (i_stack s) (stack_outputs opcode - stack_inputs opcode))
       (\<lambda>r. lift_res r (\<lambda>_. exec_op kec opcode))))"

fun handle_error :: "Interp \<Rightarrow> EvmError \<Rightarrow> ExecutionResult" where
  "handle_error s OutOfGas = result_halt HaltOutOfGas (gas_limit (i_gas s))"
| "handle_error s StackOverflow = result_halt HaltStackOverflow (gas_used (i_gas s))"
| "handle_error s StackUnderflow = result_halt HaltStackUnderflow (gas_used (i_gas s))"
| "handle_error s (InvalidJump _) = result_halt HaltInvalidJump (gas_used (i_gas s))"
| "handle_error s (InvalidOpcode b) = result_halt (HaltInvalidOpcode b) (gas_used (i_gas s))"
| "handle_error s StaticCallStateModification =
     result_halt HaltStateModificationInStatic (gas_used (i_gas s))"
| "handle_error s _ = result_halt HaltInvalidCode (gas_used (i_gas s))"

text \<open>
  The end of \<^verbatim>\<open>run\<close>: \<^verbatim>\<open>self.result.take().unwrap_or_else(..)\<close>.
\<close>

definition take_result :: "Interp \<Rightarrow> ExecutionResult EvmResult \<times> Interp" where
  "take_result s =
     (Ok (case i_result s of Some r \<Rightarrow> r | None \<Rightarrow> result_success [] (gas_used (i_gas s))),
      s\<lparr>i_result := None\<rparr>)"

text \<open>
  The \<^verbatim>\<open>while\<close> loop of \<^verbatim>\<open>run\<close>.  Each turn uses one unit of fuel and \<open>None\<close> says that the
  loop has not ended within the fuel.
\<close>

fun run :: "(bytes \<Rightarrow> H256) \<Rightarrow> nat \<Rightarrow> Interp \<Rightarrow> (ExecutionResult EvmResult \<times> Interp) option" where
  "run kec 0 s = None"
| "run kec (Suc fuel) s =
     (if i_pc s < length (ctx_code (i_context s)) then
        let opcode_byte = ctx_code (i_context s) ! i_pc s in
        (case from_u8 opcode_byte of
           None \<Rightarrow> Some (Ok (result_halt (HaltInvalidOpcode opcode_byte) (gas_used (i_gas s))), s)
         | Some opcode \<Rightarrow>
             (case execute_opcode kec opcode s of
                (Err e, s') \<Rightarrow> Some (Ok (handle_error s' e), s')
              | (Panic, s') \<Rightarrow> Some (Panic, s')
              | (Ok _, s') \<Rightarrow>
                  (if i_result s' \<noteq> None then Some (take_result s') else run kec fuel s')))
      else Some (take_result s))"

text \<open>\<^verbatim>\<open>Evm::execute\<close>: the interpreter works on the state of the machine, which it keeps.\<close>

definition evm_new :: World where
  "evm_new = Map.empty"

definition evm_execute ::
  "(bytes \<Rightarrow> H256) \<Rightarrow> nat \<Rightarrow> World \<Rightarrow> ExecutionContext \<Rightarrow> (ExecutionResult EvmResult \<times> World) option" where
  "evm_execute kec fuel w ctx =
     map_option (\<lambda>(r, s). (r, i_state s)) (run kec fuel (interpreter_new ctx w))"

end
