(* ===== verification/Evm_Steps.thy ===== *)
theory Evm_Steps
  imports Evm_Interp
begin

text \<open>
  What every opcode of the interpreter keeps.  The locale \<open>step_relation\<close> is the interface
  between the primitive effects of a step (a charge, a stack operation, a write of memory,
  storage, log, program counter or result) and the invariants of a whole run: a reflexive and
  transitive relation that each primitive effect conforms is respected by every opcode, by the
  loop of \<^verbatim>\<open>run\<close> and by \<^verbatim>\<open>Evm::execute\<close>.  Its interpretations are the invariants: the
  bound of the stack, the discipline of the gas meter, the frame of the account state, the
  protection of a static call, the growth of memory and log, and the shape of results.  Its part
  \<open>effect_relation\<close> leaves out the write of storage; a relation that meets it is respected by every
  opcode but \<^verbatim>\<open>SSTORE\<close>, which shows that no other opcode changes the account state.
\<close>

subsection \<open>Steps that respect a relation\<close>

definition conforms :: "(Interp \<Rightarrow> Interp \<Rightarrow> bool) \<Rightarrow> ExecutionContext \<Rightarrow> step \<Rightarrow> bool" where
  "conforms R c k \<longleftrightarrow>
     (\<forall>s r s'. i_context s = c \<longrightarrow> k s = (r, s') \<longrightarrow> R s s' \<and> i_context s' = c)"

lemma conformsI:
  "(\<And>s r s'. i_context s = c \<Longrightarrow> k s = (r, s') \<Longrightarrow> R s s' \<and> i_context s' = c) \<Longrightarrow> conforms R c k"
  unfolding conforms_def by blast

lemma conformsD:
  "conforms R c k \<Longrightarrow> i_context s = c \<Longrightarrow> k s = (r, s') \<Longrightarrow> R s s' \<and> i_context s' = c"
  unfolding conforms_def by blast

lemma conforms_asks [keeps_intros]: "(\<And>x. conforms R c (k x)) \<Longrightarrow> conforms R c (asks f k)"
  unfolding conforms_def asks_def by blast

lemma conforms_if [keeps_intros]:
  "(b \<Longrightarrow> conforms R c k1) \<Longrightarrow> (\<not> b \<Longrightarrow> conforms R c k2) \<Longrightarrow> conforms R c (if b then k1 else k2)"
  by simp

lemma conforms_case_prod [keeps_intros]:
  "(\<And>a b. conforms R c (f a b)) \<Longrightarrow> conforms R c (case p of (a, b) \<Rightarrow> f a b)"
  by (cases p) simp

definition writes_result :: "(u64 \<Rightarrow> ExecutionResult) \<Rightarrow> bool" where
  "writes_result f \<longleftrightarrow> (\<exists>d. f = result_success d \<or> f = result_revert d)"

lemma writes_result_intros [keeps_intros]:
  "writes_result (result_success d)" "writes_result (result_revert d)"
  by (auto simp: writes_result_def)

definition grows :: "(Memory \<Rightarrow> Memory EvmResult) \<Rightarrow> bool" where
  "grows f \<longleftrightarrow> (\<forall>m m'. f m = Ok m' \<longrightarrow> length m \<le> length m')"

lemma grows_memory_set [keeps_intros]: "grows (\<lambda>m. memory_set m off d)"
  unfolding grows_def using memory_set_Ok(1) [of _ off d] by (metis max.cobounded1 order_refl)

lemma grows_memory_set_u256 [keeps_intros]: "grows (\<lambda>m. memory_set_u256 m off v)"
  unfolding memory_set_u256_def by (rule grows_memory_set)

lemma grows_memory_set_byte [keeps_intros]: "grows (\<lambda>m. memory_set_byte m off b)"
  by (auto simp: grows_def memory_set_byte_def dest!: length_resize split: option.splits)

subsection \<open>The interface\<close>

locale effect_relation =
  fixes R :: "Interp \<Rightarrow> Interp \<Rightarrow> bool"
  assumes rel_refl: "R s s"
    and rel_trans: "R s t \<Longrightarrow> R t u \<Longrightarrow> R s u"
    and rel_gas: "gas_consume (i_gas s) amount = Ok g \<Longrightarrow> R s (s\<lparr>i_gas := g\<rparr>)"
    and rel_pop: "stack_pop (i_stack s) = Ok (v, st) \<Longrightarrow> R s (s\<lparr>i_stack := st\<rparr>)"
    and rel_push: "stack_push (i_stack s) v = Ok st \<Longrightarrow> R s (s\<lparr>i_stack := st\<rparr>)"
    and rel_dup: "stack_dup (i_stack s) n = Ok st \<Longrightarrow> R s (s\<lparr>i_stack := st\<rparr>)"
    and rel_swap: "stack_swap (i_stack s) n = Ok st \<Longrightarrow> R s (s\<lparr>i_stack := st\<rparr>)"
    and rel_memory: "length (i_memory s) \<le> length m \<Longrightarrow> R s (s\<lparr>i_memory := m\<rparr>)"
    and rel_log: "\<not> ctx_is_static (i_context s) \<Longrightarrow>
      log_address l = ctx_address (i_context s) \<Longrightarrow> R s (s\<lparr>i_logs := i_logs s @ [l]\<rparr>)"
    and rel_pc: "R s (s\<lparr>i_pc := n\<rparr>)"
    and rel_result: "writes_result f \<Longrightarrow> R s (s\<lparr>i_result := Some (f (gas_used (i_gas s)))\<rparr>)"
    and rel_take: "R s (s\<lparr>i_result := None\<rparr>)"
begin

lemma conforms_effect:
  assumes k: "k = (\<lambda>s. lift_res (r s) (\<lambda>x s. k1 x (u x s)) s)"
    and u: "\<And>s x. i_context s = c \<Longrightarrow> r s = Ok x \<Longrightarrow> R s (u x s) \<and> i_context (u x s) = c"
    and k1: "\<And>x. conforms R c (k1 x)"
  shows "conforms R c k"
proof (rule conformsI)
  fix s out s' assume s: "i_context s = c" and run: "k s = (out, s')"
  show "R s s' \<and> i_context s' = c"
  proof (cases "r s")
    case (Ok x)
    then have run1: "k1 x (u x s) = (out, s')" using run by (simp add: k lift_res_def)
    have u1: "R s (u x s)" "i_context (u x s) = c" using u [OF s Ok] by simp_all
    have "R (u x s) s' \<and> i_context s' = c" by (rule conformsD [OF k1 u1(2) run1])
    with u1(1) show ?thesis by (simp add: rel_trans [of s "u x s" s'])
  qed (use run s rel_refl [of s] in \<open>simp_all add: k lift_res_def\<close>)
qed

lemma conforms_lift_res [keeps_intros]:
  "(\<And>x. conforms R c (k x)) \<Longrightarrow> conforms R c (lift_res r k)"
  by (rule conforms_effect [where r = "\<lambda>_. r" and u = "\<lambda>_ s. s" and ?k1.0 = k])
    (auto simp: rel_refl)

lemma conforms_fail [keeps_intros]: "conforms R c (fail e)"
  by (rule conformsI) (auto simp: fail_def rel_refl)

lemma conforms_charge [keeps_intros]: "conforms R c k \<Longrightarrow> conforms R c (charge n k)"
  by (rule conforms_effect [where r = "\<lambda>s. gas_consume (i_gas s) n"
        and u = "\<lambda>g s. s\<lparr>i_gas := g\<rparr>" and ?k1.0 = "\<lambda>_. k"])
    (auto simp: charge_def intro: rel_gas)

lemma conforms_pop [keeps_intros]: "(\<And>v. conforms R c (k v)) \<Longrightarrow> conforms R c (pop k)"
  by (rule conforms_effect [where r = "\<lambda>s. stack_pop (i_stack s)"
        and u = "\<lambda>x s. s\<lparr>i_stack := snd x\<rparr>" and ?k1.0 = "\<lambda>x. k (fst x)"])
    (auto simp: pop_def case_prod_unfold intro: rel_pop)

lemma conforms_push [keeps_intros]: "conforms R c k \<Longrightarrow> conforms R c (push v k)"
  by (rule conforms_effect [where r = "\<lambda>s. stack_push (i_stack s) v"
        and u = "\<lambda>st s. s\<lparr>i_stack := st\<rparr>" and ?k1.0 = "\<lambda>_. k"])
    (auto simp: push_def intro: rel_push)

lemma conforms_dup [keeps_intros]: "conforms R c k \<Longrightarrow> conforms R c (dup n k)"
  by (rule conforms_effect [where r = "\<lambda>s. stack_dup (i_stack s) n"
        and u = "\<lambda>st s. s\<lparr>i_stack := st\<rparr>" and ?k1.0 = "\<lambda>_. k"])
    (auto simp: dup_def intro: rel_dup)

lemma conforms_swap [keeps_intros]: "conforms R c k \<Longrightarrow> conforms R c (swap n k)"
  by (rule conforms_effect [where r = "\<lambda>s. stack_swap (i_stack s) n"
        and u = "\<lambda>st s. s\<lparr>i_stack := st\<rparr>" and ?k1.0 = "\<lambda>_. k"])
    (auto simp: swap_def intro: rel_swap)

lemma conforms_pops [keeps_intros]:
  "(\<And>ts. conforms R c (k ts)) \<Longrightarrow> conforms R c (pops n ts k)"
  by (induction n arbitrary: ts) (auto intro: conforms_pop)

lemma conforms_mem_get [keeps_intros]:
  "(\<And>d. conforms R c (k d)) \<Longrightarrow> conforms R c (mem_get off n k)"
  by (rule conforms_effect [where r = "\<lambda>s. memory_get (i_memory s) off n"
        and u = "\<lambda>_ s. s" and ?k1.0 = k])
    (auto simp: mem_get_def rel_refl)

lemma conforms_mem_update [keeps_intros]:
  "grows f \<Longrightarrow> conforms R c k \<Longrightarrow> conforms R c (mem_update f k)"
  by (rule conforms_effect [where r = "\<lambda>s. f (i_memory s)"
        and u = "\<lambda>m s. s\<lparr>i_memory := m\<rparr>" and ?k1.0 = "\<lambda>_. k"])
    (auto simp: mem_update_def grows_def intro: rel_memory)

lemma conforms_unless_static [keeps_intros]:
  "(\<not> ctx_is_static c \<Longrightarrow> conforms R c k) \<Longrightarrow> conforms R c (unless_static k)"
  by (rule conformsI, cases "ctx_is_static c")
    (auto simp: unless_static_def rel_refl dest: conformsD)

lemma conforms_emit_log [keeps_intros]:
  "\<not> ctx_is_static c \<Longrightarrow> conforms R c k \<Longrightarrow> conforms R c (emit_log ts d k)"
  by (rule conforms_effect [where r = "\<lambda>_. Ok ()" and ?k1.0 = "\<lambda>_. k"
        and u = "\<lambda>_ s. s\<lparr>i_logs := i_logs s @
          [\<lparr>log_address = ctx_address (i_context s), log_topics = ts, log_data = d\<rparr>]\<rparr>"])
    (auto simp: emit_log_def lift_res_def intro: rel_log)

lemma conforms_finish [keeps_intros]: "writes_result f \<Longrightarrow> conforms R c (finish f)"
  by (rule conformsI) (auto simp: finish_def intro: rel_result)

lemma conforms_pc [keeps_intros]:
  "conforms R c (goto n)" "conforms R c advance" "conforms R c (jump n)"
  by (rule conformsI, auto simp: goto_def advance_def jump_def rel_pc rel_refl split: if_splits)+

text \<open>Every opcode, group by group.\<close>

lemma conforms_exec_arith [keeps_intros]: "conforms R c (exec_arith x)"
  by (cases x) (simp_all only: exec_arith.simps step_defs, (intro keeps_intros)+)

lemma conforms_exec_logic [keeps_intros]: "conforms R c (exec_logic x)"
  by (cases x) (simp_all only: exec_logic.simps step_defs, (intro keeps_intros)+)

lemma conforms_exec_env [keeps_intros]: "conforms R c (exec_env kec x)"
  by (cases x) (simp_all only: exec_env.simps step_defs, (intro keeps_intros)+)

lemma conforms_exec_block [keeps_intros]: "conforms R c (exec_block x)"
  by (cases x) (simp_all only: exec_block.simps step_defs, (intro keeps_intros)+)

lemma conforms_exec_flow_quiet [keeps_intros]: "x \<noteq> OP_SSTORE \<Longrightarrow> conforms R c (exec_flow x)"
  by (cases x) (simp_all only: exec_flow.simps step_defs simp_thms, (intro keeps_intros; assumption?)+)

lemma conforms_exec_sys [keeps_intros]: "conforms R c (exec_sys x)"
  by (cases x) (simp_all only: exec_sys.simps step_defs, (intro keeps_intros)+)

lemma conforms_exec_op_quiet: "op \<noteq> Flow OP_SSTORE \<Longrightarrow> conforms R c (exec_op kec op)"
  by (cases op)
    (simp_all only: exec_op.simps op_KECCAK256_def op_PUSH_def op_DUP_def op_SWAP_def op_LOG_def Let_def
      Opcode.inject, (intro keeps_intros; assumption?)+)

lemma conforms_execute_opcode_quiet: "op \<noteq> Flow OP_SSTORE \<Longrightarrow> conforms R c (execute_opcode kec op)"
  unfolding execute_opcode_def by (intro keeps_intros conforms_exec_op_quiet)

lemma execute_opcode_quiet: "execute_opcode kec op s = (r, s') \<Longrightarrow> op \<noteq> Flow OP_SSTORE \<Longrightarrow> R s s'"
  using conformsD [OF conforms_execute_opcode_quiet refl] by blast

end

text \<open>The relations that a write of storage respects too hold along whole runs.\<close>

locale step_relation = effect_relation +
  assumes rel_store: "\<not> ctx_is_static (i_context s) \<Longrightarrow>
      R s (s\<lparr>i_state := set_storage (i_state s) (ctx_address (i_context s)) key v\<rparr>)"
begin

lemma conforms_store [keeps_intros]:
  "\<not> ctx_is_static c \<Longrightarrow> conforms R c k \<Longrightarrow> conforms R c (store key v k)"
  by (rule conforms_effect [where r = "\<lambda>_. Ok ()" and ?k1.0 = "\<lambda>_. k"
        and u = "\<lambda>_ s. s\<lparr>i_state := set_storage (i_state s) (ctx_address (i_context s)) key v\<rparr>"])
    (auto simp: store_def lift_res_def intro: rel_store)

lemma conforms_exec_op [keeps_intros]: "conforms R c (exec_op kec op)"
proof (cases "op = Flow OP_SSTORE")
  case True
  then show ?thesis
    by (simp only: exec_op.simps exec_flow.simps op_SSTORE_def) (intro keeps_intros; assumption?)+
qed (rule conforms_exec_op_quiet)

lemma conforms_execute_opcode: "conforms R c (execute_opcode kec op)"
  unfolding execute_opcode_def by (intro keeps_intros)

lemma execute_opcode_rel: "execute_opcode kec op s = (r, s') \<Longrightarrow> R s s'"
  using conformsD [OF conforms_execute_opcode refl] by blast

lemma take_result_rel: "take_result s = (r, s') \<Longrightarrow> R s s'"
  by (auto simp: take_result_def rel_take)

text \<open>A run that ends has gone from its first state to its last along the relation.\<close>

lemma run_rel: "run kec fuel s = Some (r, s') \<Longrightarrow> R s s'"
proof (induction kec fuel s rule: run.induct)
  case (1 kec s)
  then show ?case by simp
next
  case (2 kec fuel s)
  show ?case
  proof (cases "i_pc s < length (ctx_code (i_context s))")
    case False
    with "2.prems" show ?thesis by (auto dest: take_result_rel)
  next
    case pc: True
    show ?thesis
    proof (cases "from_u8 (ctx_code (i_context s) ! i_pc s)")
      case None
      with pc "2.prems" show ?thesis by (auto simp: rel_refl)
    next
      case op: (Some op)
      obtain out s1 where step: "execute_opcode kec op s = (out, s1)" by fastforce
      have R1: "R s s1" using step by (rule execute_opcode_rel)
      have "R s1 s'"
        using "2.prems" "2.IH" [OF pc refl op step [symmetric]] pc op step
        by (cases out) (auto simp: Let_def rel_refl dest: take_result_rel split: if_splits)
      with R1 show ?thesis by (rule rel_trans)
    qed
  qed
qed

end

subsection \<open>The invariants of the interpreter\<close>

definition rel_stack :: "Interp \<Rightarrow> Interp \<Rightarrow> bool" where
  "rel_stack s s' \<longleftrightarrow> (length (i_stack s) \<le> STACK_LIMIT \<longrightarrow> length (i_stack s') \<le> STACK_LIMIT)"

definition rel_meter :: "Interp \<Rightarrow> Interp \<Rightarrow> bool" where
  "rel_meter s s' \<longleftrightarrow>
     gas_limit (i_gas s') = gas_limit (i_gas s) \<and>
     gas_used (i_gas s) \<le> gas_used (i_gas s') \<and>
     (gas_used (i_gas s) \<le> gas_limit (i_gas s) \<longrightarrow> gas_used (i_gas s') \<le> gas_limit (i_gas s'))"

definition same_but_storage :: "Account \<Rightarrow> Account \<Rightarrow> bool" where
  "same_but_storage acc acc' \<longleftrightarrow>
     acc_balance acc' = acc_balance acc \<and> acc_nonce acc' = acc_nonce acc \<and>
     acc_code acc' = acc_code acc"

definition rel_frame :: "Interp \<Rightarrow> Interp \<Rightarrow> bool" where
  "rel_frame s s' \<longleftrightarrow>
     i_context s' = i_context s \<and>
     (\<forall>a. a \<noteq> ctx_address (i_context s) \<longrightarrow> i_state s' a = i_state s a) \<and>
     (\<forall>acc. i_state s (ctx_address (i_context s)) = Some acc \<longrightarrow>
        (\<exists>acc'. i_state s' (ctx_address (i_context s)) = Some acc' \<and> same_but_storage acc acc'))"

definition rel_static :: "Interp \<Rightarrow> Interp \<Rightarrow> bool" where
  "rel_static s s' \<longleftrightarrow>
     i_context s' = i_context s \<and>
     (ctx_is_static (i_context s) \<longrightarrow> i_state s' = i_state s \<and> i_logs s' = i_logs s)"

definition rel_growth :: "Interp \<Rightarrow> Interp \<Rightarrow> bool" where
  "rel_growth s s' \<longleftrightarrow>
     i_context s' = i_context s \<and> i_return_data s' = i_return_data s \<and>
     length (i_memory s) \<le> length (i_memory s') \<and>
     (\<exists>ls. i_logs s' = i_logs s @ ls \<and> (\<forall>l\<in>set ls. log_address l = ctx_address (i_context s)))"

definition proper_result :: "u64 \<Rightarrow> ExecutionResult \<Rightarrow> bool" where
  "proper_result used r \<longleftrightarrow>
     res_gas_used r \<le> used \<and> res_logs r = [] \<and> (res_status r = Success \<or> res_status r = Revert)"

definition rel_outcome :: "Interp \<Rightarrow> Interp \<Rightarrow> bool" where
  "rel_outcome s s' \<longleftrightarrow>
     gas_used (i_gas s) \<le> gas_used (i_gas s') \<and>
     (\<forall>r. i_result s' = Some r \<longrightarrow> i_result s = Some r \<or> proper_result (gas_used (i_gas s')) r)"

interpretation stack_inv: step_relation rel_stack
  by unfold_locales
    (auto simp: rel_stack_def stack_push_Ok stack_pop_Ok stack_dup_Ok dest: stack_swap_length)

lemma rel_meter_trans: "rel_meter s t \<Longrightarrow> rel_meter t u \<Longrightarrow> rel_meter s u"
  unfolding rel_meter_def by (elim conjE, intro conjI) (simp, erule (1) order_trans, simp)

interpretation meter_inv: step_relation rel_meter
proof (unfold_locales, goal_cases)
  case (2 s t u)
  then show ?case by (rule rel_meter_trans)
next
  case (3 s amount g)
  from gas_consume_Ok(1,3,4) [OF this] show ?case by (simp add: rel_meter_def)
qed (simp_all add: rel_meter_def)

lemma rel_frame_trans: "rel_frame s t \<Longrightarrow> rel_frame t u \<Longrightarrow> rel_frame s u"
proof -
  assume st: "rel_frame s t" and tu: "rel_frame t u"
  let ?a = "ctx_address (i_context s)"
  have c: "i_context t = i_context s" "i_context u = i_context s"
    using st tu by (simp_all add: rel_frame_def)
  have "i_state u a = i_state s a" if "a \<noteq> ?a" for a
    using st tu that c by (simp add: rel_frame_def)
  moreover have "\<exists>acc'. i_state u ?a = Some acc' \<and> same_but_storage acc acc'"
    if acc: "i_state s ?a = Some acc" for acc
  proof -
    from st acc obtain acc1 where 1: "i_state t ?a = Some acc1" "same_but_storage acc acc1"
      unfolding rel_frame_def by blast
    with tu c obtain acc2 where "i_state u ?a = Some acc2" "same_but_storage acc1 acc2"
      unfolding rel_frame_def by metis
    with 1 show ?thesis by (simp add: same_but_storage_def)
  qed
  ultimately show ?thesis using c by (simp add: rel_frame_def)
qed

lemma rel_frame_store:
  "rel_frame s (s\<lparr>i_state := set_storage (i_state s) (ctx_address (i_context s)) key v\<rparr>)"
  by (auto simp: rel_frame_def same_but_storage_def set_storage_other dest: set_storage_fields)

interpretation frame_inv: step_relation rel_frame
proof (unfold_locales, goal_cases)
  case (2 s t u)
  then show ?case by (rule rel_frame_trans)
next
  case (13 s key v)
  show ?case by (rule rel_frame_store)
qed (simp_all add: rel_frame_def same_but_storage_def)

interpretation static_inv: step_relation rel_static
  by unfold_locales (simp_all add: rel_static_def)

lemma rel_growth_trans:
  assumes "rel_growth s t" and "rel_growth t u"
  shows "rel_growth s u"
proof -
  from assms(1) obtain ls where "i_logs t = i_logs s @ ls"
      "\<forall>l\<in>set ls. log_address l = ctx_address (i_context s)" "i_context t = i_context s"
    by (auto simp: rel_growth_def)
  moreover from assms(2) obtain ls' where "i_logs u = i_logs t @ ls'"
      "\<forall>l\<in>set ls'. log_address l = ctx_address (i_context t)"
    by (auto simp: rel_growth_def)
  ultimately have "i_logs u = i_logs s @ ls @ ls'"
      "\<forall>l\<in>set (ls @ ls'). log_address l = ctx_address (i_context s)"
    by auto
  with assms show ?thesis by (auto simp: rel_growth_def intro: order_trans)
qed

interpretation growth_inv: step_relation rel_growth
proof (unfold_locales, goal_cases)
  case (2 s t u)
  then show ?case by (rule rel_growth_trans)
qed (simp_all add: rel_growth_def)

lemma rel_outcome_trans: "rel_outcome s t \<Longrightarrow> rel_outcome t u \<Longrightarrow> rel_outcome s u"
  by (auto simp: rel_outcome_def proper_result_def intro: order_trans)

interpretation result_inv: step_relation rel_outcome
proof (unfold_locales, goal_cases)
  case (2 s t u)
  then show ?case by (rule rel_outcome_trans)
qed (auto simp: rel_outcome_def proper_result_def writes_result_def gas_consume_Ok(4))

text \<open>No opcode but \<^verbatim>\<open>SSTORE\<close> touches the account state.\<close>

definition rel_quiet :: "Interp \<Rightarrow> Interp \<Rightarrow> bool" where
  "rel_quiet s s' \<longleftrightarrow> i_state s' = i_state s"

interpretation quiet_inv: effect_relation rel_quiet
  by unfold_locales (simp_all add: rel_quiet_def)

lemmas run_invariants = stack_inv.run_rel meter_inv.run_rel frame_inv.run_rel
  static_inv.run_rel growth_inv.run_rel result_inv.run_rel

end
