(* ===== verification/Evm_Safety.thy ===== *)
theory Evm_Safety
  imports Evm_Steps
begin

text \<open>
  Stack discipline and control flow of the opcodes.  \<open>heights h h' k\<close> says that the step \<open>k\<close>,
  begun on a stack of height \<open>h\<close>, raises no stack error and ends, when it succeeds, on a stack
  of height \<open>h'\<close>; it shows that the two checks at the top of \<^verbatim>\<open>execute_opcode\<close> are exact, and
  that the tables of \<^verbatim>\<open>opcodes.rs\<close> tell the true effect of every opcode that has a body.
  \<open>moves k\<close> describes the program counter; from it come the termination of \<^verbatim>\<open>run\<close> and the fuel
  that is enough for it.
\<close>

subsection \<open>Computations that give a value or panic\<close>

lemma conversions_no_err [no_err]:
  "as_usize v \<noteq> Err e" "as_u64 v \<noteq> Err e" "vec_zeros n \<noteq> Err e" "vec_resize xs n \<noteq> Err e"
  "slice xs a b \<noteq> Err e" "sub256 v w \<noteq> Err e"
  by (simp_all add: as_usize_def as_u64_def vec_zeros_def vec_resize_def slice_def sub256_def)

lemma costs_no_err [no_err]:
  "keccak256_gas_cost v \<noteq> Err e" "copy_gas_cost v \<noteq> Err e" "log_gas_cost n v \<noteq> Err e"
  unfolding keccak256_gas_cost_def copy_gas_cost_def log_gas_cost_def Let_def
  by (simp_all add: bind_res_eq_Err no_err)

lemma memory_get_no_err [no_err]: "memory_get m off n \<noteq> Err e"
  by (simp add: memory_get_def Let_def no_err)

lemma memory_get_u256_no_err [no_err]: "memory_get_u256 m off \<noteq> Err e"
  by (simp add: memory_get_u256_def no_err)

lemma get_slice_no_err [no_err]: "get_slice d off n \<noteq> Err e"
  by (simp add: get_slice_def Let_def bind_res_eq_Err no_err)

lemma get_data_no_err [no_err]: "get_data s off n \<noteq> Err e"
  unfolding get_data_def by (rule no_err)

lemma get_code_no_err [no_err]: "get_code s off n \<noteq> Err e"
  unfolding get_code_def by (rule no_err)

lemma arithmetic_no_err [no_err]:
  "sign_extend a b \<noteq> Err e" "arithmetic_shr a b \<noteq> Err e" "block_hash blk n \<noteq> Err e"
  by (simp_all add: sign_extend_def arithmetic_shr_def block_hash_def Let_def bind_res_eq_Err no_err)

definition stack_error :: "EvmError \<Rightarrow> bool" where
  "stack_error e \<longleftrightarrow> e = StackUnderflow \<or> e = StackOverflow"

definition no_stack_error :: "'a EvmResult \<Rightarrow> bool" where
  "no_stack_error r \<longleftrightarrow> (\<forall>e. r = Err e \<longrightarrow> \<not> stack_error e)"

lemma no_stack_errorI: "(\<And>e. r \<noteq> Err e) \<Longrightarrow> no_stack_error r"
  by (simp add: no_stack_error_def)

lemma memory_set_no_stack_error [height_intros]:
  "no_stack_error (memory_set m off d)" "no_stack_error (memory_set_u256 m off v)"
  "no_stack_error (memory_set_byte m off b)"
proof -
  have *: "no_stack_error (bind_res (memory_resize m n) (\<lambda>x. Ok (f x)))"
    for n and f :: "bytes \<Rightarrow> bytes"
    by (rule no_stack_errorI) (simp add: bind_res_eq_Err memory_resize_def no_err)
  then show "no_stack_error (memory_set m off d)" for d
    by (auto simp: memory_set_def no_stack_error_def stack_error_def split: option.splits)
  then show "no_stack_error (memory_set_u256 m off v)" by (simp add: memory_set_u256_def)
  from * show "no_stack_error (memory_set_byte m off b)"
    by (auto simp: memory_set_byte_def no_stack_error_def stack_error_def split: option.splits)
qed

subsection \<open>Stack heights\<close>

definition heights :: "nat \<Rightarrow> nat \<Rightarrow> step \<Rightarrow> bool" where
  "heights h h' k \<longleftrightarrow>
     (\<forall>s r s'. length (i_stack s) = h \<longrightarrow> k s = (r, s') \<longrightarrow>
        no_stack_error r \<and> (r = Ok () \<longrightarrow> length (i_stack s') = h'))"

lemma heightsI:
  "(\<And>s r s'. length (i_stack s) = h \<Longrightarrow> k s = (r, s') \<Longrightarrow>
      no_stack_error r \<and> (r = Ok () \<longrightarrow> length (i_stack s') = h')) \<Longrightarrow> heights h h' k"
  unfolding heights_def by blast

lemma heightsD:
  "heights h h' k \<Longrightarrow> length (i_stack s) = h \<Longrightarrow> k s = (r, s') \<Longrightarrow>
     no_stack_error r \<and> (r = Ok () \<longrightarrow> length (i_stack s') = h')"
  unfolding heights_def by blast

lemma heights_effect:
  assumes k: "k = (\<lambda>s. lift_res (r s) (\<lambda>x s. k1 x (u x s)) s)"
    and r: "\<And>s. length (i_stack s) = h \<Longrightarrow> no_stack_error (r s)"
    and u: "\<And>s x. length (i_stack s) = h \<Longrightarrow> r s = Ok x \<Longrightarrow> length (i_stack (u x s)) = h1"
    and k1: "\<And>x. heights h1 h' (k1 x)"
  shows "heights h h' k"
proof (rule heightsI)
  fix s out s' assume s: "length (i_stack s) = h" and run: "k s = (out, s')"
  show "no_stack_error out \<and> (out = Ok () \<longrightarrow> length (i_stack s') = h')"
  proof (cases "r s")
    case (Ok x)
    then have run1: "k1 x (u x s) = (out, s')" using run by (simp add: k lift_res_def)
    show ?thesis by (rule heightsD [OF k1 u [OF s Ok] run1])
  next
    case (Err e)
    then show ?thesis using run r [OF s] by (auto simp: k lift_res_def no_stack_error_def)
  next
    case Panic
    then show ?thesis using run by (auto simp: k lift_res_def no_stack_error_def)
  qed
qed

lemma heights_asks [height_intros]:
  "(\<And>s. heights h h' (k (f s))) \<Longrightarrow> heights h h' (asks f k)"
  unfolding heights_def asks_def by blast

lemma heights_if [height_intros]:
  "(b \<Longrightarrow> heights h h' k1) \<Longrightarrow> (\<not> b \<Longrightarrow> heights h h' k2) \<Longrightarrow> heights h h' (if b then k1 else k2)"
  by simp

lemma heights_lift_res [height_intros]:
  "(\<And>e. r \<noteq> Err e) \<Longrightarrow> (\<And>x. heights h h' (k x)) \<Longrightarrow> heights h h' (lift_res r k)"
  by (rule heights_effect [where r = "\<lambda>_. r" and u = "\<lambda>_ s. s" and ?k1.0 = k and ?h1.0 = h])
    (auto intro: no_stack_errorI)

lemma heights_charge [height_intros]: "heights h h' k \<Longrightarrow> heights h h' (charge n k)"
  by (rule heights_effect [where r = "\<lambda>s. gas_consume (i_gas s) n" and ?h1.0 = h
        and u = "\<lambda>g s. s\<lparr>i_gas := g\<rparr>" and ?k1.0 = "\<lambda>_. k"])
    (auto simp: charge_def no_stack_error_def stack_error_def gas_consume_fails)

lemma heights_pop [height_intros]:
  "0 < h \<Longrightarrow> (\<And>v. heights (h - 1) h' (k v)) \<Longrightarrow> heights h h' (pop k)"
  by (rule heights_effect [where r = "\<lambda>s. stack_pop (i_stack s)" and ?h1.0 = "h - 1"
        and u = "\<lambda>x s. s\<lparr>i_stack := snd x\<rparr>" and ?k1.0 = "\<lambda>x. k (fst x)"])
    (auto simp: pop_def case_prod_unfold no_stack_error_def stack_pop_Err stack_pop_Ok)

lemma heights_push [height_intros]:
  "h < STACK_LIMIT \<Longrightarrow> heights (Suc h) h' k \<Longrightarrow> heights h h' (push v k)"
  by (rule heights_effect [where r = "\<lambda>s. stack_push (i_stack s) v" and ?h1.0 = "Suc h"
        and u = "\<lambda>st s. s\<lparr>i_stack := st\<rparr>" and ?k1.0 = "\<lambda>_. k"])
    (auto simp: push_def no_stack_error_def stack_push_Err stack_push_Ok)

lemma heights_dup [height_intros]:
  "n < h \<Longrightarrow> h < STACK_LIMIT \<Longrightarrow> heights (Suc h) h' k \<Longrightarrow> heights h h' (dup n k)"
  by (rule heights_effect [where r = "\<lambda>s. stack_dup (i_stack s) n" and ?h1.0 = "Suc h"
        and u = "\<lambda>st s. s\<lparr>i_stack := st\<rparr>" and ?k1.0 = "\<lambda>_. k"])
    (auto simp: dup_def no_stack_error_def stack_dup_Ok stack_dup_def)

lemma heights_swap [height_intros]:
  "n < h \<Longrightarrow> heights h h' k \<Longrightarrow> heights h h' (swap n k)"
  by (rule heights_effect [where r = "\<lambda>s. stack_swap (i_stack s) n" and ?h1.0 = h
        and u = "\<lambda>st s. s\<lparr>i_stack := st\<rparr>" and ?k1.0 = "\<lambda>_. k"])
    (auto simp: swap_def no_stack_error_def stack_swap_def Let_def)

lemma heights_pops [height_intros]:
  "n \<le> h \<Longrightarrow> (\<And>ts. heights (h - n) h' (k ts)) \<Longrightarrow> heights h h' (pops n ts k)"
proof (induction n arbitrary: ts h)
  case (Suc n)
  have "heights (h - 1) h' (pops n us k)" for us
    using Suc.prems by (intro Suc.IH) auto
  then show ?case using Suc.prems(1) by (auto intro: heights_pop)
qed simp

lemma heights_mem_get [height_intros]:
  "(\<And>d. heights h h' (k d)) \<Longrightarrow> heights h h' (mem_get off n k)"
  by (rule heights_effect [where r = "\<lambda>s. memory_get (i_memory s) off n" and ?h1.0 = h
        and u = "\<lambda>_ s. s" and ?k1.0 = k])
    (auto simp: mem_get_def no_err intro: no_stack_errorI)

lemma heights_mem_update [height_intros]:
  "(\<And>m. no_stack_error (f m)) \<Longrightarrow> heights h h' k \<Longrightarrow> heights h h' (mem_update f k)"
  by (rule heights_effect [where r = "\<lambda>s. f (i_memory s)" and ?h1.0 = h
        and u = "\<lambda>m s. s\<lparr>i_memory := m\<rparr>" and ?k1.0 = "\<lambda>_. k"])
    (auto simp: mem_update_def)

lemma heights_fail [height_intros]: "\<not> stack_error e \<Longrightarrow> heights h h' (fail e)"
  by (rule heightsI) (auto simp: fail_def no_stack_error_def)

lemma heights_unless_static [height_intros]: "heights h h' k \<Longrightarrow> heights h h' (unless_static k)"
  by (rule heightsI)
    (auto simp: unless_static_def no_stack_error_def stack_error_def dest: heightsD split: if_splits)

lemma heights_store [height_intros]: "heights h h' k \<Longrightarrow> heights h h' (store key v k)"
  by (rule heightsI) (auto simp: store_def dest: heightsD [rotated 2])

lemma heights_emit_log [height_intros]: "heights h h' k \<Longrightarrow> heights h h' (emit_log ts d k)"
  by (rule heightsI) (auto simp: emit_log_def dest: heightsD [rotated 2])

lemma heights_end [height_intros]:
  "h = h' \<Longrightarrow> heights h h' advance" "h = h' \<Longrightarrow> heights h h' (goto n)"
  "h = h' \<Longrightarrow> heights h h' (finish f)" "h = h' \<Longrightarrow> heights h h' (jump n)"
  by (rule heightsI, auto simp: advance_def goto_def finish_def jump_def no_stack_error_def
      stack_error_def split: if_splits)+

subsection \<open>The tables of the instruction set are exact\<close>

text \<open>The opcodes that have an arm of their own in the match of \<^verbatim>\<open>execute_opcode\<close>.\<close>

fun implemented :: "Opcode \<Rightarrow> bool" where
  "implemented (Block OP_BLOBHASH) = False"
| "implemented (Block OP_BLOBBASEFEE) = False"
| "implemented (Flow OP_TLOAD) = False"
| "implemented (Flow OP_TSTORE) = False"
| "implemented (Flow OP_MCOPY) = False"
| "implemented (Sys x) = (x = OP_RETURN \<or> x = OP_REVERT)"
| "implemented _ = True"

lemma exec_sys_advance: "x \<noteq> OP_RETURN \<Longrightarrow> x \<noteq> OP_REVERT \<Longrightarrow> exec_sys x = advance"
  by (cases x) (simp_all add: op_unimplemented_def)

lemma unimplemented_advance: "\<not> implemented op \<Longrightarrow> exec_op kec op = advance"
  by (cases op rule: implemented.cases)
    (auto simp: op_unimplemented_def exec_sys_advance)

lemma heights_exec_arith:
  "arith_inputs x \<le> h \<Longrightarrow> h \<le> STACK_LIMIT \<Longrightarrow>
     heights h (h - arith_inputs x + (if x = OP_STOP then 0 else 1)) (exec_arith x)"
  by (cases x) (simp_all only: exec_arith.simps step_defs arith_inputs.simps if_True,
      (intro height_intros no_err; simp)+)

lemma heights_exec_logic:
  "logic_inputs x \<le> h \<Longrightarrow> h \<le> STACK_LIMIT \<Longrightarrow>
     heights h (h - logic_inputs x + 1) (exec_logic x)"
  by (cases x) (simp_all only: exec_logic.simps step_defs logic_inputs.simps,
      (intro height_intros no_err; simp)+)

lemma heights_exec_env:
  "env_inputs x \<le> h \<Longrightarrow> h + (env_outputs x - env_inputs x) \<le> STACK_LIMIT \<Longrightarrow>
     heights h (h - env_inputs x + env_outputs x) (exec_env kec x)"
  by (cases x) (simp_all only: exec_env.simps step_defs env_inputs.simps env_outputs.simps,
      (intro height_intros no_err; simp add: stack_error_def no_err bind_res_eq_Err split: option.splits)+)

lemma heights_exec_block:
  "block_inputs x \<le> h \<Longrightarrow> h + (1 - block_inputs x) \<le> STACK_LIMIT \<Longrightarrow>
     implemented (Block x) \<Longrightarrow> heights h (h - block_inputs x + 1) (exec_block x)"
  by (cases x) (simp_all only: exec_block.simps step_defs block_inputs.simps implemented.simps,
      (intro height_intros no_err; simp)+)

lemma heights_exec_flow:
  "flow_inputs x \<le> h \<Longrightarrow> h + (flow_outputs x - flow_inputs x) \<le> STACK_LIMIT \<Longrightarrow>
     implemented (Flow x) \<Longrightarrow> heights h (h - flow_inputs x + flow_outputs x) (exec_flow x)"
  by (cases x) (simp_all only: exec_flow.simps step_defs flow_inputs.simps flow_outputs.simps
      implemented.simps, (intro height_intros no_err; simp)+)

lemma heights_op_LOG:
  "n + 2 \<le> h \<Longrightarrow> heights h (h - (n + 2)) (op_LOG n)"
  unfolding op_LOG_def by (intro height_intros no_err; simp)

lemma heights_op_PUSH: "h < STACK_LIMIT \<Longrightarrow> heights h (h + 1) (op_PUSH n)"
  unfolding op_PUSH_def Let_def case_prod_unfold by (intro height_intros no_err; simp)

lemma heights_exec_sys:
  "implemented (Sys x) \<Longrightarrow> sys_inputs x \<le> h \<Longrightarrow>
     heights h (h - sys_inputs x + sys_outputs x) (exec_sys x)"
  by (cases x) (simp_all only: exec_sys.simps step_defs sys_inputs.simps sys_outputs.simps
      implemented.simps sys_op.distinct simp_thms, (intro height_intros no_err; simp)+)

lemma heights_exec_op:
  assumes "implemented op" and "stack_inputs op \<le> h"
    and "h + (stack_outputs op - stack_inputs op) \<le> STACK_LIMIT"
  shows "heights h (h - stack_inputs op + stack_outputs op) (exec_op kec op)"
proof (cases op)
  case Keccak
  have "heights h (h - 2 + 1) (op_KECCAK256 kec)" if "2 \<le> h" "h \<le> STACK_LIMIT"
    using that unfolding op_KECCAK256_def by (intro height_intros no_err; simp)
  with Keccak assms show ?thesis by simp
next
  case (Dup k)
  have "heights h (h + 1) (op_DUP (unat k))"
    using assms Dup unfolding op_DUP_def by (intro height_intros; simp)
  then show ?thesis using assms Dup by simp
next
  case (Swap k)
  have "heights h h (op_SWAP (unat k + 1))"
    using assms Swap unfolding op_SWAP_def by (intro height_intros; simp)
  moreover have "h - stack_inputs op + stack_outputs op = h" using assms Swap by simp
  ultimately show ?thesis using Swap by (simp only: exec_op.simps)
next
  case (Logs x)
  have "log_inputs x = log_topic_count x + 2" by (cases x) simp_all
  then show ?thesis using assms Logs heights_op_LOG [of "log_topic_count x" h] by simp
next
  case (Push k)
  then show ?thesis using assms heights_op_PUSH [of h "unat k + 1"] by simp
next
  case (Arith x)
  then show ?thesis using assms heights_exec_arith [of x h] by simp
next
  case (Logic x)
  then show ?thesis using assms heights_exec_logic [of x h] by simp
next
  case (Env x)
  then show ?thesis using assms heights_exec_env [of x h kec] by simp
next
  case (Block x)
  then show ?thesis using assms heights_exec_block [of x h] by simp
next
  case (Flow x)
  then show ?thesis using assms heights_exec_flow [of x h] by simp
next
  case (Sys x)
  then show ?thesis using assms heights_exec_sys [of x h] by simp
qed

lemma execute_opcode_cases:
  "execute_opcode kec op s =
     (if length (i_stack s) < stack_inputs op then (Err StackUnderflow, s)
      else if length (i_stack s) + (stack_outputs op - stack_inputs op) > STACK_LIMIT
      then (Err StackOverflow, s)
      else exec_op kec op s)"
  by (simp add: execute_opcode_def asks_def lift_res_def stack_require_def stack_limit_check_def)

lemma exec_op_no_stack_error:
  assumes "stack_inputs op \<le> length (i_stack s)"
    and "length (i_stack s) + (stack_outputs op - stack_inputs op) \<le> STACK_LIMIT"
  shows "no_stack_error (fst (exec_op kec op s))"
proof (cases "implemented op")
  case True
  from heightsD [OF heights_exec_op [OF True assms, of kec] refl]
  show ?thesis by (metis prod.collapse)
next
  case False
  then show ?thesis
    by (simp add: unimplemented_advance advance_def no_stack_error_def)
qed

text \<open>The two checks in front of the match are the only source of stack errors.\<close>

lemma stack_underflow_iff:
  "fst (execute_opcode kec op s) = Err StackUnderflow \<longleftrightarrow> length (i_stack s) < stack_inputs op"
  using exec_op_no_stack_error [of op s kec]
  by (auto simp: execute_opcode_cases no_stack_error_def stack_error_def not_less)

lemma stack_overflow_iff:
  "fst (execute_opcode kec op s) = Err StackOverflow \<longleftrightarrow>
     stack_inputs op \<le> length (i_stack s) \<and>
     length (i_stack s) + (stack_outputs op - stack_inputs op) > STACK_LIMIT"
  using exec_op_no_stack_error [of op s kec]
  by (auto simp: execute_opcode_cases no_stack_error_def stack_error_def not_less)

lemma execute_opcode_effect:
  assumes "implemented op" and "execute_opcode kec op s = (Ok (), s')"
  shows "length (i_stack s') + stack_inputs op = length (i_stack s) + stack_outputs op"
proof -
  let ?h = "length (i_stack s)"
  have h: "stack_inputs op \<le> ?h" "?h + (stack_outputs op - stack_inputs op) \<le> STACK_LIMIT"
    and run: "exec_op kec op s = (Ok (), s')"
    using assms(2) by (auto simp: execute_opcode_cases split: if_splits)
  from heightsD [OF heights_exec_op [OF assms(1) h, of kec] refl run] h
  show ?thesis by simp
qed

subsection \<open>The program counter\<close>

definition moves :: "step \<Rightarrow> bool" where
  "moves k \<longleftrightarrow>
     (\<forall>s s'. k s = (Ok (), s') \<longrightarrow>
        i_pc s' = i_pc s + 1 \<or> i_pc s' = i_pc s \<and> i_result s' \<noteq> None)"

lemma movesI:
  "(\<And>s s'. k s = (Ok (), s') \<Longrightarrow>
      i_pc s' = i_pc s + 1 \<or> i_pc s' = i_pc s \<and> i_result s' \<noteq> None) \<Longrightarrow> moves k"
  unfolding moves_def by blast

lemma movesD:
  "moves k \<Longrightarrow> k s = (Ok (), s') \<Longrightarrow>
     i_pc s' = i_pc s + 1 \<or> i_pc s' = i_pc s \<and> i_result s' \<noteq> None"
  unfolding moves_def by blast

lemma moves_effect:
  assumes k: "k = (\<lambda>s. lift_res (r s) (\<lambda>x s. k1 x (u x s)) s)"
    and u: "\<And>s x. i_pc (u x s) = i_pc s" and k1: "\<And>x. moves (k1 x)"
  shows "moves k"
proof (rule movesI)
  fix s s' assume run: "k s = (Ok (), s')"
  then obtain x where "r s = Ok x" and "k1 x (u x s) = (Ok (), s')"
    by (auto simp: k lift_res_def split: result.splits)
  from movesD [OF k1 this(2)] show "i_pc s' = i_pc s + 1 \<or> i_pc s' = i_pc s \<and> i_result s' \<noteq> None"
    by (simp add: u)
qed

lemma moves_asks [move_intros]: "(\<And>x. moves (k x)) \<Longrightarrow> moves (asks f k)"
  unfolding moves_def asks_def by blast

lemma moves_if [move_intros]: "(b \<Longrightarrow> moves k1) \<Longrightarrow> (\<not> b \<Longrightarrow> moves k2) \<Longrightarrow> moves (if b then k1 else k2)"
  by simp

lemma moves_lift_res [move_intros]: "(\<And>x. moves (k x)) \<Longrightarrow> moves (lift_res r k)"
  by (rule moves_effect [where r = "\<lambda>_. r" and u = "\<lambda>_ s. s" and ?k1.0 = k]) simp_all

lemma moves_charge [move_intros]: "moves k \<Longrightarrow> moves (charge n k)"
  by (rule moves_effect [where u = "\<lambda>g s. s\<lparr>i_gas := g\<rparr>" and ?k1.0 = "\<lambda>_. k"])
    (simp_all add: charge_def)

lemma moves_pop [move_intros]: "(\<And>v. moves (k v)) \<Longrightarrow> moves (pop k)"
  by (rule moves_effect [where u = "\<lambda>x s. s\<lparr>i_stack := snd x\<rparr>" and ?k1.0 = "\<lambda>x. k (fst x)"])
    (simp_all add: pop_def case_prod_unfold)

lemma moves_push [move_intros]: "moves k \<Longrightarrow> moves (push v k)"
  by (rule moves_effect [where u = "\<lambda>st s. s\<lparr>i_stack := st\<rparr>" and ?k1.0 = "\<lambda>_. k"])
    (simp_all add: push_def)

lemma moves_dup [move_intros]: "moves k \<Longrightarrow> moves (dup n k)"
  by (rule moves_effect [where u = "\<lambda>st s. s\<lparr>i_stack := st\<rparr>" and ?k1.0 = "\<lambda>_. k"])
    (simp_all add: dup_def)

lemma moves_swap [move_intros]: "moves k \<Longrightarrow> moves (swap n k)"
  by (rule moves_effect [where u = "\<lambda>st s. s\<lparr>i_stack := st\<rparr>" and ?k1.0 = "\<lambda>_. k"])
    (simp_all add: swap_def)

lemma moves_pops [move_intros]: "(\<And>ts. moves (k ts)) \<Longrightarrow> moves (pops n ts k)"
  by (induction n arbitrary: ts) (auto intro: moves_pop)

lemma moves_mem_get [move_intros]: "(\<And>d. moves (k d)) \<Longrightarrow> moves (mem_get off n k)"
  by (rule moves_effect [where u = "\<lambda>_ s. s" and ?k1.0 = k]) (simp_all add: mem_get_def)

lemma moves_mem_update [move_intros]: "moves k \<Longrightarrow> moves (mem_update f k)"
  by (rule moves_effect [where u = "\<lambda>m s. s\<lparr>i_memory := m\<rparr>" and ?k1.0 = "\<lambda>_. k"])
    (simp_all add: mem_update_def)

lemma moves_fail [move_intros]: "moves (fail e)"
  by (simp add: moves_def fail_def)

lemma moves_unless_static [move_intros]: "moves k \<Longrightarrow> moves (unless_static k)"
  by (rule movesI) (auto simp: unless_static_def dest: movesD split: if_splits)

lemma moves_store [move_intros]: "moves k \<Longrightarrow> moves (store key v k)"
  by (rule movesI) (auto simp: store_def dest: movesD)

lemma moves_emit_log [move_intros]: "moves k \<Longrightarrow> moves (emit_log ts d k)"
  by (rule movesI) (auto simp: emit_log_def dest: movesD)

lemma moves_end [move_intros]: "moves advance" "moves (finish f)"
  by (simp_all add: moves_def advance_def finish_def)

fun sequential :: "Opcode \<Rightarrow> bool" where
  "sequential (Flow x) = (x \<noteq> OP_JUMP \<and> x \<noteq> OP_JUMPI)"
| "sequential (Push k) = False"
| "sequential _ = True"

lemma moves_exec_arith [move_intros]: "moves (exec_arith x)"
  by (cases x) (simp_all only: exec_arith.simps step_defs, (intro move_intros)+)

lemma moves_exec_logic [move_intros]: "moves (exec_logic x)"
  by (cases x) (simp_all only: exec_logic.simps step_defs, (intro move_intros)+)

lemma moves_exec_env [move_intros]: "moves (exec_env kec x)"
  by (cases x) (simp_all only: exec_env.simps step_defs, (intro move_intros)+)

lemma moves_exec_block [move_intros]: "moves (exec_block x)"
  by (cases x) (simp_all only: exec_block.simps step_defs, (intro move_intros)+)

lemma moves_exec_flow [move_intros]: "x \<noteq> OP_JUMP \<Longrightarrow> x \<noteq> OP_JUMPI \<Longrightarrow> moves (exec_flow x)"
  by (cases x) (simp_all only: exec_flow.simps step_defs simp_thms, (intro move_intros)+)

lemma moves_exec_sys [move_intros]: "moves (exec_sys x)"
  by (cases x) (simp_all only: exec_sys.simps step_defs, (intro move_intros)+)

lemma moves_exec_op: "sequential op \<Longrightarrow> moves (exec_op kec op)"
  by (cases op)
    (simp_all add: op_KECCAK256_def op_DUP_def op_SWAP_def op_LOG_def move_intros)

text \<open>The valid targets of a jump: positions of the code that hold \<^verbatim>\<open>JUMPDEST\<close>.\<close>

definition jump_target :: "bytes \<Rightarrow> nat \<Rightarrow> bool" where
  "jump_target code n \<longleftrightarrow> n < length code \<and> code ! n = as_u8 (Flow OP_JUMPDEST)"

lemma jump_Ok:
  "jump n s = (Ok (), s') \<longleftrightarrow> jump_target (ctx_code (i_context s)) n \<and> s' = s\<lparr>i_pc := n\<rparr>"
  by (auto simp: jump_def jump_target_def)

lemma lift_res_Ok: "lift_res r k s = (Ok (), s') \<longleftrightarrow> (\<exists>x. r = Ok x \<and> k x s = (Ok (), s'))"
  by (auto simp: lift_res_def split: result.splits)

lemma charge_Ok:
  "charge n k s = (Ok (), s') \<longleftrightarrow>
     (\<exists>g. gas_consume (i_gas s) n = Ok g \<and> k (s\<lparr>i_gas := g\<rparr>) = (Ok (), s'))"
  by (simp add: charge_def lift_res_Ok)

lemma pop_Ok:
  "pop k s = (Ok (), s') \<longleftrightarrow>
     (\<exists>v st. i_stack s = st @ [v] \<and> k v (s\<lparr>i_stack := st\<rparr>) = (Ok (), s'))"
  by (auto simp: pop_def lift_res_Ok stack_pop_Ok)

lemma push_Ok:
  "push v k s = (Ok (), s') \<longleftrightarrow>
     length (i_stack s) < STACK_LIMIT \<and> k (s\<lparr>i_stack := i_stack s @ [v]\<rparr>) = (Ok (), s')"
  by (auto simp: push_def lift_res_Ok stack_push_Ok)

lemmas step_Ok = lift_res_Ok charge_Ok pop_Ok push_Ok jump_Ok

lemma op_JUMP_Ok:
  assumes "op_JUMP s = (Ok (), s')"
  shows "jump_target (ctx_code (i_context s)) (i_pc s')"
    and "gas_consume (i_gas s) GAS_MID = Ok (i_gas s')"
  using assms by (auto simp: op_JUMP_def step_Ok)

lemma op_JUMPI_Ok:
  assumes "op_JUMPI s = (Ok (), s')"
  shows "i_pc s' = i_pc s + 1 \<or> jump_target (ctx_code (i_context s)) (i_pc s')"
    and "gas_consume (i_gas s) GAS_HIGH = Ok (i_gas s')"
  using assms by (auto simp: op_JUMPI_def step_Ok advance_def split: if_splits)

lemma op_PUSH_Ok:
  assumes "op_PUSH n s = (Ok (), s')"
  shows "i_pc s' = min (i_pc s + 1 + n) (length (ctx_code (i_context s)))"
    and "i_pc s < i_pc s'"
  using assms by (auto simp: op_PUSH_def Let_def asks_def step_Ok goto_def)

lemma exec_op_pc:
  assumes "exec_op kec op s = (Ok (), s')"
  shows "i_pc s' = i_pc s + 1 \<or> i_pc s' = i_pc s \<and> i_result s' \<noteq> None \<or>
    (\<exists>k. op = Push k) \<and> i_pc s < i_pc s' \<and> i_pc s' \<le> length (ctx_code (i_context s)) \<or>
    (op = Flow OP_JUMP \<or> op = Flow OP_JUMPI) \<and>
      jump_target (ctx_code (i_context s)) (i_pc s') \<and> gas_consume (i_gas s) (if op = Flow OP_JUMP then GAS_MID else GAS_HIGH) = Ok (i_gas s')"
proof (cases "sequential op")
  case True
  from movesD [OF moves_exec_op [OF True] assms] show ?thesis by blast
next
  case False
  then consider (push) k where "op = Push k" | (jump) "op = Flow OP_JUMP" | (jumpi) "op = Flow OP_JUMPI"
    by (cases op) auto
  then show ?thesis
  proof cases
    case push
    then show ?thesis using op_PUSH_Ok [of "unat k + 1" s s'] assms by simp
  next
    case jump
    then show ?thesis using op_JUMP_Ok [of s s'] assms by simp
  next
    case jumpi
    then show ?thesis using op_JUMPI_Ok [of s s'] assms by auto
  qed
qed

lemma execute_opcode_exec:
  "execute_opcode kec op s = (Ok (), s') \<Longrightarrow> exec_op kec op s = (Ok (), s')"
  by (auto simp: execute_opcode_cases split: if_splits)

lemma execute_opcode_pc_bound:
  assumes "execute_opcode kec op s = (Ok (), s')" and "i_pc s < length (ctx_code (i_context s))"
  shows "i_pc s' \<le> length (ctx_code (i_context s'))"
proof -
  have "i_context s' = i_context s"
    using static_inv.execute_opcode_rel [OF assms(1)] by (simp add: rel_static_def)
  then show ?thesis
    using exec_op_pc [OF execute_opcode_exec [OF assms(1)]] assms(2)
    by (auto simp: jump_target_def)
qed

subsection \<open>Termination\<close>

text \<open>
  A step that does not end the run moves the program counter forward or pays for a jump.  Below
  the largest gas limit a payment is exact, so the pair of remaining gas and remaining code
  decreases, and \<open>run_bound\<close> turns is enough.
\<close>

definition run_bound :: "Interp \<Rightarrow> nat" where
  "run_bound s =
     (unat (gas_limit (i_gas s)) - unat (gas_used (i_gas s))) *
       (length (ctx_code (i_context s)) + 1) +
     (length (ctx_code (i_context s)) - i_pc s) + 1"

lemma step_progress:
  assumes step: "execute_opcode kec op s = (Ok (), s')"
    and limit: "gas_limit (i_gas s) \<noteq> u64_max" and "i_result s' = None"
  shows "i_pc s < i_pc s' \<or>
    unat (gas_used (i_gas s)) < unat (gas_used (i_gas s')) \<and>
    unat (gas_used (i_gas s')) \<le> unat (gas_limit (i_gas s))"
proof -
  have pay: "unat (gas_used (i_gas s)) < unat (gas_used g) \<and>
      unat (gas_used g) \<le> unat (gas_limit (i_gas s))"
    if "gas_consume (i_gas s) n = Ok g" "n = GAS_MID \<or> n = GAS_HIGH" for g n
    using gas_consume_exact [OF that(1) limit] gas_consume_Ok(1,3) [OF that(1)] that(2)
    by (auto simp: gas_price_defs word_le_nat_alt)
  show ?thesis
    using exec_op_pc [OF execute_opcode_exec [OF step]] assms(3) pay by (auto split: if_splits)
qed

lemma run_bound_decreases:
  assumes step: "execute_opcode kec op s = (Ok (), s')"
    and limit: "gas_limit (i_gas s) \<noteq> u64_max" and "i_result s' = None"
    and pc: "i_pc s < length (ctx_code (i_context s))"
  shows "run_bound s' < run_bound s"
proof -
  let ?n = "length (ctx_code (i_context s))"
  let ?rem = "\<lambda>s. unat (gas_limit (i_gas s)) - unat (gas_used (i_gas s))"
  have c: "i_context s' = i_context s"
    using static_inv.execute_opcode_rel [OF step] by (simp add: rel_static_def)
  have m: "gas_limit (i_gas s') = gas_limit (i_gas s)" "gas_used (i_gas s) \<le> gas_used (i_gas s')"
    using meter_inv.execute_opcode_rel [OF step] by (simp_all add: rel_meter_def)
  have rem: "?rem s' \<le> ?rem s" using m by (simp add: word_le_nat_alt)
  consider (paid) "?rem s' < ?rem s" | (forward) "i_pc s < i_pc s'"
    using step_progress [OF assms(1-3)] m(1) by fastforce
  then show ?thesis
  proof cases
    case paid
    then have "Suc (?rem s') * (?n + 1) \<le> ?rem s * (?n + 1)" by (intro mult_le_mono1) simp
    then show ?thesis using pc by (simp add: run_bound_def c)
  next
    case forward
    then have "?n - i_pc s' < ?n - i_pc s" using pc by simp
    moreover have "?rem s' * (?n + 1) \<le> ?rem s * (?n + 1)" using rem by (rule mult_le_mono1)
    ultimately show ?thesis unfolding run_bound_def c by linarith
  qed
qed

lemma run_terminates:
  "gas_limit (i_gas s) \<noteq> u64_max \<Longrightarrow> run_bound s \<le> fuel \<Longrightarrow> \<exists>out. run kec fuel s = Some out"
proof (induction fuel arbitrary: s)
  case 0
  then show ?case by (simp add: run_bound_def)
next
  case (Suc fuel)
  show ?case
  proof (cases "i_pc s < length (ctx_code (i_context s))")
    case pc: True
    show ?thesis
    proof (cases "from_u8 (ctx_code (i_context s) ! i_pc s)")
      case op: (Some op)
      obtain r s' where step: "execute_opcode kec op s = (r, s')" by fastforce
      show ?thesis
      proof (cases "r = Ok () \<and> i_result s' = None")
        case True
        then have ok: "execute_opcode kec op s = (Ok (), s')" and none: "i_result s' = None"
          using step by simp_all
        have "gas_limit (i_gas s') \<noteq> u64_max"
          using meter_inv.execute_opcode_rel [OF ok] Suc.prems(1) by (simp add: rel_meter_def)
        moreover have "run_bound s' \<le> fuel"
          using run_bound_decreases [OF ok Suc.prems(1) none pc] Suc.prems(2) by simp
        ultimately have "\<exists>out. run kec fuel s' = Some out" by (rule Suc.IH)
        with pc op ok none show ?thesis by simp
      next
        case False
        with pc op step show ?thesis by (cases r) auto
      qed
    qed (use pc in simp)
  qed simp
qed

end
