(* ===== verification/Evm_Machine.thy ===== *)
theory Evm_Machine
  imports Evm_Safety
begin

text \<open>
  The interpreter as a state machine and the run of a whole call.  \<open>turn\<close> is one round of the
  loop of \<^verbatim>\<open>run\<close> that goes on, \<open>reachable\<close> are the states between rounds, and \<open>machine_inv\<close> is
  what holds of all of them.  The second half is about \<^verbatim>\<open>Evm::execute\<close>: what it returns, what it
  leaves in the state, when it ends.
\<close>

subsection \<open>Rounds of the loop\<close>

inductive turn :: "(bytes \<Rightarrow> H256) \<Rightarrow> Interp \<Rightarrow> Interp \<Rightarrow> bool" for kec where
  turn: "i_pc s < length (ctx_code (i_context s)) \<Longrightarrow>
     from_u8 (ctx_code (i_context s) ! i_pc s) = Some op \<Longrightarrow>
     execute_opcode kec op s = (Ok (), s') \<Longrightarrow> i_result s' = None \<Longrightarrow> turn kec s s'"

inductive reachable :: "(bytes \<Rightarrow> H256) \<Rightarrow> ExecutionContext \<Rightarrow> World \<Rightarrow> Interp \<Rightarrow> bool"
  for kec ctx w where
  start: "reachable kec ctx w (interpreter_new ctx w)"
| round: "reachable kec ctx w s \<Longrightarrow> turn kec s s' \<Longrightarrow> reachable kec ctx w s'"

inductive_cases turnE: "turn kec s s'"

inductive_simps turn_iff: "turn kec s s'"

definition machine_inv :: "ExecutionContext \<Rightarrow> Interp \<Rightarrow> bool" where
  "machine_inv ctx s \<longleftrightarrow>
     i_context s = ctx \<and>
     length (i_stack s) \<le> STACK_LIMIT \<and>
     gas_limit (i_gas s) = ctx_gas_limit ctx \<and>
     gas_used (i_gas s) \<le> ctx_gas_limit ctx \<and>
     i_pc s \<le> length (ctx_code ctx) \<and>
     (\<forall>l\<in>set (i_logs s). log_address l = ctx_address ctx) \<and>
     i_return_data s = [] \<and>
     i_result s = None"

lemma machine_inv_new: "machine_inv ctx (interpreter_new ctx w)"
  by (simp add: machine_inv_def interpreter_new_def stack_new_def gas_new_def)

lemma machine_inv_turn:
  assumes inv: "machine_inv ctx s" and turn: "turn kec s s'"
  shows "machine_inv ctx s'"
proof -
  from turn obtain op where pc: "i_pc s < length (ctx_code (i_context s))"
    and step: "execute_opcode kec op s = (Ok (), s')" and none: "i_result s' = None"
    by (auto elim: turnE)
  note rels = stack_inv.execute_opcode_rel [OF step] meter_inv.execute_opcode_rel [OF step]
    growth_inv.execute_opcode_rel [OF step] execute_opcode_pc_bound [OF step pc]
  show ?thesis
    using inv rels none
    by (auto simp: machine_inv_def rel_stack_def rel_meter_def rel_growth_def)
qed

lemma reachable_inv: "reachable kec ctx w s \<Longrightarrow> machine_inv ctx s"
  by (induction rule: reachable.induct) (auto intro: machine_inv_new machine_inv_turn)

text \<open>
  Where the next round begins: behind the data of a \<^verbatim>\<open>PUSH\<close> or at the end of the code, at the
  \<^verbatim>\<open>JUMPDEST\<close> that a taken jump names, and at the next byte after any other opcode.
\<close>

definition next_pc :: "Opcode \<Rightarrow> Interp \<Rightarrow> nat \<Rightarrow> bool" where
  "next_pc op s n \<longleftrightarrow>
     (let code = ctx_code (i_context s); dest = unat (last (i_stack s)) in
      case op of
        Push k \<Rightarrow> n = min (i_pc s + 1 + (unat k + 1)) (length code)
      | Flow OP_JUMP \<Rightarrow> n = dest \<and> jump_target code dest
      | Flow OP_JUMPI \<Rightarrow>
          (if last (butlast (i_stack s)) \<noteq> 0 then n = dest \<and> jump_target code dest else n = i_pc s + 1)
      | _ \<Rightarrow> n = i_pc s + 1)"

lemma next_pc_sequential: "sequential op \<Longrightarrow> next_pc op s n \<longleftrightarrow> n = i_pc s + 1"
  by (auto simp: next_pc_def Let_def split: Opcode.splits flow_op.splits)

lemma exec_op_next_pc:
  assumes step: "exec_op kec op s = (Ok (), s')" and "i_result s' = None"
  shows "next_pc op s (i_pc s')"
proof (cases "sequential op")
  case True
  then show ?thesis
    using movesD [OF moves_exec_op [OF True] step] assms(2) by (auto simp: next_pc_sequential)
next
  case False
  then consider (push) k where "op = Push k" | (jump) "op = Flow OP_JUMP" | (jumpi) "op = Flow OP_JUMPI"
    by (cases op) auto
  then show ?thesis
  proof cases
    case push
    then show ?thesis using op_PUSH_Ok(1) [of "unat k + 1" s s'] step by (simp add: next_pc_def)
  next
    case jump
    then show ?thesis
      using step by (auto simp: next_pc_def op_JUMP_def step_Ok as_usize_def split: if_splits)
  next
    case jumpi
    then obtain g st c d where s: "i_stack s = st @ [c, d]"
      and run: "(if c \<noteq> 0 then lift_res (as_usize d) jump else advance) (s\<lparr>i_gas := g, i_stack := st\<rparr>) = (Ok (), s')"
      using step by (auto simp: op_JUMPI_def step_Ok)
    show ?thesis
    proof (cases "c = 0")
      case True
      then show ?thesis using run jumpi by (auto simp: next_pc_def s advance_def butlast_append)
    next
      case False
      then show ?thesis
        using run jumpi by (auto simp: next_pc_def s step_Ok as_usize_def butlast_append split: if_splits)
    qed
  qed
qed

lemma turn_next_pc:
  "turn kec s s' \<Longrightarrow> \<exists>op. from_u8 (ctx_code (i_context s) ! i_pc s) = Some op \<and> next_pc op s (i_pc s')"
  by (auto elim!: turnE dest: execute_opcode_exec exec_op_next_pc)

text \<open>The writes of storage on the way to a state, in the order they were made.\<close>

definition written :: "Interp \<Rightarrow> (H256 \<times> H256) list" where
  "written s =
     (if from_u8 (ctx_code (i_context s) ! i_pc s) = Some (Flow OP_SSTORE)
      then [(last (i_stack s), last (butlast (i_stack s)))] else [])"

inductive performs ::
  "(bytes \<Rightarrow> H256) \<Rightarrow> ExecutionContext \<Rightarrow> World \<Rightarrow> Interp \<Rightarrow> (H256 \<times> H256) list \<Rightarrow> bool"
  for kec ctx w where
  start: "performs kec ctx w (interpreter_new ctx w) []"
| round: "performs kec ctx w s ws \<Longrightarrow> turn kec s s' \<Longrightarrow> performs kec ctx w s' (ws @ written s)"

definition apply_writes :: "Address \<Rightarrow> World \<Rightarrow> (H256 \<times> H256) list \<Rightarrow> World" where
  "apply_writes a w ws = foldl (\<lambda>w (k, v). set_storage w a k v) w ws"

lemma reachable_performs: "reachable kec ctx w s \<Longrightarrow> \<exists>ws. performs kec ctx w s ws"
  by (induction rule: reachable.induct) (blast intro: performs.intros)+

lemma performs_reachable: "performs kec ctx w s ws \<Longrightarrow> reachable kec ctx w s"
  by (induction rule: performs.induct) (blast intro: reachable.intros)+

lemma SSTORE_state:
  assumes "execute_opcode kec (Flow OP_SSTORE) s = (r, s')"
  shows "r = Ok () \<Longrightarrow> i_state s' = set_storage (i_state s) (ctx_address (i_context s))
      (last (i_stack s)) (last (butlast (i_stack s)))"
    and "r \<noteq> Ok () \<Longrightarrow> i_state s' = i_state s"
    and "i_result s' = i_result s"
  using assms
  by (auto simp: execute_opcode_cases op_SSTORE_def unless_static_def combinator_defs stack_pop_def
      split: if_splits result.splits)

lemma turn_state:
  assumes "turn kec s s'"
  shows "i_state s' = apply_writes (ctx_address (i_context s)) (i_state s) (written s)"
proof -
  from assms obtain op where op: "from_u8 (ctx_code (i_context s) ! i_pc s) = Some op"
    "execute_opcode kec op s = (Ok (), s')" by (auto elim: turnE)
  show ?thesis
  proof (cases "op = Flow OP_SSTORE")
    case True
    then show ?thesis using op SSTORE_state(1) [of kec s "Ok ()" s'] by (simp add: written_def apply_writes_def)
  next
    case False
    then show ?thesis
      using op quiet_inv.execute_opcode_quiet [OF op(2)] by (simp add: written_def apply_writes_def rel_quiet_def)
  qed
qed

lemma performs_state:
  "performs kec ctx w s ws \<Longrightarrow> i_state s = apply_writes (ctx_address ctx) w ws"
proof (induction rule: performs.induct)
  case start
  then show ?case by (simp add: apply_writes_def interpreter_new_def)
next
  case (round s ws s')
  have "i_context s = ctx"
    using reachable_inv [OF performs_reachable [OF round.hyps(1)]] by (simp add: machine_inv_def)
  then show ?case using turn_state [OF round.hyps(2)] round.IH by (simp add: apply_writes_def)
qed

subsection \<open>The loop and its fuel\<close>

lemma run_Suc_turn:
  "run kec (Suc fuel) s =
     (if i_pc s < length (ctx_code (i_context s)) then
        (case from_u8 (ctx_code (i_context s) ! i_pc s) of
           None \<Rightarrow> Some (Ok (result_halt (HaltInvalidOpcode (ctx_code (i_context s) ! i_pc s))
                              (gas_used (i_gas s))), s)
         | Some op \<Rightarrow>
             (case execute_opcode kec op s of (r, s') \<Rightarrow>
                (case r of Err e \<Rightarrow> Some (Ok (handle_error s' e), s') | Panic \<Rightarrow> Some (Panic, s')
                 | Ok _ \<Rightarrow> if i_result s' \<noteq> None then Some (take_result s') else run kec fuel s')))
      else Some (take_result s))"
  by (auto simp: Let_def split: option.splits prod.splits result.splits)

lemma run_mono: "run kec fuel s = Some out \<Longrightarrow> fuel \<le> fuel' \<Longrightarrow> run kec fuel' s = Some out"
proof (induction fuel arbitrary: s fuel')
  case 0
  then show ?case by simp
next
  case (Suc fuel)
  then obtain n where n: "fuel' = Suc n" "fuel \<le> n" by (cases fuel') auto
  show ?case
    using Suc.prems(1) Suc.IH [OF _ n(2)] unfolding n(1) run_Suc_turn
    by (auto split: option.splits prod.splits result.splits if_splits)
qed

text \<open>How a run ends: in a last reachable state, or in the step taken from it.\<close>

lemma run_ends:
  assumes "run kec fuel s = Some (r, s')" and "reachable kec ctx w s"
  obtains (off_the_end) t where "reachable kec ctx w t"
      "i_pc t = length (ctx_code (i_context t))" "(r, s') = take_result t"
  | (invalid) t where "reachable kec ctx w t" "i_pc t < length (ctx_code (i_context t))"
      "from_u8 (ctx_code (i_context t) ! i_pc t) = None" "s' = t"
      "r = Ok (result_halt (HaltInvalidOpcode (ctx_code (i_context t) ! i_pc t)) (gas_used (i_gas t)))"
  | (error) t op e where "reachable kec ctx w t" "execute_opcode kec op t = (Err e, s')"
      "r = Ok (handle_error s' e)" "from_u8 (ctx_code (i_context t) ! i_pc t) = Some op"
  | (panic) t op where "reachable kec ctx w t" "execute_opcode kec op t = (Panic, s')" "r = Panic"
      "from_u8 (ctx_code (i_context t) ! i_pc t) = Some op"
  | (finished) t op t' where "reachable kec ctx w t" "execute_opcode kec op t = (Ok (), t')"
      "i_result t' \<noteq> None" "(r, s') = take_result t'" "from_u8 (ctx_code (i_context t) ! i_pc t) = Some op"
  using assms
proof (induction fuel arbitrary: s thesis)
  case 0
  then show ?case by simp
next
  case (Suc fuel)
  let ?code = "ctx_code (i_context s)"
  have inv: "i_pc s \<le> length ?code"
    using reachable_inv [OF Suc.prems(7)] by (auto simp: machine_inv_def)
  show ?case
  proof (cases "i_pc s < length ?code")
    case False
    then show ?thesis using inv Suc.prems(1,6,7) by simp
  next
    case pc: True
    show ?thesis
    proof (cases "from_u8 (?code ! i_pc s)")
      case None
      with pc show ?thesis using Suc.prems(2,6,7) by (auto simp: Let_def)
    next
      case op: (Some op)
      obtain out t where step: "execute_opcode kec op s = (out, t)" by fastforce
      show ?thesis
      proof (cases "out = Ok () \<and> i_result t = None")
        case True
        then have "reachable kec ctx w t"
          using Suc.prems(7) pc op step by (auto intro: reachable.round turn.turn)
        moreover have "run kec fuel t = Some (r, s')"
          using True Suc.prems(6) pc op step by simp
        ultimately show ?thesis using Suc.IH Suc.prems(1-5) by blast
      next
        case False
        with pc op step show ?thesis using Suc.prems(3-7) by (cases out) auto
      qed
    qed
  qed
qed

subsection \<open>What a run returns\<close>

lemma handle_error_fields:
  "res_gas_used (handle_error s e) = (if e = OutOfGas then gas_limit (i_gas s) else gas_used (i_gas s))"
  "res_logs (handle_error s e) = []" "res_return_data (handle_error s e) = []"
  "\<exists>h. res_status (handle_error s e) = Halt h \<and> (h = HaltOutOfGas \<longleftrightarrow> e = OutOfGas)"
  by (cases "(s, e)" rule: handle_error.cases; simp)+

lemma run_outcome:
  assumes "run kec fuel (interpreter_new ctx w) = Some (Ok r, s')"
  shows "res_gas_used r \<le> ctx_gas_limit ctx \<and> res_logs r = [] \<and>
    (res_status r = Halt HaltOutOfGas \<longrightarrow> res_gas_used r = ctx_gas_limit ctx) \<and>
    (res_status r \<noteq> Success \<and> res_status r \<noteq> Revert \<longrightarrow> res_return_data r = [])"
  using assms reachable.start
proof (cases rule: run_ends)
  case (off_the_end t)
  then show ?thesis
    using reachable_inv [OF off_the_end(1)] by (auto simp: machine_inv_def take_result_def)
next
  case (invalid t)
  then show ?thesis using reachable_inv [OF invalid(1)] by (auto simp: machine_inv_def)
next
  case (error t op e)
  have "gas_limit (i_gas s') = ctx_gas_limit ctx \<and> gas_used (i_gas s') \<le> ctx_gas_limit ctx"
    using reachable_inv [OF error(1)] meter_inv.execute_opcode_rel [OF error(2)]
    by (auto simp: machine_inv_def rel_meter_def)
  then show ?thesis using error(3) handle_error_fields [of s' e] by auto
next
  case (panic t op)
  then show ?thesis by simp
next
  case (finished t op t')
  have "i_result t = None" and "gas_used (i_gas t') \<le> ctx_gas_limit ctx"
    using reachable_inv [OF finished(1)] meter_inv.execute_opcode_rel [OF finished(2)]
    by (auto simp: machine_inv_def rel_meter_def)
  then show ?thesis
    using result_inv.execute_opcode_rel [OF finished(2)] finished(3,4)
    by (auto simp: rel_outcome_def proper_result_def take_result_def)
qed

text \<open>The last state of a run is one from which there is no further round, and its state is kept.\<close>

lemma run_last:
  assumes "run kec fuel (interpreter_new ctx w) = Some (r, s')"
  shows "\<exists>t. reachable kec ctx w t \<and> (\<nexists>u. turn kec t u) \<and> i_state s' = i_state t"
  using assms reachable.start
proof (cases rule: run_ends)
  case (off_the_end t)
  then show ?thesis by (auto simp: take_result_def turn_iff)
next
  case (invalid t)
  then show ?thesis by (auto simp: turn_iff)
next
  case (error t op e)
  then have "i_state s' = i_state t"
    using SSTORE_state(2) [of kec t "Err e" s'] quiet_inv.execute_opcode_quiet [OF error(2)]
    by (cases "op = Flow OP_SSTORE") (auto simp: rel_quiet_def)
  with error show ?thesis by (auto simp: turn_iff)
next
  case (panic t op)
  then have "i_state s' = i_state t"
    using SSTORE_state(2) [of kec t Panic s'] quiet_inv.execute_opcode_quiet [OF panic(2)]
    by (cases "op = Flow OP_SSTORE") (auto simp: rel_quiet_def)
  with panic show ?thesis by (auto simp: turn_iff)
next
  case (finished t op t')
  have "i_result t = None" using reachable_inv [OF finished(1)] by (simp add: machine_inv_def)
  then have "op \<noteq> Flow OP_SSTORE" using SSTORE_state(3) [of kec t _ t'] finished(2,3) by auto
  then have "i_state s' = i_state t"
    using quiet_inv.execute_opcode_quiet [OF finished(2)] finished(4) by (auto simp: rel_quiet_def take_result_def)
  with finished show ?thesis by (auto simp: turn_iff)
qed

subsection \<open>Whole calls\<close>

lemma evm_execute_Some:
  "evm_execute kec fuel w ctx = Some (r, w') \<longleftrightarrow>
     (\<exists>s'. run kec fuel (interpreter_new ctx w) = Some (r, s') \<and> w' = i_state s')"
  by (auto simp: evm_execute_def)

lemma evm_execute_writes:
  assumes "evm_execute kec fuel w ctx = Some (r, w')"
  shows "\<exists>s ws. performs kec ctx w s ws \<and> (\<nexists>u. turn kec s u) \<and> w' = apply_writes (ctx_address ctx) w ws"
  using assms run_last reachable_performs performs_state unfolding evm_execute_Some by metis

lemma new_fields [simp]:
  "i_context (interpreter_new ctx w) = ctx" "i_state (interpreter_new ctx w) = w"
  "i_gas (interpreter_new ctx w) = gas_new (ctx_gas_limit ctx)" "i_pc (interpreter_new ctx w) = 0"
  "i_logs (interpreter_new ctx w) = []" "i_stack (interpreter_new ctx w) = []"
  "i_memory (interpreter_new ctx w) = []"
  by (simp_all add: interpreter_new_def stack_new_def memory_new_def)

definition call_fuel :: "ExecutionContext \<Rightarrow> nat" where
  "call_fuel ctx = unat (ctx_gas_limit ctx) * (length (ctx_code ctx) + 1) + length (ctx_code ctx) + 1"

lemma run_bound_new: "run_bound (interpreter_new ctx w) = call_fuel ctx"
  by (simp add: run_bound_def call_fuel_def gas_new_def)

lemma evm_execute_terminates:
  assumes "ctx_gas_limit ctx \<noteq> u64_max"
  shows "\<exists>out. \<forall>fuel \<ge> call_fuel ctx. evm_execute kec fuel w ctx = Some out"
proof -
  have "\<exists>out. run kec (call_fuel ctx) (interpreter_new ctx w) = Some out"
    using assms by (intro run_terminates) (simp_all add: gas_new_def run_bound_new)
  then obtain r s' where "run kec (call_fuel ctx) (interpreter_new ctx w) = Some (r, s')"
    by fastforce
  then have "evm_execute kec fuel w ctx = Some (r, i_state s')" if "call_fuel ctx \<le> fuel" for fuel
    using run_mono [OF _ that] by (simp add: evm_execute_def)
  then show ?thesis by blast
qed

lemma evm_execute_frame:
  assumes "evm_execute kec fuel w ctx = Some (r, w')"
  shows "a \<noteq> ctx_address ctx \<Longrightarrow> w' a = w a"
    and "w a = Some acc \<Longrightarrow> \<exists>acc'. w' a = Some acc' \<and> same_but_storage acc acc'"
    and "ctx_is_static ctx \<Longrightarrow> w' = w"
proof -
  from assms obtain s' where run: "run kec fuel (interpreter_new ctx w) = Some (r, s')"
    and w': "w' = i_state s'" by (auto simp: evm_execute_Some)
  note f = frame_inv.run_rel [OF run, unfolded rel_frame_def, simplified]
  show other: "w' a = w a" if "a \<noteq> ctx_address ctx" for a using f that by (simp add: w')
  show "\<exists>acc'. w' a = Some acc' \<and> same_but_storage acc acc'" if "w a = Some acc"
    using f that other [of a] by (cases "a = ctx_address ctx") (auto simp: w' same_but_storage_def)
  show "w' = w" if "ctx_is_static ctx"
    using static_inv.run_rel [OF run] that by (simp add: w' rel_static_def)
qed

subsection \<open>A call that never ends\<close>

text \<open>
  At the largest gas limit the meter saturates and no charge is ever refused, so a loop of
  \<^verbatim>\<open>JUMPDEST; PUSH1 0; JUMP\<close> goes on for ever.
\<close>

definition loop_code :: bytes where
  "loop_code = [0x5b, 0x60, 0x00, 0x56]"

lemma gas_consume_unlimited:
  "gas_limit g = u64_max \<Longrightarrow> gas_consume g n = Ok (g\<lparr>gas_used := saturating_add64 (gas_used g) n\<rparr>)"
  by (simp add: gas_consume_def Let_def)

definition looping :: "Interp \<Rightarrow> bool" where
  "looping s \<longleftrightarrow>
     ctx_code (i_context s) = loop_code \<and> gas_limit (i_gas s) = u64_max \<and> i_result s = None \<and>
     ((i_pc s = 0 \<or> i_pc s = 1) \<and> i_stack s = [] \<or> i_pc s = 3 \<and> i_stack s = [0])"

lemma looping_step:
  assumes "looping s"
  shows "\<exists>s'. looping s' \<and> run kec (Suc fuel) s = run kec fuel s'"
  using assms [unfolded looping_def] unfolding run_Suc_turn
  by (elim conjE disjE)
    (simp_all add: loop_code_def from_u8_def execute_opcode_cases STACK_LIMIT_def gas_consume_unlimited
      step_defs combinator_defs jump_def stack_push_def stack_pop_def as_usize_def Let_def
      slice_def from_be_def be_nat_replicate_0,
     (rule exI, rule conjI [OF _ refl], simp add: looping_def loop_code_def)+)

lemma looping_never_ends: "looping s \<Longrightarrow> run kec fuel s = None"
proof (induction fuel arbitrary: s)
  case (Suc fuel)
  then show ?case using looping_step by metis
qed simp

end
