(* ===== verification/Evm_Properties.thy ===== *)
theory Evm_Properties
  imports Evm_Machine
begin

text \<open>
  The properties of the virtual machine, each a short consequence of the component lemmas, with
  the concrete inputs that show their hypotheses can be met.
\<close>

subsection \<open>Functional lemmas of single opcodes\<close>

lemma execute_opcode_Ok:
  "execute_opcode kec op s = (Ok (), s') \<longleftrightarrow>
     stack_inputs op \<le> length (i_stack s) \<and>
     length (i_stack s) + (stack_outputs op - stack_inputs op) \<le> STACK_LIMIT \<and>
     exec_op kec op s = (Ok (), s')"
  by (auto simp: execute_opcode_cases)

lemma execute_binary:
  assumes "exec_op kec op = charge n (pop (\<lambda>b. pop (\<lambda>a. push (f a b) advance)))"
    and "stack_inputs op = 2" and "stack_outputs op = 1"
    and "i_stack s = st @ [a, b]" and "length st + 2 \<le> STACK_LIMIT"
    and "gas_consume (i_gas s) n = Ok g"
  shows "execute_opcode kec op s =
    (Ok (), s\<lparr>i_gas := g, i_stack := st @ [f a b], i_pc := i_pc s + 1\<rparr>)"
proof -
  have "i_stack s = (st @ [a]) @ [b]" using assms(4) by simp
  then show ?thesis using assms(1-3,5,6)
    by (simp add: execute_opcode_cases combinator_defs stack_push_def stack_pop_def butlast_append)
qed

lemma execute_SSTORE_Ok:
  "execute_opcode kec (Flow OP_SSTORE) s = (Ok (), s') \<Longrightarrow> i_stack s = st @ [v, k] \<Longrightarrow>
     i_state s' = set_storage (i_state s) (ctx_address (i_context s)) k v \<and>
     i_context s' = i_context s \<and> i_stack s' = st"
  by (auto simp: execute_opcode_Ok op_SSTORE_def unless_static_def step_Ok store_def advance_def
      split: if_splits)

lemma execute_SLOAD_Ok:
  "execute_opcode kec (Flow OP_SLOAD) s = (Ok (), s') \<Longrightarrow> i_stack s = st @ [k] \<Longrightarrow>
     i_stack s' = st @ [get_storage (i_state s) (ctx_address (i_context s)) k]"
  by (auto simp: execute_opcode_Ok op_SLOAD_def step_Ok asks_def advance_def)

lemma sys_effect: "sys_outputs x - sys_inputs x \<le> Suc 0"
  by (cases x) simp_all

subsection \<open>Sample inputs\<close>

definition sample_block :: BlockContext where
  "sample_block =
     \<lparr>blk_coinbase = 0, blk_number = 1, blk_timestamp = 0, blk_difficulty = 0, blk_gas_limit = 0,
      blk_base_fee = None, blk_chain_id = 1, blk_block_hashes = []\<rparr>"

definition sample_context :: "bytes \<Rightarrow> ExecutionContext" where
  "sample_context code = new_context 1 2 0 code [] 100000 sample_block"

definition sample_interp :: "U256 list \<Rightarrow> Interp" where
  "sample_interp st = (interpreter_new (sample_context []) Map.empty)\<lparr>i_stack := st\<rparr>"

lemmas sample_defs = sample_block_def sample_context_def sample_interp_def new_context_def
  interpreter_new_def

lemmas run_eval = execute_opcode_cases STACK_LIMIT_def step_defs combinator_defs jump_def
  stack_push_def stack_pop_def stack_new_def memory_new_def as_usize_def Let_def slice_def
  from_be_def gas_new_def gas_consume_def saturating_add64_def gas_price_defs from_u8_def
  take_result_def

subsection \<open>Termination\<close>

text \<open>
  C1: a call with any gas limit but the largest one ends, on every code, state and input: some
  outcome is the outcome for every amount of fuel from \<open>call_fuel\<close> on, which is the gas limit
  times the length of the code, plus a little.
\<close>

theorem evm_call_terminates:
  assumes "ctx_gas_limit ctx \<noteq> u64_max"
  shows "\<exists>out. \<forall>fuel \<ge> call_fuel ctx. evm_execute kec fuel w ctx = Some out"
  using assms by (rule evm_execute_terminates)

theorem evm_call_terminates_witness:
  "\<exists>out. \<forall>fuel \<ge> call_fuel (sample_context loop_code).
     evm_execute (\<lambda>_. 0) fuel Map.empty (sample_context loop_code) = Some out"
  by (rule evm_call_terminates) (simp add: sample_defs)

text \<open>
  C21: at the gas limit \<^verbatim>\<open>u64::MAX\<close> the saturating meter never refuses a charge, and the code
  \<^verbatim>\<open>JUMPDEST; PUSH1 0; JUMP\<close> runs for ever: no amount of fuel gives an outcome.
\<close>

theorem evm_call_diverges:
  "evm_execute kec fuel w (new_context caller addr v loop_code dat u64_max block) = None"
proof -
  have "looping (interpreter_new (new_context caller addr v loop_code dat u64_max block) w)"
    by (simp add: looping_def interpreter_new_def new_context_def gas_new_def stack_new_def)
  then show ?thesis by (simp add: evm_execute_def looping_never_ends)
qed

subsection \<open>Invariants of the machine\<close>

text \<open>
  C8: in every state between two rounds of the interpreter loop the stack holds at most 1024
  words, the gas used is at most the limit of the call, the program counter is at most the
  length of the code, every log carries the address of the running contract, and the context
  is the one the call began with.
\<close>

theorem evm_reachable_states:
  assumes "reachable kec ctx w s"
  shows "machine_inv ctx s"
  using assms by (rule reachable_inv)

theorem evm_reachable_states_witness:
  "\<exists>s. turn (\<lambda>_. 0) (interpreter_new (sample_context [0x5b]) Map.empty) s \<and>
     machine_inv (sample_context [0x5b]) s"
proof -
  let ?s = "interpreter_new (sample_context [0x5b]) Map.empty"
  have turn: "turn (\<lambda>_. 0) ?s (?s\<lparr>i_gas := \<lparr>gas_limit = 100000, gas_used = 1\<rparr>, i_pc := 1\<rparr>)"
    by (rule turn.turn [where op = "Flow OP_JUMPDEST"]) (simp_all add: sample_defs run_eval)
  from evm_reachable_states [OF reachable.round [OF reachable.start turn]] turn show ?thesis by blast
qed

text \<open>
  C14: what a call returns: the gas it reports is within the limit and equals the limit when it
  runs out of gas, a call that halts returns no data, and the list of logs is empty (the logs
  the interpreter collects never reach the result).
\<close>

theorem evm_result_bounds:
  assumes "evm_execute kec fuel w ctx = Some (Ok r, w')"
  shows "res_gas_used r \<le> ctx_gas_limit ctx \<and> res_logs r = [] \<and>
    (res_status r = Halt HaltOutOfGas \<longrightarrow> res_gas_used r = ctx_gas_limit ctx) \<and>
    (res_status r \<noteq> Success \<and> res_status r \<noteq> Revert \<longrightarrow> res_return_data r = [])"
  using assms run_outcome by (auto simp: evm_execute_Some)

theorem evm_result_bounds_witness:
  "res_logs (result_success [] 1) = [] \<and> res_gas_used (result_success [] 1) \<le> 100000"
proof -
  have "evm_execute (\<lambda>_. 0) (Suc (Suc 0)) Map.empty (sample_context [0x5b]) =
      Some (Ok (result_success [] 1), Map.empty)"
    by (simp add: evm_execute_def run_eval sample_defs)
  from evm_result_bounds [OF this] show ?thesis by (simp add: sample_defs)
qed

subsection \<open>What a call may change\<close>

text \<open>
  C9: whatever the outcome, a call changes no account but the one it runs in, and of that one
  only the storage: every other account is untouched and an account that exists keeps its
  balance, nonce and code.
\<close>

theorem evm_frame:
  assumes "evm_execute kec fuel w ctx = Some (r, w')"
  shows "(\<forall>a. a \<noteq> ctx_address ctx \<longrightarrow> w' a = w a) \<and>
    (\<forall>a acc. w a = Some acc \<longrightarrow> (\<exists>acc'. w' a = Some acc' \<and>
       acc_balance acc' = acc_balance acc \<and> acc_nonce acc' = acc_nonce acc \<and>
       acc_code acc' = acc_code acc))"
  using evm_execute_frame(1,2) [OF assms] unfolding same_but_storage_def by blast

text \<open>
  C10: a call in a static context leaves the whole account state as it was, on every code and
  whatever the outcome.
\<close>

theorem evm_static_protects:
  assumes "evm_execute kec fuel w ctx = Some (r, w')" and "ctx_is_static ctx"
  shows "w' = w"
  using assms by (rule evm_execute_frame(3))

text \<open>The code stores 1 at slot 0 and reverts.\<close>

definition store_revert_code :: bytes where
  "store_revert_code = [0x60, 0x01, 0x60, 0x00, 0x55, 0x60, 0x00, 0x60, 0x00, 0xfd]"

lemma store_revert_run:
  "evm_execute kec 6 w (new_context caller addr v store_revert_code dat 100000 block) =
     Some (Ok (result_revert [] 20012), set_storage w addr 0 1)"
proof -
  have "evm_execute kec (Suc (Suc (Suc (Suc (Suc (Suc 0)))))) w
      (new_context caller addr v store_revert_code dat 100000 block) =
    Some (Ok (result_revert [] 20012), set_storage w addr 0 1)"
    unfolding evm_execute_def interpreter_new_def new_context_def store_revert_code_def
    by (subst run_Suc_turn, simp del: run.simps add: run_eval memory_get_def)+
  then show ?thesis by (simp add: eval_nat_numeral)
qed

theorem evm_frame_witness:
  "set_storage Map.empty 2 0 1 3 = None"
proof -
  have "evm_execute (\<lambda>_. 0) 6 Map.empty (sample_context store_revert_code) =
      Some (Ok (result_revert [] 20012), set_storage Map.empty 2 0 1)"
    unfolding sample_context_def by (rule store_revert_run)
  from evm_frame [OF this] show ?thesis by (simp add: sample_defs)
qed

theorem evm_static_protects_witness:
  "\<exists>r. evm_execute (\<lambda>_. 0) (Suc (Suc (Suc 0))) Map.empty (with_static (sample_context store_revert_code)) =
     Some (r, Map.empty)"
proof -
  have "\<exists>r w'. evm_execute (\<lambda>_. 0) (Suc (Suc (Suc 0))) Map.empty (with_static (sample_context store_revert_code)) =
      Some (r, w')"
    unfolding evm_execute_def sample_defs with_static_def store_revert_code_def
    by (subst run_Suc_turn, simp del: run.simps add: run_eval memory_get_def)+
  then obtain r w' where
    run: "evm_execute (\<lambda>_. 0) (Suc (Suc (Suc 0))) Map.empty (with_static (sample_context store_revert_code)) =
      Some (r, w')" by blast
  from evm_static_protects [OF this] have "w' = Map.empty" by (simp add: with_static_def)
  with run show ?thesis by blast
qed

text \<open>
  C22: no outcome takes back a write.  Whatever code ran and however the call ended, with success,
  \<^verbatim>\<open>REVERT\<close>, a halt or a panic, the state it leaves is the one it began with, changed by every
  \<^verbatim>\<open>SSTORE\<close> the call executed up to its last round, in the order of their execution.
\<close>

theorem evm_revert_keeps_writes:
  assumes "evm_execute kec fuel w ctx = Some (r, w')"
  shows "\<exists>s ws. performs kec ctx w s ws \<and> (\<nexists>u. turn kec s u) \<and>
    w' = foldl (\<lambda>w (k, v). set_storage w (ctx_address ctx) k v) w ws"
  using evm_execute_writes [OF assms] by (simp add: apply_writes_def)

theorem evm_revert_keeps_writes_witness:
  "\<exists>r w'. evm_execute (\<lambda>_. 0) 6 Map.empty (sample_context store_revert_code) = Some (Ok r, w') \<and>
     res_status r = Revert \<and> get_storage w' 2 0 = 1 \<and>
     (\<exists>s ws. ws \<noteq> [] \<and> performs (\<lambda>_. 0) (sample_context store_revert_code) Map.empty s ws)"
proof -
  have run: "evm_execute (\<lambda>_. 0) 6 Map.empty (sample_context store_revert_code) =
      Some (Ok (result_revert [] 20012), set_storage Map.empty 2 0 1)"
    unfolding sample_context_def by (rule store_revert_run)
  obtain s ws where ws: "performs (\<lambda>_. 0) (sample_context store_revert_code) Map.empty s ws"
    "set_storage Map.empty 2 0 1 =
       foldl (\<lambda>w (k, v). set_storage w (ctx_address (sample_context store_revert_code)) k v) Map.empty ws"
    using evm_revert_keeps_writes [OF run] by blast
  have "set_storage Map.empty 2 0 1 2 \<noteq> None" by (simp add: set_storage_def Let_def)
  then have "set_storage Map.empty 2 0 1 \<noteq> Map.empty" by metis
  with ws have "ws \<noteq> []" by auto
  with ws(1) run show ?thesis by (auto simp: hash_state.load_store)
qed

subsection \<open>The instruction set\<close>

text \<open>
  C11: the two checks in front of the match of \<^verbatim>\<open>execute_opcode\<close> are exact: an opcode fails with a
  stack underflow precisely when the stack holds fewer words than the table of inputs says, and
  with a stack overflow precisely when the words it would add pass the limit of 1024.
\<close>

theorem evm_stack_checks_exact:
  "(fst (execute_opcode kec op s) = Err StackUnderflow \<longleftrightarrow> length (i_stack s) < stack_inputs op) \<and>
   (fst (execute_opcode kec op s) = Err StackOverflow \<longleftrightarrow>
      stack_inputs op \<le> length (i_stack s) \<and>
      length (i_stack s) + (stack_outputs op - stack_inputs op) > STACK_LIMIT)"
  by (simp add: stack_underflow_iff stack_overflow_iff)

text \<open>
  C13: the tables of \<^verbatim>\<open>stack_inputs\<close> and \<^verbatim>\<open>stack_outputs\<close> tell the true effect of every opcode
  that has a body: after a step that succeeds the height of the stack has changed by outputs
  minus inputs.
\<close>

theorem evm_stack_effect_exact:
  assumes "implemented op" and "execute_opcode kec op s = (Ok (), s')"
  shows "length (i_stack s') + stack_inputs op = length (i_stack s) + stack_outputs op"
  using assms by (rule execute_opcode_effect)

theorem evm_stack_effect_exact_witness:
  "length (i_stack (snd (execute_opcode (\<lambda>_. 0) (Arith OP_ADD) (sample_interp [2, 3])))) + 2 = 3"
proof -
  have "\<exists>s'. execute_opcode (\<lambda>_. 0) (Arith OP_ADD) (sample_interp [2, 3]) = (Ok (), s')"
    by (simp add: run_eval sample_defs)
  then obtain s' where s': "execute_opcode (\<lambda>_. 0) (Arith OP_ADD) (sample_interp [2, 3]) = (Ok (), s')"
    by blast
  have "length (i_stack s') = 1"
    using evm_stack_effect_exact [OF _ s'] by (simp add: sample_interp_def)
  then show ?thesis by (simp only: s' snd_conv)
qed

text \<open>
  C23: the opcodes without a body (the calls and creations, \<^verbatim>\<open>SELFDESTRUCT\<close>, \<^verbatim>\<open>INVALID\<close>, the blob and
  transient-storage opcodes, \<^verbatim>\<open>MCOPY\<close>) are charged nothing and touch nothing: with enough words on
  the stack they only advance the program counter.
\<close>

theorem evm_unimplemented_skip:
  assumes "\<not> implemented op" and "stack_inputs op \<le> length (i_stack s)"
    and "length (i_stack s) < STACK_LIMIT"
  shows "execute_opcode kec op s = (Ok (), s\<lparr>i_pc := i_pc s + 1\<rparr>)"
proof -
  have "stack_outputs op - stack_inputs op \<le> 1"
    using assms(1) by (cases op rule: implemented.cases) (auto simp: sys_effect)
  then show ?thesis
    using assms by (simp add: execute_opcode_cases unimplemented_advance advance_def)
qed

theorem evm_unimplemented_skip_witness:
  "execute_opcode (\<lambda>_. 0) (Sys OP_INVALID) (sample_interp []) =
     (Ok (), (sample_interp [])\<lparr>i_pc := 1\<rparr>)"
  using evm_unimplemented_skip [of "Sys OP_INVALID" "sample_interp []" "\<lambda>_. 0"]
  by (simp add: sample_defs STACK_LIMIT_def)

text \<open>
  C15: control flow is exact.  After a round that goes on, the program counter is behind the data of
  the opcode for a \<^verbatim>\<open>PUSH\<close> of \<open>n\<close> bytes (\<open>1 + n\<close> bytes further, or at the end of a code that is cut
  off inside the data); at the position on top of the stack for a jump that is taken, which lies
  inside the code and holds the byte of \<^verbatim>\<open>JUMPDEST\<close>; and at the next byte for every other opcode and
  for a \<^verbatim>\<open>JUMPI\<close> whose condition is zero.
\<close>

theorem evm_jump_targets:
  assumes "turn kec s s'"
  shows "\<exists>op. from_u8 (ctx_code (i_context s) ! i_pc s) = Some op \<and>
    (case op of
       Push k \<Rightarrow> i_pc s' = min (i_pc s + 1 + (unat k + 1)) (length (ctx_code (i_context s)))
     | Flow OP_JUMP \<Rightarrow> i_pc s' = unat (last (i_stack s)) \<and>
         i_pc s' < length (ctx_code (i_context s)) \<and>
         ctx_code (i_context s) ! i_pc s' = as_u8 (Flow OP_JUMPDEST)
     | Flow OP_JUMPI \<Rightarrow>
         (if last (butlast (i_stack s)) \<noteq> 0
          then i_pc s' = unat (last (i_stack s)) \<and> i_pc s' < length (ctx_code (i_context s)) \<and>
            ctx_code (i_context s) ! i_pc s' = as_u8 (Flow OP_JUMPDEST)
          else i_pc s' = i_pc s + 1)
     | _ \<Rightarrow> i_pc s' = i_pc s + 1)"
proof -
  obtain op where op: "from_u8 (ctx_code (i_context s) ! i_pc s) = Some op" "next_pc op s (i_pc s')"
    using turn_next_pc [OF assms] by blast
  show ?thesis
    by (rule exI [of _ op])
      (use op in \<open>auto simp: next_pc_def Let_def jump_target_def split: Opcode.splits flow_op.splits if_splits\<close>)
qed

definition jump_interp :: Interp where
  "jump_interp =
     (interpreter_new (sample_context [0x5b, 0x56]) Map.empty)\<lparr>i_stack := [0], i_pc := 1\<rparr>"

theorem evm_jump_targets_witness:
  "\<exists>s'. turn (\<lambda>_. 0) jump_interp s' \<and> ctx_code (i_context jump_interp) ! i_pc s' = 0x5b"
proof -
  let ?s' = "jump_interp\<lparr>i_gas := \<lparr>gas_limit = 100000, gas_used = 8\<rparr>, i_stack := [], i_pc := 0\<rparr>"
  have turn: "turn (\<lambda>_. 0) jump_interp ?s'"
    by (rule turn.turn [where op = "Flow OP_JUMP"])
      (simp_all add: jump_interp_def sample_defs run_eval)
  from evm_jump_targets [OF turn] have "ctx_code (i_context jump_interp) ! i_pc ?s' = 0x5b"
    by (auto simp: jump_interp_def sample_defs from_u8_def)
  with turn show ?thesis by blast
qed

text \<open>
  C16: the decoder \<^verbatim>\<open>Opcode::from_u8\<close> and the byte values of the enum agree in both directions: a
  byte decodes to an opcode precisely when it is the byte of that opcode.
\<close>

theorem opcode_decoding_exact: "from_u8 b = Some op \<longleftrightarrow> as_u8 op = b"
  using from_u8_as_u8_eq as_u8_from_u8_eq by auto

subsection \<open>Memory and storage\<close>

text \<open>
  C17: memory behaves as a byte array that is zero where it was never written: after a write that
  succeeds every byte in the written range is the one written and every other byte is what it was,
  the length is the old one or just enough, and reading the range back gives what was written.
\<close>

theorem memory_write_read:
  assumes "memory_set m offset src = Ok m'" and "length src \<le> isize_max"
    and "offset + length src \<le> usize_max"
  shows "(\<forall>i. byte_at m' i =
      (if offset \<le> i \<and> i < offset + length src then src ! (i - offset) else byte_at m i)) \<and>
    length m' = (if src = [] then length m else max (length m) (offset + length src)) \<and>
    memory_get m' offset (length src) = (Ok src :: (EvmError, bytes) result)"
  using memory_set_Ok [OF assms(1)] memory_get_set [OF assms] by blast

theorem memory_write_read_witness:
  "memory_get [0, 0, 7, 8] 2 (length [7 :: u8, 8]) = (Ok [7, 8] :: (EvmError, bytes) result)"
proof -
  have "replicate 4 (0 :: u8) = [0, 0, 0, 0]" by (simp add: numeral_eq_Suc)
  then have "memory_set [] 2 [7, 8] = Ok [0, 0, 7, 8]"
    by (simp add: memory_set_def checked_add_usize_def memory_resize_def vec_resize_def
        overwrite_def)
  from memory_write_read [OF this] show ?thesis by simp
qed

text \<open>
  C18: \<^verbatim>\<open>SLOAD\<close> after \<^verbatim>\<open>SSTORE\<close>: once a store of \<open>v\<close> at key \<open>k\<close> has succeeded, a load of any key
  \<open>j\<close> by the same contract on that state pushes \<open>v\<close> if \<open>j = k\<close> and the old value otherwise.
\<close>

theorem sload_after_sstore:
  assumes "execute_opcode kec (Flow OP_SSTORE) s = (Ok (), s1)" and "i_stack s = st @ [v, k]"
    and "i_state t = i_state s1" and "i_context t = i_context s1" and "i_stack t = st' @ [j]"
    and "execute_opcode kec (Flow OP_SLOAD) t = (Ok (), t1)"
  shows "i_stack t1 =
    st' @ [if j = k then v else get_storage (i_state s) (ctx_address (i_context s)) j]"
  using execute_SSTORE_Ok [OF assms(1,2)] execute_SLOAD_Ok [OF assms(6,5)] assms(3,4)
  by (simp add: hash_state.load_store)

theorem sload_after_sstore_witness:
  "\<exists>t1. execute_opcode (\<lambda>_. 0) (Flow OP_SLOAD)
      ((sample_interp [7])\<lparr>i_state := set_storage Map.empty 2 7 9\<rparr>) = (Ok (), t1) \<and> i_stack t1 = [9]"
proof -
  let ?t = "(sample_interp [7])\<lparr>i_state := set_storage Map.empty 2 7 9\<rparr>"
  have "\<exists>s1. execute_opcode (\<lambda>_. 0) (Flow OP_SSTORE) (sample_interp [9, 7]) = (Ok (), s1) \<and>
      i_state s1 = set_storage Map.empty 2 7 9 \<and> i_context s1 = sample_context []"
    by (simp add: run_eval sample_defs)
  then obtain s1 where s1: "execute_opcode (\<lambda>_. 0) (Flow OP_SSTORE) (sample_interp [9, 7]) = (Ok (), s1)"
      "i_state s1 = set_storage Map.empty 2 7 9" "i_context s1 = sample_context []" by blast
  have "\<exists>t1. execute_opcode (\<lambda>_. 0) (Flow OP_SLOAD) ?t = (Ok (), t1)"
    by (simp add: run_eval sample_defs)
  then obtain t1 where t1: "execute_opcode (\<lambda>_. 0) (Flow OP_SLOAD) ?t = (Ok (), t1)" by blast
  have "i_stack t1 = [] @ [if 7 = (7 :: U256) then 9
      else get_storage (i_state (sample_interp [9, 7])) (ctx_address (i_context (sample_interp [9, 7]))) 7]"
    by (rule sload_after_sstore [OF s1(1) _ _ _ _ t1, where st = "[]"])
      (simp_all add: s1 sample_interp_def)
  with t1 show ?thesis by simp
qed

subsection \<open>Arithmetic\<close>

text \<open>
  C19: the signed opcodes compute on two's complement integers.  \<^verbatim>\<open>SDIV\<close> truncates toward zero and
  gives zero on division by zero, \<^verbatim>\<open>SMOD\<close> takes the sign of the dividend, \<^verbatim>\<open>SLT\<close> and \<^verbatim>\<open>SGT\<close> compare the
  signed values; the dividend and the left operand are below the top of the stack.
\<close>

theorem signed_opcodes:
  assumes "i_stack s = st @ [a, b]" and "length st + 2 \<le> STACK_LIMIT"
    and "gas_consume (i_gas s) GAS_LOW = Ok g" and "gas_consume (i_gas s) GAS_VERYLOW = Ok g'"
  shows "execute_opcode kec (Arith OP_SDIV) s =
      (Ok (), s\<lparr>i_gas := g, i_stack := st @ [word_of_int (sint a sdiv sint b)], i_pc := i_pc s + 1\<rparr>) \<and>
    execute_opcode kec (Arith OP_SMOD) s =
      (Ok (), s\<lparr>i_gas := g, i_stack := st @ [if b = 0 then 0 else word_of_int (sint a smod sint b)],
                i_pc := i_pc s + 1\<rparr>) \<and>
    execute_opcode kec (Logic OP_SLT) s =
      (Ok (), s\<lparr>i_gas := g', i_stack := st @ [bool256 (sint a < sint b)], i_pc := i_pc s + 1\<rparr>) \<and>
    execute_opcode kec (Logic OP_SGT) s =
      (Ok (), s\<lparr>i_gas := g', i_stack := st @ [bool256 (sint b < sint a)], i_pc := i_pc s + 1\<rparr>)"
proof (intro conjI)
  have sgt: "(if is_negative x = is_negative y then bool256 (y < x) else if is_negative y then 1 else 0)
      = bool256 (sint y < sint x)" for x y
    using signed_less [of y x] by (simp only: eq_commute [of "is_negative y"])
  show "execute_opcode kec (Arith OP_SDIV) s =
      (Ok (), s\<lparr>i_gas := g, i_stack := st @ [word_of_int (sint a sdiv sint b)], i_pc := i_pc s + 1\<rparr>)"
    by (rule execute_binary [OF _ _ _ assms(1-3)]) (simp_all add: op_SDIV_def signed_div_sdiv)
  show "execute_opcode kec (Arith OP_SMOD) s =
      (Ok (), s\<lparr>i_gas := g, i_stack := st @ [if b = 0 then 0 else word_of_int (sint a smod sint b)],
                i_pc := i_pc s + 1\<rparr>)"
    by (rule execute_binary [OF _ _ _ assms(1-3)])
      (simp_all add: op_SMOD_def signed_mod_cases)
  show "execute_opcode kec (Logic OP_SLT) s =
      (Ok (), s\<lparr>i_gas := g', i_stack := st @ [bool256 (sint a < sint b)], i_pc := i_pc s + 1\<rparr>)"
    by (rule execute_binary [OF _ _ _ assms(1,2,4)]) (simp_all only: exec_op.simps exec_logic.simps
        op_SLT_def signed_less, simp_all)
  show "execute_opcode kec (Logic OP_SGT) s =
      (Ok (), s\<lparr>i_gas := g', i_stack := st @ [bool256 (sint b < sint a)], i_pc := i_pc s + 1\<rparr>)"
    by (rule execute_binary [OF _ _ _ assms(1,2,4)]) (simp_all only: exec_op.simps exec_logic.simps
        op_SGT_def sgt, simp_all)
qed

theorem signed_opcodes_witness:
  "i_stack (snd (execute_opcode (\<lambda>_. 0) (Arith OP_SDIV) (sample_interp [- 7, 2]))) = [- 3]"
proof -
  have st: "i_stack (sample_interp [- 7, 2]) = [] @ [- 7, 2]" by (simp add: sample_interp_def)
  have g: "gas_consume (i_gas (sample_interp [- 7, 2])) GAS_LOW =
        Ok \<lparr>gas_limit = 100000, gas_used = 5\<rparr>"
      "gas_consume (i_gas (sample_interp [- 7, 2])) GAS_VERYLOW =
        Ok \<lparr>gas_limit = 100000, gas_used = 3\<rparr>"
    by (simp_all add: sample_defs run_eval)
  from signed_opcodes [OF st _ g, of "\<lambda>_. 0"] show ?thesis
    by (simp add: STACK_LIMIT_def signed_divide_int_def)
qed

text \<open>
  \<^verbatim>\<open>ADDMOD\<close> and \<^verbatim>\<open>MULMOD\<close> are exact: the sum and the product are taken in 512 bits, so no carry is
  lost before the reduction, and a zero modulus gives zero.
\<close>

theorem modular_arithmetic_exact:
  "unat (add_mod a b n) = (if n = 0 then 0 else (unat a + unat b) mod unat n) \<and>
   unat (mul_mod a b n) = (if n = 0 then 0 else (unat a * unat b) mod unat n)"
  by (simp add: unat_add_mod unat_mul_mod) (simp add: add_mod_def mul_mod_def)

text \<open>
  C20: the word helpers of the interpreter: \<^verbatim>\<open>sign_extend\<close> repeats the sign bit of the byte with
  index \<open>ext\<close> for every index below 31 and returns the word for every index from 32 on, but panics
  at index 31, where it should return the word too; \<^verbatim>\<open>arithmetic_shr\<close> is the arithmetic shift for
  every shift amount.
\<close>

theorem sign_extend_and_shift:
  "(sign_extend ext x :: (EvmError, U256) result) =
     (if unat ext < 31 then Ok (signed_take_bit (8 * unat ext + 7) x)
      else if unat ext = 31 then Panic else Ok x) \<and>
   (arithmetic_shr x ext :: (EvmError, U256) result) = Ok (signed_drop_bit (unat ext) x)"
proof -
  have "sign_extend ext x = (Panic :: (EvmError, U256) result)" if "unat ext = 31"
  proof -
    have "ext = 31" using that by (simp add: word_unat_eq_iff)
    then show ?thesis by (simp only: sign_extend_31)
  qed
  then show ?thesis
    by (simp add: sign_extend_small sign_extend_large arithmetic_shr_signed_drop_bit
        word_le_nat_alt)
qed

end
