(* ===== verification/Rlp_Encode.thy ===== *)
theory Rlp_Encode
  imports Prelude
begin

text \<open>
  The RLP encoder, \<^verbatim>\<open>crates/rlp/src/encode.rs\<close>, with the error types of \<^verbatim>\<open>error.rs\<close> and the
  item type of \<^verbatim>\<open>lib.rs\<close>.  An encoder wraps one growing buffer, so it is that byte list, and an
  operation on it takes the buffer and returns the longer one.  An implementation of the trait
  \<^verbatim>\<open>Encode\<close> for a type \<open>'a\<close> is a function \<open>'a encode\<close>.
\<close>

datatype DecoderError =
    UnexpectedEof
  | InvalidData string
  | IntegerOverflow
  | LeadingZeros
  | ListLengthMismatch nat nat
  | StringLengthMismatch nat nat
  | InvalidListPrefix u8
  | InvalidStringPrefix u8

datatype EncoderError = EncIntegerOverflow | EncInvalidData string

datatype RlpError = DecoderErr DecoderError | EncoderErr EncoderError

datatype RlpItem = RlpString bytes | RlpList "RlpItem list"

definition item_as_bytes :: "RlpItem \<Rightarrow> bytes option" where
  "item_as_bytes item = (case item of RlpString bs \<Rightarrow> Some bs | RlpList _ \<Rightarrow> None)"

definition item_as_list :: "RlpItem \<Rightarrow> RlpItem list option" where
  "item_as_list item = (case item of RlpString _ \<Rightarrow> None | RlpList items \<Rightarrow> Some items)"

type_synonym Encoder = bytes
type_synonym 'a encode = "Encoder \<Rightarrow> 'a \<Rightarrow> Encoder"

definition encoder_new :: Encoder where
  "encoder_new = []"

definition encode_length :: "nat \<Rightarrow> bytes" where
  "encode_length len =
     (if len < 256 then [of_nat len]
      else if len < 65536 then [of_nat (len div 2 ^ 8), of_nat len]
      else if len < 16777216 then [of_nat (len div 2 ^ 16), of_nat (len div 2 ^ 8), of_nat len]
      else [of_nat (len div 2 ^ 24), of_nat (len div 2 ^ 16), of_nat (len div 2 ^ 8), of_nat len])"

definition encode_bytes :: "bytes encode" where
  "encode_bytes buf bs =
     (let len = length bs in
      if len = 0 then buf @ [0x80]
      else if len = 1 \<and> bs ! 0 < 0x80 then buf @ bs
      else if len < 56 then buf @ [0x80 + of_nat len] @ bs
      else
        let len_bytes = encode_length len in
        buf @ [0xb7 + of_nat (length len_bytes)] @ len_bytes @ bs)"

definition encode_list :: "'a encode \<Rightarrow> 'a list encode" where
  "encode_list enc buf items =
     (let list_bytes = foldl enc encoder_new items;
          len = length list_bytes
      in
      if len < 56 then buf @ [0xc0 + of_nat len] @ list_bytes
      else
        let len_bytes = encode_length len in
        buf @ [0xf7 + of_nat (length len_bytes)] @ len_bytes @ list_bytes)"

definition encode_u8 :: "u8 encode" where
  "encode_u8 buf v = (if v = 0 then encode_bytes buf [] else encode_bytes buf [v])"

definition encode_u16 :: "16 word encode" where
  "encode_u16 buf v =
     (if v = 0 then encode_bytes buf []
      else if v < 256 then encode_bytes buf [ucast v]
      else encode_bytes buf (to_be 2 v))"

text \<open>\<^verbatim>\<open>&bytes[first_non_zero..]\<close> of a non-zero integer is \<open>strip_zeros\<close> of its bytes.\<close>

definition encode_u32 :: "u32 encode" where
  "encode_u32 buf v =
     (if v = 0 then encode_bytes buf [] else encode_bytes buf (strip_zeros (to_be 4 v)))"

definition encode_u64 :: "u64 encode" where
  "encode_u64 buf v =
     (if v = 0 then encode_bytes buf [] else encode_bytes buf (strip_zeros (to_be 8 v)))"

definition encode_bool :: "bool encode" where
  "encode_bool buf v = encode_u8 buf (if v then 1 else 0)"

subsection \<open>Implementations of the trait \<^verbatim>\<open>Encode\<close>\<close>

definition encode_option :: "'a encode \<Rightarrow> 'a option encode" where
  "encode_option enc buf v = (case v of Some x \<Rightarrow> enc buf x | None \<Rightarrow> encode_bytes buf [])"

definition encode_address :: "Address encode" where
  "encode_address buf a = encode_bytes buf (to_be 20 a)"

definition encode_h256 :: "H256 encode" where
  "encode_h256 buf h = encode_bytes buf (to_be 32 h)"

definition encode_u256 :: "U256 encode" where
  "encode_u256 buf v =
     (if v = 0 then encode_bytes buf [] else encode_bytes buf (strip_zeros (to_be 32 v)))"

text \<open>A bloom filter is its 256 bytes.\<close>

type_synonym Bloom = "2048 word"

definition encode_bloom :: "Bloom encode" where
  "encode_bloom buf b = encode_bytes buf (to_be 256 b)"

lemma encode_list_cong [fundef_cong]:
  assumes "buf = buf'" and "xs = ys" and "\<And>b x. x \<in> set ys \<Longrightarrow> f b x = g b x"
  shows "encode_list f buf xs = encode_list g buf' ys"
proof -
  have "foldl f b ys = foldl g b ys" for b
    using assms(3) by (intro foldl_cong) auto
  with assms(1,2) show ?thesis by (simp add: encode_list_def)
qed

fun encode_item :: "RlpItem encode" where
  "encode_item buf (RlpString bs) = encode_bytes buf bs"
| "encode_item buf (RlpList items) = encode_list encode_item buf items"

definition rlp_encode :: "'a encode \<Rightarrow> 'a \<Rightarrow> bytes" where
  "rlp_encode enc v = enc encoder_new v"

subsection \<open>Encoding appends\<close>

text \<open>An encoder of the library extends the buffer by bytes that depend on the value only.\<close>

definition appends :: "'a encode \<Rightarrow> bool" where
  "appends enc \<longleftrightarrow> (\<forall>buf x. enc buf x = buf @ enc [] x)"

lemma appendsI: "(\<And>buf x. enc buf x = buf @ enc [] x) \<Longrightarrow> appends enc"
  unfolding appends_def by blast

lemma appendsD: "appends enc \<Longrightarrow> enc buf x = buf @ enc [] x"
  unfolding appends_def by blast

lemma appends_bytes [simp]: "appends encode_bytes"
  by (rule appendsI) (simp add: encode_bytes_def Let_def)

lemma encode_bytes_buf: "buf \<noteq> [] \<Longrightarrow> encode_bytes buf bs = buf @ encode_bytes [] bs"
  using appendsD [OF appends_bytes] .

lemma appends_nonempty: "(\<And>buf x. buf \<noteq> [] \<Longrightarrow> enc buf x = buf @ enc [] x) \<Longrightarrow> appends enc"
  unfolding appends_def by (metis append_Nil)

lemma appends_ints [simp]:
  "appends encode_u8" "appends encode_u16" "appends encode_u32" "appends encode_u64"
  "appends encode_bool" "appends encode_u256"
  by (rule appends_nonempty, simp add: encode_bytes_buf encode_u8_def encode_u16_def encode_u32_def
      encode_u64_def encode_bool_def encode_u256_def)+

lemma appends_hashes [simp]:
  "appends encode_address" "appends encode_h256" "appends encode_bloom"
  by (rule appends_nonempty, simp add: encode_bytes_buf encode_address_def encode_h256_def
      encode_bloom_def)+

lemma appends_option [simp]: "appends enc \<Longrightarrow> appends (encode_option enc)"
  by (rule appends_nonempty)
    (auto simp: encode_option_def encode_bytes_buf split: option.splits intro: appendsD)

lemma appends_list [simp]: "appends (encode_list enc)"
  by (rule appendsI) (simp add: encode_list_def Let_def)

lemma appends_item [simp]: "appends encode_item"
proof (rule appendsI)
  fix buf item
  show "encode_item buf item = buf @ encode_item [] item"
  proof (cases item)
    case (RlpString bs)
    then show ?thesis using appendsD [OF appends_bytes, of buf bs] by simp
  next
    case (RlpList items)
    then show ?thesis using appendsD [OF appends_list [of encode_item], of buf items] by simp
  qed
qed

lemma foldl_appends:
  assumes "\<And>buf x. x \<in> set xs \<Longrightarrow> enc buf x = buf @ enc [] x"
  shows "foldl enc buf xs = buf @ concat (map (enc []) xs)"
  using assms
proof (induction xs arbitrary: buf)
  case (Cons x xs)
  have "foldl enc (enc buf x) xs = enc buf x @ concat (map (enc []) xs)"
    by (rule Cons.IH) (rule Cons.prems, simp)
  moreover have "enc buf x = buf @ enc [] x" by (rule Cons.prems) simp
  ultimately show ?case by (simp only: foldl_Cons append_assoc list.map concat.simps)
qed simp

end
