(* ===== verification/Rlp_Decode.thy ===== *)
theory Rlp_Decode
  imports Rlp_Encode
begin

text \<open>
  The RLP decoder, \<^verbatim>\<open>crates/rlp/src/decode.rs\<close>, and the implementations of the trait \<^verbatim>\<open>Decode\<close> in
  \<^verbatim>\<open>traits.rs\<close>.  A decoder is a record of the data and a position.  A parser returns an outcome and
  the decoder after it, on errors too, as the Rust methods advance the position before they fail.
  Sums of a position and a decoded length wrap at 64 bits, as they do in a release build.

  The loop of \<^verbatim>\<open>decode_list\<close> and the recursion of \<^verbatim>\<open>decode_item\<close> are bounded by fuel: such a
  parser gives \<open>None\<close> when it has not finished within it.
\<close>

record Decoder =
  dec_data :: bytes
  dec_position :: nat

type_synonym 'a parser = "Decoder \<Rightarrow> (RlpError, 'a) result \<times> Decoder"
type_synonym 'a fparser = "Decoder \<Rightarrow> ((RlpError, 'a) result \<times> Decoder) option"

definition decoder_new :: "bytes \<Rightarrow> Decoder" where
  "decoder_new d = \<lparr>dec_data = d, dec_position = 0\<rparr>"

abbreviation dec_err :: "DecoderError \<Rightarrow> (RlpError, 'a) result" where
  "dec_err e \<equiv> Err (DecoderErr e)"

text \<open>The operator \<^verbatim>\<open>?\<close> after a parser, and a conversion of what a parser gives.\<close>

definition and_then :: "'a parser \<Rightarrow> ('a \<Rightarrow> (RlpError, 'b) result) \<Rightarrow> 'b parser" where
  "and_then p f = (\<lambda>d. case p d of (r, d') \<Rightarrow> (bind_res r f, d'))"

text \<open>
  \<^verbatim>\<open>checked_shl(8)\<close> only checks the shift amount: the bits shifted out are lost.
\<close>

fun length_loop :: "nat \<Rightarrow> bytes \<Rightarrow> (RlpError, nat) result" where
  "length_loop len [] = Ok len"
| "length_loop len (b # bs) =
     (case checked_add_usize (wrap64 (len * 2 ^ 8)) (unat b) of
        Some l \<Rightarrow> length_loop l bs
      | None \<Rightarrow> dec_err IntegerOverflow)"

definition decode_length :: "bytes \<Rightarrow> (RlpError, nat) result" where
  "decode_length bs =
     (if bs = [] then dec_err (InvalidData ''Empty length bytes'')
      else if bs ! 0 = 0 then dec_err LeadingZeros
      else length_loop 0 bs)"

definition decode_header :: "Decoder \<Rightarrow> (RlpError, nat \<times> nat \<times> bool) result" where
  "decode_header d =
     (let pos = dec_position d in
      if pos \<ge> length (dec_data d) then dec_err UnexpectedEof
      else
        let prefix = dec_data d ! pos in
        if prefix \<le> 0x7f then Ok (0, 1, True)
        else if prefix = 0x80 then Ok (1, 0, True)
        else if prefix \<le> 0xb7 then Ok (1, unat (prefix - 0x80), True)
        else if prefix \<le> 0xbf then
          let len_of_len = unat (prefix - 0xb7) in
          if pos + 1 + len_of_len > length (dec_data d) then dec_err UnexpectedEof
          else bind_res (slice (dec_data d) (pos + 1) (pos + 1 + len_of_len)) (\<lambda>bs.
               bind_res (decode_length bs) (\<lambda>len. Ok (1 + len_of_len, len, True)))
        else if prefix = 0xc0 then Ok (1, 0, False)
        else if prefix \<le> 0xf7 then Ok (1, unat (prefix - 0xc0), False)
        else
          let len_of_len = unat (prefix - 0xf7) in
          if pos + 1 + len_of_len > length (dec_data d) then dec_err UnexpectedEof
          else bind_res (slice (dec_data d) (pos + 1) (pos + 1 + len_of_len)) (\<lambda>bs.
               bind_res (decode_length bs) (\<lambda>len. Ok (1 + len_of_len, len, False))))"

definition decode_bytes :: "bytes parser" where
  "decode_bytes d =
     (case decode_header d of
        Err e \<Rightarrow> (Err e, d)
      | Panic \<Rightarrow> (Panic, d)
      | Ok (offset, len, is_data) \<Rightarrow>
          if \<not> is_data then (dec_err (InvalidData ''Expected data, got list''), d)
          else
            let d1 = d\<lparr>dec_position := dec_position d + offset\<rparr>;
                e = wrap64 (dec_position d1 + len)
            in
            if e > length (dec_data d) then (dec_err UnexpectedEof, d1)
            else
              (case slice (dec_data d) (dec_position d1) e of
                 Ok bs \<Rightarrow> (Ok bs, d1\<lparr>dec_position := e\<rparr>)
               | Err er \<Rightarrow> (Err er, d1)
               | Panic \<Rightarrow> (Panic, d1)))"

text \<open>The loop \<^verbatim>\<open>while self.position < end_position\<close> that collects items.\<close>

primrec decode_loop :: "nat \<Rightarrow> 'a fparser \<Rightarrow> nat \<Rightarrow> 'a list \<Rightarrow> 'a list fparser" where
  "decode_loop 0 dec e items d = None"
| "decode_loop (Suc fuel) dec e items d =
     (if dec_position d < e then
        (case dec d of
           None \<Rightarrow> None
         | Some (Ok x, d') \<Rightarrow> decode_loop fuel dec e (items @ [x]) d'
         | Some (Err er, d') \<Rightarrow> Some (Err er, d')
         | Some (Panic, d') \<Rightarrow> Some (Panic, d'))
      else Some (Ok items, d))"

text \<open>
  In the error of the last check \<^verbatim>\<open>end_position - len\<close> is the position after the header, also
  when the sum has wrapped.
\<close>

definition decode_list :: "nat \<Rightarrow> 'a fparser \<Rightarrow> 'a list fparser" where
  "decode_list fuel dec d =
     (case decode_header d of
        Err e \<Rightarrow> Some (Err e, d)
      | Panic \<Rightarrow> Some (Panic, d)
      | Ok (offset, len, is_data) \<Rightarrow>
          if is_data then Some (dec_err (InvalidData ''Expected list, got data''), d)
          else
            let d1 = d\<lparr>dec_position := dec_position d + offset\<rparr>;
                e = wrap64 (dec_position d1 + len)
            in
            if e > length (dec_data d) then Some (dec_err UnexpectedEof, d1)
            else
              (case decode_loop fuel dec e [] d1 of
                 None \<Rightarrow> None
               | Some (Ok items, d') \<Rightarrow>
                   if dec_position d' \<noteq> e
                   then Some (dec_err (ListLengthMismatch len (dec_position d' - dec_position d1)), d')
                   else Some (Ok items, d')
               | Some (Err er, d') \<Rightarrow> Some (Err er, d')
               | Some (Panic, d') \<Rightarrow> Some (Panic, d')))"

fun decode_item :: "nat \<Rightarrow> RlpItem fparser" where
  "decode_item 0 d = None"
| "decode_item (Suc fuel) d =
     (case decode_header d of
        Err e \<Rightarrow> Some (Err e, d)
      | Panic \<Rightarrow> Some (Panic, d)
      | Ok (offset, len, is_data) \<Rightarrow>
          let d1 = d\<lparr>dec_position := dec_position d + offset\<rparr>;
              e = wrap64 (dec_position d1 + len)
          in
          if e > length (dec_data d) then Some (dec_err UnexpectedEof, d1)
          else if is_data then
            (case slice (dec_data d) (dec_position d1) e of
               Ok bs \<Rightarrow> Some (Ok (RlpString bs), d1\<lparr>dec_position := e\<rparr>)
             | Err er \<Rightarrow> Some (Err er, d1)
             | Panic \<Rightarrow> Some (Panic, d1))
          else
            map_option (\<lambda>(r, d'). (map_ok RlpList r, d'))
              (decode_loop fuel (decode_item fuel) e [] d1))"

definition decode_u8 :: "u8 parser" where
  "decode_u8 = and_then decode_bytes (\<lambda>bs.
     if length bs = 0 then Ok 0 else if length bs = 1 then Ok (bs ! 0)
     else dec_err IntegerOverflow)"

definition decode_u16 :: "16 word parser" where
  "decode_u16 = and_then decode_bytes (\<lambda>bs.
     if length bs = 0 then Ok 0
     else if length bs = 1 then Ok (ucast (bs ! 0))
     else if length bs = 2 then (if bs ! 0 = 0 then dec_err LeadingZeros else Ok (from_be bs))
     else dec_err IntegerOverflow)"

definition decode_u32 :: "u32 parser" where
  "decode_u32 = and_then decode_bytes (\<lambda>bs.
     if bs = [] then Ok 0
     else if length bs > 4 then dec_err IntegerOverflow
     else if length bs > 1 \<and> bs ! 0 = 0 then dec_err LeadingZeros
     else Ok (from_be (replicate (4 - length bs) 0 @ bs)))"

definition decode_u64 :: "u64 parser" where
  "decode_u64 = and_then decode_bytes (\<lambda>bs.
     if bs = [] then Ok 0
     else if length bs > 8 then dec_err IntegerOverflow
     else if length bs > 1 \<and> bs ! 0 = 0 then dec_err LeadingZeros
     else Ok (from_be (replicate (8 - length bs) 0 @ bs)))"

definition decode_bool :: "bool parser" where
  "decode_bool = and_then decode_u8 (\<lambda>v.
     if v = 0 then Ok False else if v = 1 then Ok True
     else dec_err (InvalidData ''Invalid boolean value''))"

definition is_empty_string :: "Decoder \<Rightarrow> (RlpError, bool) result" where
  "is_empty_string d =
     (if dec_position d \<ge> length (dec_data d) then dec_err UnexpectedEof
      else Ok (dec_data d ! dec_position d = 0x80))"

definition is_list :: "Decoder \<Rightarrow> (RlpError, bool) result" where
  "is_list d =
     (if dec_position d \<ge> length (dec_data d) then dec_err UnexpectedEof
      else Ok (dec_data d ! dec_position d \<ge> 0xc0))"

definition is_finished :: "Decoder \<Rightarrow> bool" where
  "is_finished d \<longleftrightarrow> dec_position d \<ge> length (dec_data d)"

subsection \<open>Implementations of the trait \<^verbatim>\<open>Decode\<close>\<close>

definition decode_option :: "'a parser \<Rightarrow> 'a option parser" where
  "decode_option dec d =
     (case is_empty_string d of
        Err e \<Rightarrow> (Err e, d)
      | Panic \<Rightarrow> (Panic, d)
      | Ok b \<Rightarrow>
          if b then and_then decode_bytes (\<lambda>_. Ok None) d
          else and_then dec (\<lambda>x. Ok (Some x)) d)"

text \<open>The decimal numeral that \<^verbatim>\<open>format!\<close> prints.\<close>

fun show_nat :: "nat \<Rightarrow> string" where
  "show_nat n = (if n < 10 then [char_of (48 + n)] else show_nat (n div 10) @ [char_of (48 + n mod 10)])"

declare show_nat.simps [simp del]

definition decode_address :: "Address parser" where
  "decode_address = and_then decode_bytes (\<lambda>bs.
     if length bs \<noteq> 20 then dec_err (InvalidData (''Invalid address length: '' @ show_nat (length bs)))
     else Ok (from_be bs))"

definition decode_h256 :: "H256 parser" where
  "decode_h256 = and_then decode_bytes (\<lambda>bs.
     if length bs \<noteq> 32 then dec_err (InvalidData (''Invalid H256 length: '' @ show_nat (length bs)))
     else Ok (from_be bs))"

definition decode_u256 :: "U256 parser" where
  "decode_u256 = and_then decode_bytes (\<lambda>bs.
     if bs = [] then Ok 0
     else if length bs > 32 then dec_err IntegerOverflow
     else if length bs > 1 \<and> bs ! 0 = 0 then dec_err LeadingZeros
     else Ok (from_be bs))"

definition decode_bloom :: "Bloom parser" where
  "decode_bloom = and_then decode_bytes (\<lambda>bs.
     if length bs \<noteq> 256
     then dec_err (InvalidData (''Invalid Bloom filter length: '' @ show_nat (length bs)))
     else Ok (from_be bs))"

fun item_decode :: "nat \<Rightarrow> RlpItem fparser" where
  "item_decode 0 d = None"
| "item_decode (Suc fuel) d =
     (case is_list d of
        Err e \<Rightarrow> Some (Err e, d)
      | Panic \<Rightarrow> Some (Panic, d)
      | Ok b \<Rightarrow>
          if b then
            map_option (\<lambda>(r, d'). (map_ok RlpList r, d')) (decode_list fuel (item_decode fuel) d)
          else Some (and_then decode_bytes (\<lambda>bs. Ok (RlpString bs)) d))"

definition rlp_decode :: "'a parser \<Rightarrow> bytes \<Rightarrow> (RlpError, 'a) result" where
  "rlp_decode dec bs = fst (dec (decoder_new bs))"

end
