(* ===== verification/Rlp_Codec.thy ===== *)
theory Rlp_Codec
  imports Rlp_Decode
begin

text \<open>
  Round trips of RLP.  \<open>cursor pre rest\<close> is a decoder that has read \<open>pre\<close> and has \<open>rest\<close> before it.
  The locale \<open>rlp_codec\<close> is the contract between an implementation of \<^verbatim>\<open>Encode\<close> and the one of
  \<^verbatim>\<open>Decode\<close> for the same type: decoding at a cursor in front of an encoding gives the value back and
  moves the cursor behind it.  It is interpreted for every type of \<^verbatim>\<open>traits.rs\<close>, and the lemmas in it
  carry the contract to lists and to whole messages.
\<close>

subsection \<open>Cursors\<close>

definition cursor :: "bytes \<Rightarrow> bytes \<Rightarrow> Decoder" where
  "cursor pre rest = \<lparr>dec_data = pre @ rest, dec_position = length pre\<rparr>"

lemma cursor_fields [simp]:
  "dec_data (cursor pre rest) = pre @ rest" "dec_position (cursor pre rest) = length pre"
  by (simp_all add: cursor_def)

lemma decoder_new_cursor: "decoder_new bs = cursor [] bs"
  by (simp add: decoder_new_def cursor_def)

lemma cursor_move: "(cursor pre (xs @ rest))\<lparr>dec_position := length pre + length xs\<rparr> = cursor (pre @ xs) rest"
  by (simp add: cursor_def)

lemma decoder_as_cursor:
  "dec_position d \<le> length (dec_data d) \<Longrightarrow>
     d = cursor (take (dec_position d) (dec_data d)) (drop (dec_position d) (dec_data d))"
  by (cases d) (simp add: cursor_def)

subsection \<open>Lengths\<close>

lemma length_loop_be_nat:
  "length bs \<le> k \<Longrightarrow> len < 256 ^ (8 - k) \<Longrightarrow> k \<le> 8 \<Longrightarrow> length bs = k \<Longrightarrow>
     length_loop len bs = Ok (len * 256 ^ length bs + be_nat bs)"
proof (induction bs arbitrary: len k)
  case Nil
  then show ?case by simp
next
  case (Cons b bs)
  have b: "unat b < 256" using unsigned_less [of b, where ?'a = nat] by simp
  have k: "k = Suc (length bs)" using Cons.prems by simp
  have len: "len * 256 + unat b < 256 ^ (8 - length bs)"
  proof -
    have "8 - length bs = Suc (8 - k)" using k Cons.prems(3) by simp
    moreover have "len + 1 \<le> 256 ^ (8 - k)" using Cons.prems(2) by simp
    then have "(len + 1) * 256 \<le> 256 ^ (8 - k) * 256" by (rule mult_le_mono1)
    ultimately show ?thesis using b by simp
  qed
  have "(256 :: nat) ^ (8 - length bs) \<le> 256 ^ 8" by (rule power_increasing) simp_all
  then have "len * 256 + unat b < 2 ^ 64" using len by simp
  then have step: "checked_add_usize (wrap64 (len * 2 ^ 8)) (unat b) = Some (len * 256 + unat b)"
    by (simp add: checked_add_usize_def wrap64_def)
  have "length_loop (len * 256 + unat b) bs = Ok ((len * 256 + unat b) * 256 ^ length bs + be_nat bs)"
    using len k Cons.prems(3) by (intro Cons.IH) auto
  then show ?case using step by (simp add: be_nat_Cons algebra_simps)
qed

lemma decode_length_be_nat:
  "bs \<noteq> [] \<Longrightarrow> hd bs \<noteq> 0 \<Longrightarrow> length bs \<le> 8 \<Longrightarrow> decode_length bs = Ok (be_nat bs)"
  using length_loop_be_nat [of bs "length bs" 0]
  by (simp add: decode_length_def hd_conv_nth)

lemma hd_be_nat_nonzero: "bs \<noteq> [] \<Longrightarrow> 256 ^ (length bs - 1) \<le> be_nat bs \<Longrightarrow> hd bs \<noteq> 0"
  using be_nat_bound [of "tl bs"] by (cases bs) (auto simp: be_nat_Cons)

lemma unat_of_nat_u8: "n < 256 \<Longrightarrow> unat (of_nat n :: u8) = n"
  by (simp add: unat_of_nat)

lemma of_nat_mod_u8: "(of_nat (n mod 256) :: u8) = of_nat n"
  by (rule word_unat_eq_iff [THEN iffD2]) (simp add: unat_of_nat)

lemma encode_length_be_digits:
  assumes "0 < len" and "len < 2 ^ 32"
  obtains k where "encode_length len = be_digits (Suc k) len" "k \<le> 3" "256 ^ k \<le> len"
    "len < 256 ^ Suc k"
proof -
  have digits: "be_digits (Suc 0) len = [of_nat len]"
    "be_digits (Suc (Suc 0)) len = [of_nat (len div 256), of_nat len]"
    "be_digits (Suc (Suc (Suc 0))) len = [of_nat (len div 256 div 256), of_nat (len div 256), of_nat len]"
    "be_digits (Suc (Suc (Suc (Suc 0)))) len = [of_nat (len div 256 div 256 div 256),
       of_nat (len div 256 div 256), of_nat (len div 256), of_nat len]"
    by (simp_all add: of_nat_mod_u8)
  note divs = div_mult2_eq [symmetric]
  consider "len < 256" | "256 \<le> len" "len < 65536" | "65536 \<le> len" "len < 16777216"
    | "16777216 \<le> len" by linarith
  then show thesis
  proof cases
    case 1
    then show thesis using assms that [of 0] by (simp add: encode_length_def digits)
  next
    case 2
    then show thesis using that [of "Suc 0"] by (simp add: encode_length_def digits of_nat_mod_u8)
  next
    case 3
    then show thesis using that [of "Suc (Suc 0)"] by (simp add: encode_length_def digits divs of_nat_mod_u8)
  next
    case 4
    then show thesis using assms that [of "Suc (Suc (Suc 0))"]
      by (simp add: encode_length_def digits divs of_nat_mod_u8)
  qed
qed

lemma decode_encode_length:
  assumes "0 < len" and "len < 2 ^ 32"
  shows "decode_length (encode_length len) = Ok len"
    and "1 \<le> length (encode_length len)" and "length (encode_length len) \<le> 4"
proof -
  obtain k where k: "encode_length len = be_digits (Suc k) len" "k \<le> 3" "256 ^ k \<le> len"
    "len < 256 ^ Suc k" using assms by (rule encode_length_be_digits)
  have l: "length (be_digits (Suc k) len) = Suc k" by (rule length_be_digits)
  have b: "be_nat (be_digits (Suc k) len) = len" using k(4) by (simp only: be_nat_be_digits) simp
  have "be_digits (Suc k) len \<noteq> []" using l by (metis length_0_conv nat.distinct(1))
  moreover from this have "hd (be_digits (Suc k) len) \<noteq> 0"
    by (rule hd_be_nat_nonzero) (simp only: l b diff_Suc_1 k(3))
  ultimately show "decode_length (encode_length len) = Ok len"
    using decode_length_be_nat [of "be_digits (Suc k) len"] k(1,2) l b by simp
  show "1 \<le> length (encode_length len)" "length (encode_length len) \<le> 4"
    using k(1,2) l by simp_all
qed

subsection \<open>Headers\<close>

lemma unat_prefix:
  "n < 56 \<Longrightarrow> unat (0x80 + of_nat n :: u8) = 0x80 + n"
  "n < 56 \<Longrightarrow> unat (0xc0 + of_nat n :: u8) = 0xc0 + n"
  "n \<le> 4 \<Longrightarrow> unat (0xb7 + of_nat n :: u8) = 0xb7 + n"
  "n \<le> 4 \<Longrightarrow> unat (0xf7 + of_nat n :: u8) = 0xf7 + n"
  by (simp_all add: unat_word_ariths unat_of_nat)

lemma header_short:
  assumes "n < 56"
  shows "decode_header (cursor pre ((0x80 + of_nat n) # rest)) = Ok (1, n, True)"
    and "decode_header (cursor pre ((0xc0 + of_nat n) # rest)) = Ok (1, n, False)"
  using assms
  by (auto simp: decode_header_def Let_def nth_append word_le_nat_alt unat_prefix unat_sub
      word_unat_eq_iff unat_of_nat_u8)

lemma header_long:
  assumes "0 < len" and "len < 2 ^ 32"
  shows "decode_header (cursor pre ((0xb7 + of_nat (length (encode_length len))) #
      encode_length len @ rest)) = Ok (1 + length (encode_length len), len, True)"
    and "decode_header (cursor pre ((0xf7 + of_nat (length (encode_length len))) #
      encode_length len @ rest)) = Ok (1 + length (encode_length len), len, False)"
  using decode_encode_length [OF assms]
  by (auto simp: decode_header_def Let_def nth_append word_le_nat_alt unat_prefix unat_sub
      word_unat_eq_iff slice_def unat_of_nat_u8)

lemma header_byte: "b < 0x80 \<Longrightarrow> decode_header (cursor pre (b # rest)) = Ok (0, 1, True)"
  by (auto simp: decode_header_def Let_def nth_append word_le_nat_alt word_less_nat_alt)

subsection \<open>Byte strings\<close>

lemma decode_bytes_at:
  assumes "decode_header (cursor pre (hdr @ bs @ rest)) = Ok (length hdr, length bs, True)"
    and "length pre + length hdr + length bs \<le> usize_max"
  shows "decode_bytes (cursor pre (hdr @ bs @ rest)) = (Ok bs, cursor (pre @ hdr @ bs) rest)"
  using assms by (simp add: decode_bytes_def Let_def wrap64_def slice_def cursor_def)

lemma encode_bytes_shape:
  assumes "length bs < 2 ^ 32"
  obtains hdr where "encode_bytes [] bs = hdr @ bs"
    "\<And>pre rest. decode_header (cursor pre (hdr @ bs @ rest)) = Ok (length hdr, length bs, True)"
proof -
  let ?n = "length bs"
  consider (empty) "?n = 0" | (single) "?n = 1" "bs ! 0 < 0x80"
    | (short) "?n < 56" "\<not> (?n = 1 \<and> bs ! 0 < 0x80)" "?n \<noteq> 0" | (long) "56 \<le> ?n"
    using not_le by blast
  then show thesis
  proof cases
    case empty
    then show thesis using that [of "[0x80]"] header_short(1) [of 0] by (simp add: encode_bytes_def)
  next
    case single
    then obtain b where "bs = [b]" "b < 0x80" by (cases bs) auto
    then show thesis using that [of "[]"] header_byte [of b] by (simp add: encode_bytes_def)
  next
    case short
    then show thesis using that [of "[0x80 + of_nat ?n]"] header_short(1) [of ?n]
      by (simp add: encode_bytes_def Let_def)
  next
    case long
    let ?hdr = "(0xb7 + of_nat (length (encode_length ?n))) # encode_length ?n"
    have pos: "0 < ?n" using long by linarith
    have "encode_bytes [] bs = ?hdr @ bs" using long by (auto simp: encode_bytes_def Let_def)
    moreover have "decode_header (cursor pre (?hdr @ bs @ rest)) = Ok (length ?hdr, ?n, True)" for pre rest
      using header_long(1) [OF pos assms, of pre "bs @ rest"] by simp
    ultimately show thesis by (rule that)
  qed
qed

lemma decode_encode_bytes:
  assumes "length bs < 2 ^ 32" and "length pre + length (encode_bytes [] bs) \<le> usize_max"
  shows "decode_bytes (cursor pre (encode_bytes [] bs @ rest)) =
    (Ok bs, cursor (pre @ encode_bytes [] bs) rest)"
proof -
  obtain hdr where hdr: "encode_bytes [] bs = hdr @ bs"
    "\<And>pre rest. decode_header (cursor pre (hdr @ bs @ rest)) = Ok (length hdr, length bs, True)"
    using assms(1) by (rule encode_bytes_shape) blast
  show ?thesis using decode_bytes_at [OF hdr(2)] assms(2) by (simp add: hdr(1) add.assoc)
qed

lemma encode_bytes_nonempty [simp]: "encode_bytes [] bs \<noteq> []"
  by (simp add: encode_bytes_def Let_def)

subsection \<open>Lists\<close>

lemma decode_loop_items:
  assumes "\<And>x pre rest. x \<in> set xs \<Longrightarrow> length pre + length (enc x) \<le> usize_max \<Longrightarrow>
      dec (cursor pre (enc x @ rest)) = Some (Ok x, cursor (pre @ enc x) rest)"
    and "\<And>x. x \<in> set xs \<Longrightarrow> enc x \<noteq> []"
    and "length pre + length (concat (map enc xs)) \<le> usize_max" and "length xs < fuel"
  shows "decode_loop fuel dec (length pre + length (concat (map enc xs))) items
      (cursor pre (concat (map enc xs) @ rest)) =
    Some (Ok (items @ xs), cursor (pre @ concat (map enc xs)) rest)"
  using assms
proof (induction xs arbitrary: fuel pre items)
  case Nil
  then show ?case by (cases fuel) simp_all
next
  case (Cons x xs)
  obtain f where fuel: "fuel = Suc f" "length xs < f" using Cons.prems(4) by (cases fuel) auto
  have "dec (cursor pre (enc x @ concat (map enc xs) @ rest)) =
      Some (Ok x, cursor (pre @ enc x) (concat (map enc xs) @ rest))"
    using Cons.prems(3) by (intro Cons.prems(1)) auto
  moreover have "decode_loop f dec (length (pre @ enc x) + length (concat (map enc xs))) (items @ [x])
      (cursor (pre @ enc x) (concat (map enc xs) @ rest)) =
      Some (Ok ((items @ [x]) @ xs), cursor ((pre @ enc x) @ concat (map enc xs)) rest)"
    by (rule Cons.IH) (use Cons.prems fuel(2) in \<open>auto\<close>)
  ultimately show ?case using Cons.prems(2) [of x] fuel(1) by (simp add: add.assoc)
qed

lemma encode_list_shape:
  assumes "\<And>buf x. x \<in> set xs \<Longrightarrow> enc buf x = buf @ enc [] x"
    and "length (concat (map (enc []) xs)) < 2 ^ 32"
  obtains hdr where "encode_list enc [] xs = hdr @ concat (map (enc []) xs)" "hdr \<noteq> []"
    "\<And>pre rest. decode_header (cursor pre (hdr @ concat (map (enc []) xs) @ rest)) =
       Ok (length hdr, length (concat (map (enc []) xs)), False)" "0xc0 \<le> hd hdr"
proof -
  let ?p = "concat (map (enc []) xs)"
  have p: "foldl enc encoder_new xs = ?p"
    unfolding encoder_new_def by (subst foldl_appends [OF assms(1)]) simp_all
  show thesis
  proof (cases "length ?p < 56")
    case True
    let ?hdr = "[0xc0 + of_nat (length ?p)] :: bytes"
    have "encode_list enc [] xs = ?hdr @ ?p" using True by (simp add: encode_list_def Let_def p del: length_concat)
    moreover have "decode_header (cursor pre (?hdr @ ?p @ rest)) = Ok (length ?hdr, length ?p, False)"
      for pre rest using header_short(2) [OF True, of pre "?p @ rest"] by simp
    moreover have "0xc0 \<le> hd ?hdr"
      using True by (simp add: word_le_nat_alt unat_prefix del: length_concat)
    ultimately show thesis by (intro that [of ?hdr]) simp_all
  next
    case False
    let ?l = "encode_length (length ?p)"
    let ?hdr = "(0xf7 + of_nat (length ?l)) # ?l"
    have pos: "0 < length ?p" using False by linarith
    have "encode_list enc [] xs = ?hdr @ ?p"
      using False by (simp add: encode_list_def Let_def p del: length_concat)
    moreover have "decode_header (cursor pre (?hdr @ ?p @ rest)) = Ok (length ?hdr, length ?p, False)"
      for pre rest using header_long(2) [OF pos assms(2), of pre "?p @ rest"] by (simp del: length_concat)
    moreover have "0xc0 \<le> hd ?hdr"
      using decode_encode_length(3) [OF pos assms(2)]
      by (simp add: word_le_nat_alt unat_prefix del: length_concat)
    ultimately show thesis by (intro that [of ?hdr]) simp_all
  qed
qed

text \<open>A list of values decodes to itself when each of its values does.\<close>

lemma decode_encode_list:
  assumes app: "\<And>buf x. x \<in> set xs \<Longrightarrow> enc buf x = buf @ enc [] x"
    and rt: "\<And>x pre rest. x \<in> set xs \<Longrightarrow> length pre + length (enc [] x) \<le> usize_max \<Longrightarrow>
      dec (cursor pre (enc [] x @ rest)) = Some (Ok x, cursor (pre @ enc [] x) rest)"
    and ne: "\<And>x. x \<in> set xs \<Longrightarrow> enc [] x \<noteq> []"
    and len: "length (concat (map (enc []) xs)) < 2 ^ 32"
    and fits: "length pre + length (encode_list enc [] xs) \<le> usize_max" and fuel: "length xs < fuel"
  shows "decode_list fuel dec (cursor pre (encode_list enc [] xs @ rest)) =
    Some (Ok xs, cursor (pre @ encode_list enc [] xs) rest)"
proof -
  let ?p = "concat (map (enc []) xs)"
  obtain hdr where hdr: "encode_list enc [] xs = hdr @ ?p"
    "\<And>pre rest. decode_header (cursor pre (hdr @ ?p @ rest)) = Ok (length hdr, length ?p, False)"
    using encode_list_shape [OF app len] by metis
  have d1: "cursor pre (hdr @ ?p @ rest)\<lparr>dec_position := length pre + length hdr\<rparr> =
      cursor (pre @ hdr) (?p @ rest)"
    by (simp add: cursor_def)
  have w: "wrap64 (length pre + length hdr + length ?p) = length (pre @ hdr) + length ?p"
    using fits by (simp add: hdr(1) wrap64_def add.assoc del: length_concat)
  have "decode_loop fuel dec (length (pre @ hdr) + length ?p) [] (cursor (pre @ hdr) (?p @ rest)) =
      Some (Ok ([] @ xs), cursor ((pre @ hdr) @ ?p) rest)"
    by (rule decode_loop_items [OF rt ne])
      (use fits fuel in \<open>simp_all add: hdr(1) add.assoc del: length_concat\<close>)
  then show ?thesis
    by (simp add: decode_list_def hdr d1 w del: length_concat)
qed

subsection \<open>The contract of an encoding\<close>

locale rlp_codec =
  fixes enc :: "'a encode" and dec :: "'a parser" and valid :: "'a \<Rightarrow> bool"
  assumes enc_appends: "appends enc"
    and enc_nonempty: "enc [] x \<noteq> []"
    and dec_enc: "valid x \<Longrightarrow> length pre + length (enc [] x) \<le> usize_max \<Longrightarrow>
      dec (cursor pre (enc [] x @ rest)) = (Ok x, cursor (pre @ enc [] x) rest)"
begin

lemma decode_encode:
  "valid x \<Longrightarrow> length (rlp_encode enc x) \<le> usize_max \<Longrightarrow> rlp_decode dec (rlp_encode enc x) = Ok x"
  using dec_enc [of x "[]" "[]"]
  by (simp add: rlp_decode_def rlp_encode_def decoder_new_cursor encoder_new_def)

text \<open>No encoding is a proper prefix of another: a stream of encodings parses in one way.\<close>

lemma prefix_free:
  assumes "valid x" "valid y" and "length (enc [] x) \<le> usize_max" "length (enc [] y) \<le> usize_max"
    and eq: "enc [] x @ r = enc [] y @ r'"
  shows "x = y \<and> r = r'"
proof -
  have "dec (cursor [] (enc [] x @ r)) = (Ok x, cursor ([] @ enc [] x) r)"
    using assms(1,3) by (intro dec_enc) simp_all
  moreover have "dec (cursor [] (enc [] y @ r')) = (Ok y, cursor ([] @ enc [] y) r')"
    using assms(2,4) by (intro dec_enc) simp_all
  ultimately have "x = y" using eq by simp
  with eq show ?thesis by simp
qed

lemma list_roundtrip:
  assumes "\<forall>x\<in>set xs. valid x" and "length (concat (map (enc []) xs)) < 2 ^ 32"
    and "length pre + length (encode_list enc [] xs) \<le> usize_max" and "length xs < fuel"
  shows "decode_list fuel (\<lambda>d. Some (dec d)) (cursor pre (encode_list enc [] xs @ rest)) =
    Some (Ok xs, cursor (pre @ encode_list enc [] xs) rest)"
proof (rule decode_encode_list)
  show "enc buf x = buf @ enc [] x" for buf x by (rule appendsD [OF enc_appends])
qed (use assms in \<open>auto simp: dec_enc enc_nonempty\<close>)

text \<open>
  Options share the encoding of the empty string, so they keep apart only from values that are
  not encoded as it.
\<close>

lemma option_roundtrip:
  assumes "\<And>y. x = Some y \<Longrightarrow> valid y \<and> hd (enc [] y) \<noteq> 0x80"
    and "length pre + length (encode_option enc [] x) \<le> usize_max"
  shows "decode_option dec (cursor pre (encode_option enc [] x @ rest)) =
    (Ok x, cursor (pre @ encode_option enc [] x) rest)"
proof (cases x)
  case None
  then show ?thesis
    using assms(2) decode_encode_bytes [of "[]" pre rest]
    by (simp add: encode_option_def decode_option_def is_empty_string_def encode_bytes_def nth_append
        and_then_def)
next
  case (Some y)
  then have "hd (enc [] y) \<noteq> 0x80" "valid y" using assms(1) by auto
  moreover obtain b bs where "enc [] y = b # bs" using enc_nonempty [of y] by (cases "enc [] y") auto
  ultimately show ?thesis
    using Some assms(2) dec_enc [of y pre rest]
    by (simp add: encode_option_def decode_option_def is_empty_string_def nth_append and_then_def)
qed

end

end
