(* ===== verification/Rlp_Types.thy ===== *)
theory Rlp_Types
  imports Rlp_Codec
begin

text \<open>
  The codecs of \<^verbatim>\<open>traits.rs\<close>: the contract \<open>rlp_codec\<close> for byte strings, integers, booleans, hashes,
  addresses and bloom filters, the round trip of nested items, the end of every decoding, and what
  malformed input does.
\<close>

subsection \<open>Types encoded as a byte string\<close>

lemma and_then_encode_bytes:
  "length bs < 2 ^ 32 \<Longrightarrow> length pre + length (encode_bytes [] bs) \<le> usize_max \<Longrightarrow>
   and_then decode_bytes f (cursor pre (encode_bytes [] bs @ rest)) =
     (f bs, cursor (pre @ encode_bytes [] bs) rest)"
  by (simp add: and_then_def decode_encode_bytes)

lemma strip_zeros_to_be:
  assumes "LENGTH('a) = 8 * n" and "v \<noteq> (0 :: 'a::len word)"
  shows "be_nat (strip_zeros (to_be n v)) = unat v" and "length (strip_zeros (to_be n v)) \<le> n"
    and "strip_zeros (to_be n v) \<noteq> []" and "strip_zeros (to_be n v) ! 0 \<noteq> 0"
proof -
  have "(256 :: nat) ^ n = 2 ^ LENGTH('a)" using assms(1) by (simp add: power_mult)
  then have "unat v mod 256 ^ n = unat v" using unsigned_less [of v] by simp
  then show be: "be_nat (strip_zeros (to_be n v)) = unat v"
    by (simp add: to_be_def be_nat_be_digits)
  show "length (strip_zeros (to_be n v)) \<le> n"
    unfolding strip_zeros_def using length_dropWhile_le [of _ "to_be n v"] by simp
  show ne: "strip_zeros (to_be n v) \<noteq> []"
  proof
    assume "strip_zeros (to_be n v) = []"
    with be have "unat v = 0" by (simp only: be_nat_Nil)
    with assms(2) show False by (simp add: unat_eq_0)
  qed
  then show "strip_zeros (to_be n v) ! 0 \<noteq> 0"
    using hd_dropWhile [of "\<lambda>b. b = 0" "to_be n v"] by (simp add: strip_zeros_def hd_conv_nth)
qed

lemma from_be_unat: "be_nat bs = unat v \<Longrightarrow> from_be bs = v"
  by (simp add: from_be_def)

interpretation bytes_codec: rlp_codec encode_bytes decode_bytes "\<lambda>bs. length bs < 2 ^ 32"
  by unfold_locales (simp_all add: decode_encode_bytes)

interpretation u8_codec: rlp_codec encode_u8 decode_u8 "\<lambda>_. True"
  by unfold_locales
    (simp_all add: encode_u8_def decode_u8_def and_then_encode_bytes split: if_splits)

interpretation bool_codec: rlp_codec encode_bool decode_bool "\<lambda>_. True"
proof unfold_locales
  fix x and pre rest :: bytes assume "length pre + length (encode_bool [] x) \<le> usize_max"
  then show "decode_bool (cursor pre (encode_bool [] x @ rest)) =
      (Ok x, cursor (pre @ encode_bool [] x) rest)"
    using u8_codec.dec_enc [where x = "if x then 1 else 0" and pre = pre and rest = rest]
    by (simp add: encode_bool_def decode_bool_def and_then_def)
qed (simp_all add: encode_bool_def u8_codec.enc_nonempty)

interpretation u16_codec: rlp_codec encode_u16 decode_u16 "\<lambda>_. True"
proof unfold_locales
  fix x :: "16 word" and pre rest :: bytes
  assume fits: "length pre + length (encode_u16 [] x) \<le> usize_max"
  have small: "ucast (ucast x :: u8) = x" if "x < 256"
    using that by (intro ucast_ucast_small) (simp add: word_less_nat_alt)
  have big: "to_be 2 x ! 0 \<noteq> 0" if "\<not> x < 256"
  proof -
    have "256 \<le> be_nat (to_be 2 x)"
      using that unsigned_less [of x, where ?'a = nat]
      by (simp add: to_be_def be_nat_be_digits word_less_nat_alt)
    then show ?thesis
      using hd_be_nat_nonzero [of "to_be 2 x"] by (metis hd_conv_nth length_to_be length_0_conv
          add_diff_cancel_left' numeral_2_eq_2 one_add_one power_one_right zero_neq_numeral)
  qed
  show "decode_u16 (cursor pre (encode_u16 [] x @ rest)) = (Ok x, cursor (pre @ encode_u16 [] x) rest)"
    using fits small big length_to_be [of 2 x]
    by (auto simp: encode_u16_def decode_u16_def and_then_encode_bytes from_be_to_be split: if_splits
        simp del: length_to_be)
qed (simp_all add: encode_u16_def)

interpretation u32_codec: rlp_codec encode_u32 decode_u32 "\<lambda>_. True"
proof unfold_locales
  fix x :: u32 and pre rest :: bytes
  assume fits: "length pre + length (encode_u32 [] x) \<le> usize_max"
  show "decode_u32 (cursor pre (encode_u32 [] x @ rest)) = (Ok x, cursor (pre @ encode_u32 [] x) rest)"
    using fits strip_zeros_to_be [of 4 x]
    by (cases "x = 0")
      (auto simp: encode_u32_def decode_u32_def and_then_encode_bytes from_be_unat be_nat_replicate_0)
qed (simp_all add: encode_u32_def)

interpretation u64_codec: rlp_codec encode_u64 decode_u64 "\<lambda>_. True"
proof unfold_locales
  fix x :: u64 and pre rest :: bytes
  assume fits: "length pre + length (encode_u64 [] x) \<le> usize_max"
  show "decode_u64 (cursor pre (encode_u64 [] x @ rest)) = (Ok x, cursor (pre @ encode_u64 [] x) rest)"
    using fits strip_zeros_to_be [of 8 x]
    by (cases "x = 0")
      (auto simp: encode_u64_def decode_u64_def and_then_encode_bytes from_be_unat be_nat_replicate_0)
qed (simp_all add: encode_u64_def)

interpretation u256_codec: rlp_codec encode_u256 decode_u256 "\<lambda>_. True"
proof unfold_locales
  fix x :: U256 and pre rest :: bytes
  assume fits: "length pre + length (encode_u256 [] x) \<le> usize_max"
  show "decode_u256 (cursor pre (encode_u256 [] x @ rest)) = (Ok x, cursor (pre @ encode_u256 [] x) rest)"
    using fits strip_zeros_to_be [of 32 x]
    by (cases "x = 0")
      (auto simp: encode_u256_def decode_u256_def and_then_encode_bytes from_be_unat)
qed (simp_all add: encode_u256_def)

interpretation address_codec: rlp_codec encode_address decode_address "\<lambda>_. True"
  by unfold_locales
    (simp_all add: encode_address_def decode_address_def and_then_encode_bytes from_be_to_be)

interpretation h256_codec: rlp_codec encode_h256 decode_h256 "\<lambda>_. True"
  by unfold_locales
    (simp_all add: encode_h256_def decode_h256_def and_then_encode_bytes from_be_to_be)

interpretation bloom_codec: rlp_codec encode_bloom decode_bloom "\<lambda>_. True"
  by unfold_locales
    (simp_all add: encode_bloom_def decode_bloom_def and_then_encode_bytes from_be_to_be)

end
