(* ===== verification/Rlp_Items.thy ===== *)
theory Rlp_Items
  imports Rlp_Types
begin

text \<open>
  Nested items: every decoding ends, encodings of items round-trip through both decoders of the
  library, and what malformed input does.
\<close>

subsection \<open>Decoding moves forward\<close>

lemma decode_header_Ok:
  assumes "decode_header d = Ok (offset, len, is_data)"
  shows "dec_position d < length (dec_data d)" and "dec_position d + offset \<le> length (dec_data d)"
    and "offset = 0 \<Longrightarrow> is_data \<and> len = 1"
  using assms by (auto simp: decode_header_def Let_def split: if_splits)

definition forward :: "'a fparser \<Rightarrow> bool" where
  "forward p \<longleftrightarrow> (\<forall>d x d'. p d = Some (Ok x, d') \<longrightarrow>
     dec_data d' = dec_data d \<and> dec_position d < dec_position d')"

lemma forwardD:
  "forward p \<Longrightarrow> p d = Some (Ok x, d') \<Longrightarrow>
     dec_data d' = dec_data d \<and> dec_position d < dec_position d'"
  unfolding forward_def by blast

lemma wrap64_Suc_neq: "wrap64 (p + 1) \<noteq> p"
proof
  assume eq: "wrap64 (p + 1) = p"
  have "wrap64 (p + 1) < 2 ^ 64" unfolding wrap64_def by (rule mod_less_divisor) simp
  then have p: "p < 2 ^ 64" using eq by simp
  show False
  proof (cases "p + 1 = 2 ^ 64")
    case True
    then show False using eq by (simp add: wrap64_def)
  next
    case False
    then show False using eq p by (simp add: wrap64_def)
  qed
qed

lemma decode_bytes_forward:
  assumes "decode_bytes d = (Ok bs, d')"
  shows "dec_data d' = dec_data d \<and> dec_position d < dec_position d'"
proof -
  obtain offset len is_data where h: "decode_header d = Ok (offset, len, is_data)"
    using assms by (cases "decode_header d") (auto simp: decode_bytes_def)
  note ok = decode_header_Ok [OF h]
  have le: "dec_position d + offset \<le> dec_position d'" and data: "dec_data d' = dec_data d"
    and e: "dec_position d' = wrap64 (dec_position d + offset + len)"
    using assms h
    by (auto simp: decode_bytes_def Let_def slice_def split: if_splits)
  have "dec_position d < dec_position d'" if "offset = 0"
  proof (rule ccontr)
    assume "\<not> dec_position d < dec_position d'"
    then have "dec_position d' = dec_position d" using le that by simp
    then have "wrap64 (dec_position d + 1) = dec_position d" using e ok(3) [OF that] that by simp
    then show False by (rule wrap64_Suc_neq [THEN notE])
  qed
  then show ?thesis using le data by (cases "offset = 0") auto
qed

lemma decode_loop_forward:
  assumes "forward dec"
  shows "decode_loop fuel dec e items d = Some (Ok xs, d') \<Longrightarrow>
    dec_data d' = dec_data d \<and> dec_position d \<le> dec_position d'"
proof (induction fuel arbitrary: items d)
  case (Suc fuel)
  show ?case
  proof (cases "dec_position d < e")
    case True
    then obtain x d1 where d1: "dec d = Some (Ok x, d1)"
      "decode_loop fuel dec e (items @ [x]) d1 = Some (Ok xs, d')"
      using Suc.prems by (auto split: option.splits result.splits prod.splits)
    from Suc.IH [OF d1(2)] forwardD [OF assms d1(1)] show ?thesis by auto
  qed (use Suc.prems in auto)
qed simp

lemma decode_list_forward:
  assumes "forward dec" and "decode_list fuel dec d = Some (Ok xs, d')"
  shows "dec_data d' = dec_data d \<and> dec_position d < dec_position d'"
proof -
  obtain offset len where h: "decode_header d = Ok (offset, len, False)"
    using assms(2) by (auto simp: decode_list_def split: result.splits prod.splits if_splits)
  then have "0 < offset" using decode_header_Ok(3) [OF h] by auto
  moreover obtain e where
    "decode_loop fuel dec e [] (d\<lparr>dec_position := dec_position d + offset\<rparr>) = Some (Ok xs, d')"
    using assms(2) h by (auto simp: decode_list_def Let_def split: option.splits result.splits prod.splits if_splits)
  ultimately show ?thesis using decode_loop_forward [OF assms(1)] by fastforce
qed

lemma forward_decode_item: "forward (decode_item fuel)"
proof (induction fuel)
  case 0
  then show ?case by (simp add: forward_def)
next
  case (Suc fuel)
  show ?case unfolding forward_def
  proof (intro allI impI)
    fix d x d' assume run: "decode_item (Suc fuel) d = Some (Ok x, d')"
    then obtain offset len is_data where h: "decode_header d = Ok (offset, len, is_data)"
      by (auto split: result.splits prod.splits)
    show "dec_data d' = dec_data d \<and> dec_position d < dec_position d'"
    proof (cases is_data)
      case True
      then obtain bs where "decode_bytes d = (Ok bs, d')"
        using run h by (auto simp: decode_bytes_def Let_def split: if_splits result.splits)
      then show ?thesis by (rule decode_bytes_forward)
    next
      case False
      then have "0 < offset" using decode_header_Ok(3) [OF h] by auto
      moreover obtain e xs where
        "decode_loop fuel (decode_item fuel) e [] (d\<lparr>dec_position := dec_position d + offset\<rparr>) =
           Some (Ok xs, d')"
        using run h False by (auto simp: Let_def split: if_splits)
      ultimately show ?thesis using decode_loop_forward [OF Suc] by fastforce
    qed
  qed
qed

lemma forward_item_decode: "forward (item_decode fuel)"
proof (induction fuel)
  case 0
  then show ?case by (simp add: forward_def)
next
  case (Suc fuel)
  show ?case unfolding forward_def
  proof (intro allI impI)
    fix d x d' assume run: "item_decode (Suc fuel) d = Some (Ok x, d')"
    show "dec_data d' = dec_data d \<and> dec_position d < dec_position d'"
    proof (cases "is_list d = Ok True")
      case True
      then obtain xs where "decode_list fuel (item_decode fuel) d = Some (Ok xs, d')"
        using run by auto
      then show ?thesis by (rule decode_list_forward [OF Suc])
    next
      case False
      then obtain bs where "decode_bytes d = (Ok bs, d')"
        using run by (auto simp: and_then_def split: result.splits prod.splits if_splits)
      then show ?thesis by (rule decode_bytes_forward)
    qed
  qed
qed

subsection \<open>Every decoding ends\<close>

definition left :: "Decoder \<Rightarrow> nat" where
  "left d = length (dec_data d) - dec_position d"

lemma decode_loop_ends:
  assumes "forward dec"
    and "\<And>d'. dec_data d' = dec_data d \<Longrightarrow> dec_position d \<le> dec_position d' \<Longrightarrow> dec d' \<noteq> None"
    and "e - dec_position d < fuel"
  shows "decode_loop fuel dec e items d \<noteq> None"
  using assms(2,3)
proof (induction fuel arbitrary: items d)
  case 0
  then show ?case by simp
next
  case (Suc fuel)
  show ?case
  proof (cases "dec_position d < e")
    case True
    obtain r d1 where d1: "dec d = Some (r, d1)" using Suc.prems(1) [of d] by auto
    show ?thesis
    proof (cases r)
      case (Ok x)
      then have f: "dec_data d1 = dec_data d" "dec_position d < dec_position d1"
        using forwardD [OF assms(1)] d1 by auto
      have "decode_loop fuel dec e (items @ [x]) d1 \<noteq> None"
        using Suc.prems f True by (intro Suc.IH) auto
      with True d1 Ok show ?thesis by simp
    qed (use True d1 in simp_all)
  qed simp
qed

lemma header_left:
  assumes "decode_header d = Ok (offset, len, False)"
  shows "left (d\<lparr>dec_position := dec_position d + offset\<rparr>) < left d"
  using decode_header_Ok [OF assms] by (cases "offset = 0") (auto simp: left_def)

lemma left_mono:
  "dec_data d' = dec_data d \<Longrightarrow> dec_position d \<le> dec_position d' \<Longrightarrow> left d' \<le> left d"
  by (simp add: left_def)

lemma wrapped_end_ends:
  assumes "forward dec" and "decode_header d = Ok (offset, len, False)"
    and "e \<le> length (dec_data d)" and "left d \<le> fuel"
    and "\<And>d'. left d' < left d \<Longrightarrow> dec d' \<noteq> None"
  shows "decode_loop fuel dec e [] (d\<lparr>dec_position := dec_position d + offset\<rparr>) \<noteq> None"
proof -
  let ?d1 = "d\<lparr>dec_position := dec_position d + offset\<rparr>"
  have l: "left ?d1 < left d" using assms(2) by (rule header_left)
  show ?thesis
  proof (rule decode_loop_ends [OF assms(1)])
    show "dec d' \<noteq> None" if "dec_data d' = dec_data ?d1" "dec_position ?d1 \<le> dec_position d'" for d'
      using left_mono [OF that] l by (intro assms(5)) simp
    show "e - dec_position ?d1 < fuel" using assms(3,4) l by (simp add: left_def)
  qed
qed

lemma decode_item_ends: "left d < fuel \<Longrightarrow> decode_item fuel d \<noteq> None"
proof (induction fuel arbitrary: d)
  case (Suc fuel)
  show ?case
  proof (cases "decode_header d")
    case (Ok h)
    then obtain offset len is_data where h: "decode_header d = Ok (offset, len, is_data)"
      by (cases h) auto
    let ?e = "wrap64 (dec_position d + offset + len)"
    show ?thesis
    proof (cases is_data)
      case True
      with h show ?thesis by (auto simp: Let_def split: result.splits)
    next
      case False
      have "decode_loop fuel (decode_item fuel) ?e []
          (d\<lparr>dec_position := dec_position d + offset\<rparr>) \<noteq> None" if "?e \<le> length (dec_data d)"
        using h False Suc that by (intro wrapped_end_ends [OF forward_decode_item]) auto
      with h False show ?thesis by (auto simp: Let_def)
    qed
  qed simp_all
qed simp

lemma item_decode_ends: "left d < fuel \<Longrightarrow> item_decode fuel d \<noteq> None"
proof (induction fuel arbitrary: d)
  case (Suc fuel)
  have "decode_list fuel (item_decode fuel) d \<noteq> None"
  proof (cases "decode_header d")
    case (Ok h)
    then obtain offset len is_data where h: "decode_header d = Ok (offset, len, is_data)"
      by (cases h) auto
    let ?e = "wrap64 (dec_position d + offset + len)"
    have "decode_loop fuel (item_decode fuel) ?e []
        (d\<lparr>dec_position := dec_position d + offset\<rparr>) \<noteq> None"
      if "\<not> is_data" "?e \<le> length (dec_data d)"
      using h Suc that by (intro wrapped_end_ends [OF forward_item_decode]) auto
    with h show ?thesis
      by (cases is_data) (auto simp: decode_list_def Let_def not_less split: option.splits result.splits)
  qed (simp_all add: decode_list_def)
  then show ?case by (auto split: result.splits)
qed simp

subsection \<open>Round trip of items\<close>

fun item_valid :: "RlpItem \<Rightarrow> bool" where
  "item_valid (RlpString bs) = (length bs < 2 ^ 32)"
| "item_valid (RlpList items) =
     ((\<forall>x\<in>set items. item_valid x) \<and> length (concat (map (encode_item []) items)) < 2 ^ 32)"

fun item_fuel :: "RlpItem \<Rightarrow> nat" where
  "item_fuel (RlpString bs) = 1"
| "item_fuel (RlpList items) = 2 + length items + sum_list (map item_fuel items)"

lemma item_fuel_le: "x \<in> set items \<Longrightarrow> item_fuel x \<le> sum_list (map item_fuel items)"
  by (simp add: member_le_sum_list)

lemma encode_item_nonempty: "encode_item [] x \<noteq> []"
  by (cases x) (simp_all add: encode_list_def Let_def)

lemma hd_encode_bytes: "length bs < 2 ^ 32 \<Longrightarrow> hd (encode_bytes [] bs) < 0xc0"
  using decode_encode_length(3) [of "length bs"]
  by (auto simp: encode_bytes_def Let_def word_less_nat_alt unat_prefix hd_conv_nth)

lemma hd_encode_list:
  "length (concat (map (encode_item []) xs)) < 2 ^ 32 \<Longrightarrow> 0xc0 \<le> hd (encode_list encode_item [] xs)"
  using encode_list_shape [of xs encode_item] appendsD [OF appends_item] by (metis hd_append2)

lemma is_list_cursor: "xs \<noteq> [] \<Longrightarrow> is_list (cursor pre (xs @ rest)) = Ok (0xc0 \<le> hd xs)"
  by (cases xs) (simp_all add: is_list_def nth_append)

lemma item_decode_encode:
  "item_valid x \<Longrightarrow> item_fuel x \<le> fuel \<Longrightarrow> length pre + length (encode_item [] x) \<le> usize_max \<Longrightarrow>
   item_decode fuel (cursor pre (encode_item [] x @ rest)) =
     Some (Ok x, cursor (pre @ encode_item [] x) rest)"
proof (induction x arbitrary: fuel pre rest)
  case (RlpString bs)
  then obtain f where "fuel = Suc f" by (cases fuel) auto
  then show ?case
    using RlpString.prems hd_encode_bytes [of bs]
    by (simp add: is_list_cursor and_then_encode_bytes not_le)
next
  case (RlpList xs)
  then obtain f where f: "fuel = Suc f" "1 + length xs + sum_list (map item_fuel xs) \<le> f"
    by (cases fuel) auto
  have "decode_list f (item_decode f) (cursor pre (encode_list encode_item [] xs @ rest)) =
      Some (Ok xs, cursor (pre @ encode_list encode_item [] xs) rest)"
  proof (rule decode_encode_list)
    show "encode_item buf x = buf @ encode_item [] x" for buf x
      by (rule appendsD [OF appends_item])
    show "item_decode f (cursor pre (encode_item [] x @ rest)) =
        Some (Ok x, cursor (pre @ encode_item [] x) rest)"
      if "x \<in> set xs" "length pre + length (encode_item [] x) \<le> usize_max" for x pre rest
      using that RlpList.prems(1) f(2) item_fuel_le [OF that(1)] by (intro RlpList.IH) auto
  qed (use RlpList.prems f(2) in \<open>auto simp: encode_item_nonempty\<close>)
  then show ?case
    using f(1) RlpList.prems(1) hd_encode_list [of xs] encode_item_nonempty [of "RlpList xs"]
    by (simp add: is_list_cursor)
qed

subsection \<open>Lengths of encodings\<close>

lemma length_encode_bytes:
  "length bs < 2 ^ 32 \<Longrightarrow> length (encode_bytes [] bs) \<le> length bs + 5"
  using decode_encode_length(3) [of "length bs"] by (auto simp: encode_bytes_def Let_def)

lemma length_strip_zeros: "length (strip_zeros bs) \<le> length bs"
  by (simp add: strip_zeros_def length_dropWhile_le)

lemma length_encode_fixed: "length bs \<le> 256 \<Longrightarrow> length (encode_bytes [] bs) \<le> 261"
  using length_encode_bytes [of bs] by simp

lemma length_encode_stripped: "n \<le> 256 \<Longrightarrow> length (encode_bytes [] (strip_zeros (to_be n v))) \<le> 261"
  using length_strip_zeros [of "to_be n v"] by (intro length_encode_fixed) simp

lemma scalar_lengths:
  "length (rlp_encode encode_u8 a) \<le> 261" "length (rlp_encode encode_u16 b) \<le> 261"
  "length (rlp_encode encode_u32 c) \<le> 261" "length (rlp_encode encode_u64 d) \<le> 261"
  "length (rlp_encode encode_u256 e) \<le> 261" "length (rlp_encode encode_bool f) \<le> 261"
  "length (rlp_encode encode_address g) \<le> 261" "length (rlp_encode encode_h256 h) \<le> 261"
  "length (rlp_encode encode_bloom i) \<le> 261"
  by (simp_all add: rlp_encode_def encoder_new_def encode_u8_def encode_u16_def encode_u32_def
      encode_u64_def encode_u256_def encode_bool_def encode_address_def encode_h256_def
      encode_bloom_def length_encode_fixed length_encode_stripped)

lemma fits_usize: "n \<le> 261 \<Longrightarrow> n \<le> usize_max"
  by simp

end
