(* ===== verification/Rlp_Properties.thy ===== *)
theory Rlp_Properties
  imports Rlp_Items
begin

text \<open>
  The properties of the RLP crate.
\<close>

subsection \<open>Round trips\<close>

text \<open>
  C24: every integer, boolean, hash, address and bloom filter decodes to itself, whatever its value.
\<close>

theorem rlp_scalars_roundtrip:
  "rlp_decode decode_u8 (rlp_encode encode_u8 a) = Ok a \<and>
   rlp_decode decode_u16 (rlp_encode encode_u16 b) = Ok b \<and>
   rlp_decode decode_u32 (rlp_encode encode_u32 c) = Ok c \<and>
   rlp_decode decode_u64 (rlp_encode encode_u64 d) = Ok d \<and>
   rlp_decode decode_u256 (rlp_encode encode_u256 e) = Ok e \<and>
   rlp_decode decode_bool (rlp_encode encode_bool f) = Ok f \<and>
   rlp_decode decode_address (rlp_encode encode_address g) = Ok g \<and>
   rlp_decode decode_h256 (rlp_encode encode_h256 h) = Ok h \<and>
   rlp_decode decode_bloom (rlp_encode encode_bloom i) = Ok i"
  by (intro conjI u8_codec.decode_encode u16_codec.decode_encode u32_codec.decode_encode
      u64_codec.decode_encode u256_codec.decode_encode bool_codec.decode_encode
      address_codec.decode_encode h256_codec.decode_encode bloom_codec.decode_encode
      TrueI fits_usize scalar_lengths)

text \<open>
  C3: an item of strings and nested lists, each shorter than 4 GiB, decodes to itself wherever it
  stands in a message: decoding at its first byte gives the item and leaves the decoder at the first
  byte behind it.  Fuel for the nesting of the item is enough.
\<close>

theorem rlp_item_roundtrip:
  assumes "item_valid x" and "item_fuel x \<le> fuel"
    and "length pre + length (encode_item [] x) \<le> usize_max"
  shows "item_decode fuel (cursor pre (encode_item [] x @ rest)) =
    Some (Ok x, cursor (pre @ encode_item [] x) rest)"
  using assms by (rule item_decode_encode)

theorem rlp_item_roundtrip_witness:
  "item_decode 7 (cursor [1] [0xc2, 0x05, 0xc0]) =
     Some (Ok (RlpList [RlpString [5], RlpList []]), cursor [1, 0xc2, 0x05, 0xc0] [])"
  using rlp_item_roundtrip [of "RlpList [RlpString [5], RlpList []]" 7 "[1]" "[]"]
  by (simp add: encode_list_def encode_bytes_def encoder_new_def)

text \<open>
  C25: no encoding of a byte string is a prefix of another one: two streams that begin with an
  encoding agree only if they begin with the same string.
\<close>

theorem rlp_bytes_prefix_free:
  assumes "length x < 2 ^ 32" and "length y < 2 ^ 32"
    and "encode_bytes [] x @ r = encode_bytes [] y @ r'"
  shows "x = y \<and> r = r'"
  using assms length_encode_bytes [of x] length_encode_bytes [of y]
  by (intro bytes_codec.prefix_free) simp_all

theorem rlp_bytes_prefix_free_witness:
  "[7 :: u8] = [7] \<and> [1 :: u8] = [1]"
  by (rule rlp_bytes_prefix_free) simp_all

subsection \<open>Termination\<close>

text \<open>
  C26: decoding an item ends on every input, well formed or not: one unit of fuel more than the
  input has bytes is enough for both item decoders.
\<close>

theorem rlp_decoding_ends:
  "item_decode (Suc (length bs)) (decoder_new bs) \<noteq> None \<and>
   decode_item (Suc (length bs)) (decoder_new bs) \<noteq> None"
  by (intro conjI item_decode_ends decode_item_ends) (simp_all add: left_def decoder_new_def)

subsection \<open>Malformed and borderline input\<close>

text \<open>
  Headers with eight length bytes, the only ones whose length can make the sum of position and
  length wrap.
\<close>

lemma header_eight:
  assumes "length bs = 8" and "hd bs \<noteq> 0"
  shows "decode_header (cursor pre (0xbf # bs @ rest)) = Ok (9, be_nat bs, True)"
    and "decode_header (cursor pre (0xff # bs @ rest)) = Ok (9, be_nat bs, False)"
proof -
  have "bs \<noteq> []" using assms(1) by auto
  then have l: "decode_length bs = Ok (be_nat bs)" using assms by (simp add: decode_length_be_nat)
  show "decode_header (cursor pre (0xbf # bs @ rest)) = Ok (9, be_nat bs, True)"
    "decode_header (cursor pre (0xff # bs @ rest)) = Ok (9, be_nat bs, False)"
    using assms(1) l by (simp_all add: decode_header_def Let_def nth_append slice_def)
qed

lemma wrapped_end:
  assumes "length bs = 8" and "pos \<le> isize_max"
  shows "2 ^ 64 \<le> pos + be_nat bs \<Longrightarrow> wrap64 (pos + be_nat bs) < pos"
    and "\<not> 2 ^ 64 \<le> pos + be_nat bs \<Longrightarrow> wrap64 (pos + be_nat bs) = pos + be_nat bs"
proof -
  have b: "be_nat bs < 2 ^ 64" using be_nat_bound [of bs] assms(1) by simp
  show "wrap64 (pos + be_nat bs) < pos" if "2 ^ 64 \<le> pos + be_nat bs"
    using that b assms(2) by (simp add: wrap64_def le_mod_geq)
  show "wrap64 (pos + be_nat bs) = pos + be_nat bs" if "\<not> 2 ^ 64 \<le> pos + be_nat bs"
    using that by (simp add: wrap64_def)
qed

text \<open>
  C27: what the decoder does, at every position of its input, with headers that no encoder produces.
  A string header with eight length bytes makes the slice panic exactly when the sum of the position
  after the header and the announced length wraps; a list header for which it wraps is accepted by
  \<^verbatim>\<open>decode_item\<close> as the empty list, and the cursor is left after the header; and a one-byte string
  in the long form is accepted for every byte, although the encoder writes a byte below \<open>0x80\<close> as
  itself.
\<close>

theorem rlp_malformed_input:
  assumes "length bs = 8" and "hd bs \<noteq> 0" and "length pre + 9 + length rest \<le> isize_max"
  shows "(fst (decode_bytes (cursor pre (0xbf # bs @ rest))) = Panic \<longleftrightarrow>
      2 ^ 64 \<le> length pre + 9 + be_nat bs) \<and>
    (2 ^ 64 \<le> length pre + 9 + be_nat bs \<longrightarrow>
      decode_item (Suc (Suc fuel)) (cursor pre (0xff # bs @ rest)) =
        Some (Ok (RlpList []), cursor (pre @ 0xff # bs) rest)) \<and>
    decode_bytes (cursor pre ([0x81, b] @ rest)) = (Ok [b], cursor (pre @ [0x81, b]) rest) \<and>
    (b < 0x80 \<longrightarrow> rlp_encode encode_bytes [b] = [b])"
proof (intro conjI impI)
  let ?pos = "length pre + 9"
  have pos: "?pos \<le> isize_max" using assms(3) by simp
  note wrap = wrapped_end [OF assms(1) pos]
  note h = header_eight [OF assms(1,2)]
  show "fst (decode_bytes (cursor pre (0xbf # bs @ rest))) = Panic \<longleftrightarrow> 2 ^ 64 \<le> ?pos + be_nat bs"
  proof (cases "2 ^ 64 \<le> ?pos + be_nat bs")
    case True
    with wrap(1) show ?thesis
      using assms(1) unfolding decode_bytes_def h by (simp add: slice_def Let_def)
  next
    case False
    then show ?thesis
      unfolding decode_bytes_def h by (simp add: wrap(2) slice_def Let_def)
  qed
  assume "2 ^ 64 \<le> ?pos + be_nat bs"
  with wrap(1) show "decode_item (Suc (Suc fuel)) (cursor pre (0xff # bs @ rest)) =
      Some (Ok (RlpList []), cursor (pre @ 0xff # bs) rest)"
    using assms(1) unfolding decode_item.simps(2) [of "Suc fuel"] h
    by (simp add: Let_def cursor_def)
next
  have w: "wrap64 (Suc (Suc (length pre))) = Suc (Suc (length pre))"
    using assms(3) by (simp add: wrap64_def)
  show "decode_bytes (cursor pre ([0x81, b] @ rest)) = (Ok [b], cursor (pre @ [0x81, b]) rest)"
    using w by (simp add: decode_bytes_def decode_header_def Let_def nth_append slice_def cursor_def)
next
  assume "b < 0x80"
  then show "rlp_encode encode_bytes [b] = [b]"
    by (simp add: rlp_encode_def encode_bytes_def encoder_new_def)
qed

theorem rlp_malformed_input_witness:
  "fst (decode_bytes (cursor [1, 2] (0xbf # replicate 8 0xff))) = Panic \<and>
   fst (decode_bytes (cursor [1, 2] (0xbf # 1 # replicate 7 0))) \<noteq> Panic \<and>
   decode_item (Suc (Suc 0)) (cursor [1, 2] (0xff # replicate 8 0xff)) =
     Some (Ok (RlpList []), cursor (1 # 2 # 0xff # replicate 8 0xff) []) \<and>
   fst (decode_bytes (cursor [1, 2] [0x81, 5])) = Ok [5] \<and> rlp_encode encode_bytes [5] = [5]"
proof -
  have r: "replicate 8 (0xff :: u8) = [0xff, 0xff, 0xff, 0xff, 0xff, 0xff, 0xff, 0xff]"
    "replicate 7 (0 :: u8) = [0, 0, 0, 0, 0, 0, 0]"
    by (simp_all add: numeral_eq_Suc)
  have n: "be_nat (replicate 8 0xff) = 2 ^ 64 - 1" "be_nat (1 # replicate 7 0) = 2 ^ 56"
    by (simp_all add: r be_nat_def)
  show ?thesis
    using rlp_malformed_input [of "replicate 8 0xff" "[1, 2]" "[]" 0 5]
      rlp_malformed_input [of "1 # replicate 7 0" "[1, 2]" "[]" 0 5]
    by (simp add: n del: decode_item.simps)
qed

text \<open>
  C28: two encodings that do not round-trip.  A \<^verbatim>\<open>Some(0)\<close> of an integer type shares its encoding with
  \<^verbatim>\<open>None\<close> and decodes to it; and a length of \<open>2 ^ 32\<close> or more is written with its low four bytes only,
  so the header does not announce the length of what follows.
\<close>

theorem rlp_lossy_encodings:
  "rlp_decode (decode_option decode_u64) (rlp_encode (encode_option encode_u64) (Some 0)) = Ok None \<and>
   be_nat (encode_length (2 ^ 32 + n)) = n mod 2 ^ 32"
proof
  show "rlp_decode (decode_option decode_u64) (rlp_encode (encode_option encode_u64) (Some 0)) = Ok None"
    by (simp add: rlp_decode_def rlp_encode_def encoder_new_def encode_option_def encode_u64_def
        encode_bytes_def decode_option_def is_empty_string_def decoder_new_def and_then_def
        decode_bytes_def decode_header_def wrap64_def slice_def)
next
  let ?len = "2 ^ 32 + n"
  have d: "encode_length ?len = be_digits (Suc (Suc (Suc (Suc 0)))) ?len"
    by (simp add: encode_length_def of_nat_mod_u8 div_mult2_eq [symmetric])
  show "be_nat (encode_length ?len) = n mod 2 ^ 32"
    unfolding d be_nat_be_digits by simp
qed

end
