(* ===== verification/Storage.thy ===== *)
theory Storage
  imports Prelude "HOL-Library.List_Lexorder" "HOL-Library.Sublist"
begin

text \<open>
  The storage crate, \<^verbatim>\<open>crates/storage/src\<close>: the key layout of \<^verbatim>\<open>lib.rs\<close>, the in-memory database of
  \<^verbatim>\<open>memory.rs\<close> and, as the locale \<open>database\<close>, the contract of the trait \<^verbatim>\<open>Database\<close> of \<^verbatim>\<open>traits.rs\<close>.

  The \<^verbatim>\<open>BTreeMap\<close> behind the in-memory database is an association list with strictly ascending keys,
  the order in which its iterators visit the entries; keys are byte strings in lexicographic order.
  The operations of the trait take \<^verbatim>\<open>&self\<close> and change the map behind a lock, so they return the
  changed map; a poisoned lock is not modelled.
\<close>

subsection \<open>Keys\<close>

datatype StorageError =
    DbKeyNotFound
  | DatabaseError string
  | SerializationError string
  | DbInvalidData string
  | IoError string

type_synonym KeyValue = "bytes \<times> bytes"

datatype KeyPrefix =
    Header | Body | Receipt | State | Code | Transaction | CanonicalHash | TotalDifficulty

fun as_byte :: "KeyPrefix \<Rightarrow> u8" where
  "as_byte Header = 0x00"
| "as_byte Body = 0x01"
| "as_byte Receipt = 0x02"
| "as_byte State = 0x03"
| "as_byte Code = 0x04"
| "as_byte Transaction = 0x05"
| "as_byte CanonicalHash = 0x06"
| "as_byte TotalDifficulty = 0x07"

definition make_key :: "KeyPrefix \<Rightarrow> bytes \<Rightarrow> bytes" where
  "make_key p sfx = as_byte p # sfx"

definition header_key :: "H256 \<Rightarrow> bytes" where
  "header_key block_hash = make_key Header (to_be 32 block_hash)"

definition body_key :: "H256 \<Rightarrow> bytes" where
  "body_key block_hash = make_key Body (to_be 32 block_hash)"

definition receipt_key :: "H256 \<Rightarrow> bytes" where
  "receipt_key block_hash = make_key Receipt (to_be 32 block_hash)"

definition canonical_hash_key :: "u64 \<Rightarrow> bytes" where
  "canonical_hash_key block_number = make_key CanonicalHash (to_be 8 block_number)"

definition total_difficulty_key :: "H256 \<Rightarrow> bytes" where
  "total_difficulty_key block_hash = make_key TotalDifficulty (to_be 32 block_hash)"

definition state_key :: "bytes \<Rightarrow> H256 \<Rightarrow> bytes" where
  "state_key address key = [as_byte State] @ address @ to_be 32 key"

definition code_key :: "H256 \<Rightarrow> bytes" where
  "code_key code_hash = make_key Code (to_be 32 code_hash)"

subsection \<open>The in-memory database\<close>

type_synonym MemoryDatabase = "KeyValue list"

definition memory_db_new :: MemoryDatabase where
  "memory_db_new = []"

definition memory_db_len :: "MemoryDatabase \<Rightarrow> nat" where
  "memory_db_len db = length db"

definition memory_db_is_empty :: "MemoryDatabase \<Rightarrow> bool" where
  "memory_db_is_empty db \<longleftrightarrow> db = []"

definition memory_db_clear :: "MemoryDatabase \<Rightarrow> MemoryDatabase" where
  "memory_db_clear db = []"

text \<open>\<^verbatim>\<open>insert\<close> and \<^verbatim>\<open>remove\<close> of the \<^verbatim>\<open>BTreeMap\<close>.\<close>

fun btree_insert :: "'k::linorder \<Rightarrow> 'v \<Rightarrow> ('k \<times> 'v) list \<Rightarrow> ('k \<times> 'v) list" where
  "btree_insert k v [] = [(k, v)]"
| "btree_insert k v ((k', v') # rest) =
     (if k < k' then (k, v) # (k', v') # rest
      else if k = k' then (k, v) # rest
      else (k', v') # btree_insert k v rest)"

definition btree_remove :: "'k::linorder \<Rightarrow> ('k \<times> 'v) list \<Rightarrow> ('k \<times> 'v) list" where
  "btree_remove k m = filter (\<lambda>(k', _). k' \<noteq> k) m"

type_synonym 'a DbResult = "(StorageError, 'a) result"

definition db_get :: "MemoryDatabase \<Rightarrow> bytes \<Rightarrow> bytes option DbResult" where
  "db_get db key = Ok (map_of db key)"

definition db_put :: "MemoryDatabase \<Rightarrow> bytes \<Rightarrow> bytes \<Rightarrow> MemoryDatabase DbResult" where
  "db_put db key v = Ok (btree_insert key v db)"

definition db_delete :: "MemoryDatabase \<Rightarrow> bytes \<Rightarrow> MemoryDatabase DbResult" where
  "db_delete db key = Ok (btree_remove key db)"

definition db_contains :: "MemoryDatabase \<Rightarrow> bytes \<Rightarrow> bool DbResult" where
  "db_contains db key = map_ok (\<lambda>r. r \<noteq> None) (db_get db key)"

subsection \<open>Batches\<close>

datatype BatchOp = Put bytes bytes | Delete bytes

text \<open>
  A boxed \<^verbatim>\<open>dyn WriteBatch\<close> is a \<^verbatim>\<open>MemoryBatch\<close> or a batch of another database; the downcast in
  \<^verbatim>\<open>write_batch\<close> tells them apart.
\<close>

datatype WriteBatch = MemoryBatch "BatchOp list" | ForeignBatch

definition db_batch :: WriteBatch where
  "db_batch = MemoryBatch []"

fun batch_put :: "WriteBatch \<Rightarrow> bytes \<Rightarrow> bytes \<Rightarrow> WriteBatch" where
  "batch_put (MemoryBatch ops) key v = MemoryBatch (ops @ [Put key v])"
| "batch_put ForeignBatch key v = ForeignBatch"

fun batch_delete :: "WriteBatch \<Rightarrow> bytes \<Rightarrow> WriteBatch" where
  "batch_delete (MemoryBatch ops) key = MemoryBatch (ops @ [Delete key])"
| "batch_delete ForeignBatch key = ForeignBatch"

fun batch_clear :: "WriteBatch \<Rightarrow> WriteBatch" where
  "batch_clear (MemoryBatch ops) = MemoryBatch []"
| "batch_clear ForeignBatch = ForeignBatch"

definition batch_len :: "BatchOp list \<Rightarrow> nat" where
  "batch_len ops = length ops"

definition batch_is_empty :: "BatchOp list \<Rightarrow> bool" where
  "batch_is_empty ops \<longleftrightarrow> batch_len ops = 0"

fun apply_op :: "MemoryDatabase \<Rightarrow> BatchOp \<Rightarrow> MemoryDatabase" where
  "apply_op db (Put key v) = btree_insert key v db"
| "apply_op db (Delete key) = btree_remove key db"

definition write_batch :: "MemoryDatabase \<Rightarrow> WriteBatch \<Rightarrow> MemoryDatabase DbResult" where
  "write_batch db batch =
     (case batch of
        MemoryBatch ops \<Rightarrow> Ok (foldl apply_op db ops)
      | ForeignBatch \<Rightarrow> Err (DbInvalidData ''Invalid batch type''))"

subsection \<open>Iterators\<close>

record MemoryIterator =
  it_entries :: "KeyValue list"
  it_position :: nat

definition iterator_new :: "KeyValue list \<Rightarrow> MemoryIterator" where
  "iterator_new entries = \<lparr>it_entries = entries, it_position = 0\<rparr>"

definition db_iter :: "MemoryDatabase \<Rightarrow> MemoryIterator" where
  "db_iter db = iterator_new db"

definition iter_from :: "MemoryDatabase \<Rightarrow> bytes \<Rightarrow> MemoryIterator" where
  "iter_from db start_key = iterator_new (filter (\<lambda>(k, _). start_key \<le> k) db)"

definition iter_prefix :: "MemoryDatabase \<Rightarrow> bytes \<Rightarrow> MemoryIterator" where
  "iter_prefix db pre = iterator_new (filter (\<lambda>(k, _). prefix pre k) db)"

definition iter_next :: "MemoryIterator \<Rightarrow> KeyValue DbResult option \<times> MemoryIterator" where
  "iter_next it =
     (if it_position it < length (it_entries it)
      then (Some (Ok (it_entries it ! it_position it)), it\<lparr>it_position := Suc (it_position it)\<rparr>)
      else (None, it))"

text \<open>\<^verbatim>\<open>position(p).unwrap_or(len)\<close>: the number of entries in front of the first one with \<open>p\<close>.\<close>

definition position_or_len :: "('a \<Rightarrow> bool) \<Rightarrow> 'a list \<Rightarrow> nat" where
  "position_or_len p xs = length (takeWhile (\<lambda>x. \<not> p x) xs)"

definition iter_seek :: "MemoryIterator \<Rightarrow> bytes \<Rightarrow> KeyValue DbResult option \<times> MemoryIterator" where
  "iter_seek it key =
     iter_next (it\<lparr>it_position := position_or_len (\<lambda>(k, _). key \<le> k) (it_entries it)\<rparr>)"

text \<open>\<^verbatim>\<open>while let Some(Ok(entry)) = iter.next()\<close>: what a client collects from an iterator.\<close>

function drain :: "MemoryIterator \<Rightarrow> KeyValue list" where
  "drain it =
     (case iter_next it of
        (Some (Ok entry), it') \<Rightarrow> entry # drain it'
      | _ \<Rightarrow> [])"
  by pat_completeness auto

termination
  by (relation "measure (\<lambda>it. length (it_entries it) - it_position it)")
    (auto simp: iter_next_def split: if_splits)

declare drain.simps [simp del]

subsection \<open>The ordered association list is a map\<close>

definition ascending :: "('k::linorder \<times> 'v) list \<Rightarrow> bool" where
  "ascending m \<longleftrightarrow> sorted_wrt (<) (map fst m)"

lemma ascending_simps [simp]:
  "ascending []"
  "ascending ((k, v) # m) \<longleftrightarrow> (\<forall>k' \<in> fst ` set m. k < k') \<and> ascending m"
  by (auto simp: ascending_def)

lemma ascending_filter: "ascending m \<Longrightarrow> ascending (filter P m)"
  by (induction m) auto

lemma ascending_distinct: "ascending m \<Longrightarrow> distinct (map fst m)"
  by (simp add: ascending_def strict_sorted_iff)

lemma keys_btree_insert [simp]: "fst ` set (btree_insert k v m) = insert k (fst ` set m)"
  by (induction k v m rule: btree_insert.induct) auto

lemma ascending_btree_insert: "ascending m \<Longrightarrow> ascending (btree_insert k v m)"
  by (induction k v m rule: btree_insert.induct) auto

lemma ascending_btree_remove: "ascending m \<Longrightarrow> ascending (btree_remove k m)"
  unfolding btree_remove_def by (rule ascending_filter)

lemma map_of_btree_insert: "map_of (btree_insert k v m) = (map_of m)(k \<mapsto> v)"
  by (induction k v m rule: btree_insert.induct) auto

lemma map_of_btree_remove: "map_of (btree_remove k m) = (map_of m)(k := None)"
  by (induction m) (auto simp: btree_remove_def)

lemma length_btree_insert:
  assumes "ascending m"
  shows "length (btree_insert k v m) = (if map_of m k = None then Suc (length m) else length m)"
  using assms by (induction k v m rule: btree_insert.induct) (force dest!: map_of_SomeD)+

subsection \<open>The contract of the trait\<close>

text \<open>
  What a client of the trait relies on: the database stands for a map from keys to values, its
  operations do not fail on a healthy store, and each of them changes the map at its key only.
\<close>

locale database =
  fixes inv :: "'db \<Rightarrow> bool"
    and contents :: "'db \<Rightarrow> bytes \<rightharpoonup> bytes"
    and get :: "'db \<Rightarrow> bytes \<Rightarrow> bytes option DbResult"
    and put :: "'db \<Rightarrow> bytes \<Rightarrow> bytes \<Rightarrow> 'db DbResult"
    and delete :: "'db \<Rightarrow> bytes \<Rightarrow> 'db DbResult"
  assumes get_contents: "inv db \<Longrightarrow> get db k = Ok (contents db k)"
    and put_contents: "inv db \<Longrightarrow> \<exists>db'. put db k v = Ok db' \<and> inv db' \<and> contents db' = (contents db)(k \<mapsto> v)"
    and delete_contents: "inv db \<Longrightarrow> \<exists>db'. delete db k = Ok db' \<and> inv db' \<and> contents db' = (contents db)(k := None)"
begin

lemma get_put:
  assumes "inv db" and "put db k v = Ok db'"
  shows "get db' k' = (if k' = k then Ok (Some v) else get db k')"
proof -
  from put_contents [OF assms(1), of k v] assms(2) have "inv db'" and "contents db' = (contents db)(k \<mapsto> v)"
    by auto
  with assms(1) show ?thesis by (simp add: get_contents)
qed

lemma get_delete:
  assumes "inv db" and "delete db k = Ok db'"
  shows "get db' k' = (if k' = k then Ok None else get db k')"
proof -
  from delete_contents [OF assms(1), of k] assms(2) have "inv db'" and "contents db' = (contents db)(k := None)"
    by auto
  with assms(1) show ?thesis by (simp add: get_contents)
qed

end

interpretation memory_db: database ascending map_of db_get db_put db_delete
  by unfold_locales
    (auto simp: db_get_def db_put_def db_delete_def ascending_btree_insert ascending_btree_remove
      map_of_btree_insert map_of_btree_remove)

subsection \<open>Batches are sequences of operations\<close>

fun op_effect :: "(bytes \<rightharpoonup> bytes) \<Rightarrow> BatchOp \<Rightarrow> (bytes \<rightharpoonup> bytes)" where
  "op_effect m (Put key v) = m(key \<mapsto> v)"
| "op_effect m (Delete key) = m(key := None)"

lemma map_of_apply_op [simp]: "map_of (apply_op db op) = op_effect (map_of db) op"
  by (cases op) (auto simp: map_of_btree_insert map_of_btree_remove)

lemma ascending_apply_op: "ascending db \<Longrightarrow> ascending (apply_op db op)"
  by (cases op) (auto simp: ascending_btree_insert ascending_btree_remove)

lemma map_of_apply_ops: "map_of (foldl apply_op db ops) = foldl op_effect (map_of db) ops"
  by (induction ops arbitrary: db) auto

lemma ascending_apply_ops: "ascending db \<Longrightarrow> ascending (foldl apply_op db ops)"
  by (induction ops arbitrary: db) (auto simp: ascending_apply_op)

fun op_key :: "BatchOp \<Rightarrow> bytes" where
  "op_key (Put key v) = key"
| "op_key (Delete key) = key"

lemma op_effect_other: "op_key op \<noteq> k \<Longrightarrow> op_effect m op k = m k"
  by (cases op) auto

lemma ops_effect_other: "k \<notin> op_key ` set ops \<Longrightarrow> foldl op_effect m ops k = m k"
  by (induction ops arbitrary: m) (auto simp: op_effect_other)

subsection \<open>Iteration\<close>

lemma drain_drop: "drain it = drop (it_position it) (it_entries it)"
proof (induction it rule: drain.induct)
  case (1 it)
  then show ?case
    by (subst drain.simps) (auto simp: iter_next_def Cons_nth_drop_Suc)
qed

lemma drain_new [simp]: "drain (iterator_new xs) = xs"
  by (simp add: drain_drop iterator_new_def)

lemma dropWhile_ascending:
  "ascending m \<Longrightarrow> dropWhile (\<lambda>(k, _). \<not> key \<le> k) m = filter (\<lambda>(k, _). key \<le> k) m"
proof (induction m)
  case (Cons e m)
  then show ?case
    by (cases e) (auto simp: filter_id_conv intro!: filter_True [symmetric] dest: order_trans less_imp_le)
qed simp

lemma drop_position_or_len: "drop (position_or_len p xs) xs = dropWhile (\<lambda>x. \<not> p x) xs"
  by (simp add: position_or_len_def dropWhile_eq_drop)

lemma find_filter: "find p xs = (if filter p xs = [] then None else Some (filter p xs ! 0))"
  by (induction xs) auto

lemma iter_seek_spec:
  assumes "ascending (it_entries it)"
  shows "fst (iter_seek it key) = map_option Ok (find (\<lambda>(k, _). key \<le> k) (it_entries it))"
    and "drain (snd (iter_seek it key)) = tl (filter (\<lambda>(k, _). key \<le> k) (it_entries it))"
proof -
  let ?p = "\<lambda>(k, _). key \<le> (k :: bytes)" and ?xs = "it_entries it"
  let ?n = "position_or_len ?p ?xs"
  have d: "drop ?n ?xs = filter ?p ?xs"
    using dropWhile_ascending [OF assms, of key] by (simp add: drop_position_or_len case_prod_unfold)
  have f: "find ?p ?xs = (if drop ?n ?xs = [] then None else Some (drop ?n ?xs ! 0))"
    unfolding d by (rule find_filter)
  show "fst (iter_seek it key) = map_option Ok (find ?p ?xs)"
    unfolding f by (auto simp: iter_seek_def iter_next_def)
  show "drain (snd (iter_seek it key)) = tl (filter ?p ?xs)"
    unfolding d [symmetric] by (auto simp: iter_seek_def iter_next_def drain_drop drop_Suc tl_drop)
qed

end
