(* ===== verification/Storage_Properties.thy ===== *)
theory Storage_Properties
  imports Storage
begin

text \<open>
  The properties of the storage crate.
\<close>

subsection \<open>The key layout\<close>

lemma to_be_inject:
  assumes "LENGTH('a) = 8 * n"
  shows "to_be n (v :: 'a::len word) = to_be n w \<longleftrightarrow> v = w"
  using from_be_to_be [OF assms] by metis

lemma as_byte_inject [simp]: "as_byte p = as_byte q \<longleftrightarrow> p = q"
  by (cases p; cases q) simp_all

lemma make_key_inject [simp]: "make_key p s = make_key q t \<longleftrightarrow> p = q \<and> s = t"
  by (auto simp: make_key_def)

lemma state_key_make_key: "state_key a k = make_key State (a @ to_be 32 k)"
  by (simp add: state_key_def make_key_def)

lemmas key_defs =
  header_key_def body_key_def receipt_key_def canonical_hash_key_def total_difficulty_key_def
  code_key_def state_key_make_key

text \<open>
  C29: database keys of different kinds never collide, whatever hashes, number and address they are
  made of, and within a kind two keys agree only for the same hash, number, or address and slot,
  provided that addresses have one length.
\<close>

theorem storage_keys_separate:
  assumes "length a = length b"
  shows "(header_key g = header_key h \<longleftrightarrow> g = h) \<and>
    (body_key g = body_key h \<longleftrightarrow> g = h) \<and>
    (receipt_key g = receipt_key h \<longleftrightarrow> g = h) \<and>
    (code_key g = code_key h \<longleftrightarrow> g = h) \<and>
    (total_difficulty_key g = total_difficulty_key h \<longleftrightarrow> g = h) \<and>
    (canonical_hash_key m = canonical_hash_key n \<longleftrightarrow> m = n) \<and>
    (state_key a g = state_key b h \<longleftrightarrow> a = b \<and> g = h) \<and>
    (\<forall>h1 h2 h3 h4 h5 number address slot.
      distinct [header_key h1, body_key h2, receipt_key h3, code_key h4, total_difficulty_key h5,
        canonical_hash_key number, state_key address slot])"
  using assms by (simp add: key_defs to_be_inject)

theorem storage_keys_separate_witness:
  "state_key (replicate 20 0) 5 \<noteq> state_key (replicate 20 0) 6 \<and> header_key 7 \<noteq> body_key 8 \<and>
   header_key 7 \<noteq> header_key 8 \<and> canonical_hash_key 7 \<noteq> state_key (replicate 20 1) 9"
  using storage_keys_separate [of "replicate 20 0" "replicate 20 0" 5 6]
    storage_keys_separate [of "replicate 20 0" "replicate 20 0" 7 8] by simp

subsection \<open>The in-memory database\<close>

text \<open>
  C4: the in-memory database implements a partial map: on a database with ascending keys every
  operation succeeds, keeps the order, and has on the map from keys to values the effect that its
  name promises; a batch has the effect of its operations in the order they were added, so the last
  one at a key wins, and a batch of another database is refused.
\<close>

theorem memory_db_refines_map:
  assumes "ascending db"
  shows "db_get db k = Ok (map_of db k) \<and>
    db_contains db k = Ok (k \<in> dom (map_of db)) \<and>
    (\<exists>db'. db_put db k v = Ok db' \<and> ascending db' \<and> map_of db' = (map_of db)(k \<mapsto> v) \<and>
      memory_db_len db' = card (insert k (dom (map_of db)))) \<and>
    (\<exists>db'. db_delete db k = Ok db' \<and> ascending db' \<and> map_of db' = (map_of db)(k := None)) \<and>
    (\<exists>db'. write_batch db (MemoryBatch ops) = Ok db' \<and> ascending db' \<and>
      map_of db' = foldl op_effect (map_of db) ops) \<and>
    write_batch db ForeignBatch = Err (DbInvalidData ''Invalid batch type'')"
proof -
  let ?db' = "btree_insert k v db"
  have asc: "ascending ?db'" using assms by (rule ascending_btree_insert)
  have "memory_db_len ?db' = card (set (map fst ?db'))"
    using ascending_distinct [OF asc] distinct_card [of "map fst ?db'"] by (simp add: memory_db_len_def)
  then have len: "memory_db_len ?db' = card (insert k (dom (map_of db)))"
    by (simp add: dom_map_of_conv_image_fst)
  show ?thesis
    using asc len assms
    by (auto simp: db_contains_def db_get_def db_put_def db_delete_def write_batch_def
        map_of_btree_insert map_of_btree_remove ascending_btree_remove map_of_apply_ops
        ascending_apply_ops)
qed

theorem memory_db_refines_map_witness:
  "\<exists>db'. write_batch [([1], [2])] (MemoryBatch [Put [0] [9], Delete [1], Put [0] [8]]) = Ok db' \<and>
     map_of db' [0] = Some [8] \<and> map_of db' [1] = None"
  using memory_db_refines_map [of "[([1], [2])]" "[1]" "[]" "[Put [0] [9], Delete [1], Put [0] [8]]"]
  by auto

text \<open>
  C30: iteration.  The iterators visit the entries in ascending order of their keys, each once: all of
  them, those from the start key on, or those under the prefix.  \<^verbatim>\<open>seek\<close> returns the first entry at or
  behind its key and the iteration continues behind that entry.
\<close>

theorem memory_db_iteration:
  assumes "ascending db"
  shows "drain (db_iter db) = db \<and>
    ascending (drain (iter_from db s)) \<and>
    set (drain (iter_from db s)) = {(k, v). map_of db k = Some v \<and> s \<le> k} \<and>
    ascending (drain (iter_prefix db p)) \<and>
    set (drain (iter_prefix db p)) = {(k, v). map_of db k = Some v \<and> prefix p k} \<and>
    fst (iter_seek (db_iter db) s) = map_option Ok (find (\<lambda>(k, _). s \<le> k) db) \<and>
    drain (snd (iter_seek (db_iter db) s)) = tl (drain (iter_from db s))"
proof -
  have s: "(k, v) \<in> set db \<longleftrightarrow> map_of db k = Some v" for k v
    using ascending_distinct [OF assms] by simp
  have e: "it_entries (db_iter db) = db" by (simp add: db_iter_def iterator_new_def)
  note seek = iter_seek_spec [of "db_iter db" s, unfolded e, OF assms]
  show ?thesis
    by (auto simp: seek iter_from_def iter_prefix_def s ascending_filter [OF assms])
      (simp_all add: db_iter_def)
qed

theorem memory_db_iteration_witness:
  "drain (iter_from [([1], [2]), ([3], [4])] [2]) = [([3], [4])] \<and>
   fst (iter_seek (db_iter [([1], [2]), ([3], [4])]) [2]) = Some (Ok ([3], [4]))"
  using memory_db_iteration [of "[([1], [2]), ([3], [4])]" "[2]"]
  by (simp add: iter_from_def)

end
