(* ===== verification/Nibbles.thy ===== *)
theory Nibbles
  imports Storage Rlp_Encode
begin

text \<open>
  Nibble paths, \<^verbatim>\<open>crates/trie/src/nibbles.rs\<close>, with the error type of \<^verbatim>\<open>crates/trie/src/lib.rs\<close>.  The
  struct wraps one vector of bytes, so a \<open>Nibbles\<close> is that byte list; that each byte is a nibble
  is the invariant \<open>nibs\<close>, kept by the operations and not by the type.  The hexadecimal decoder is a
  third-party crate and a parameter of \<open>from_hex\<close>.
\<close>

datatype TrieError =
    KeyNotFound
  | InvalidNode
  | InvalidProof
  | StorageErr StorageError
  | RlpErr RlpError
  | InvalidKeyLength
  | InvalidNibbles

type_synonym 'a TrieResult = "(TrieError, 'a) result"
type_synonym Nibbles = "u8 list"

definition nibbles_new :: "bytes \<Rightarrow> Nibbles" where
  "nibbles_new xs = xs"

fun from_bytes :: "bytes \<Rightarrow> Nibbles" where
  "from_bytes [] = []"
| "from_bytes (b # bs) = drop_bit 4 b # (b AND 0x0f) # from_bytes bs"

text \<open>\<^verbatim>\<open>trim_start_matches("0x")\<close> strips the prefix as often as it occurs.\<close>

fun trim_0x :: "string \<Rightarrow> string" where
  "trim_0x (a # b # s) = (if a = CHR ''0'' \<and> b = CHR ''x'' then trim_0x s else a # b # s)"
| "trim_0x s = s"

definition from_hex :: "(string \<Rightarrow> bytes option) \<Rightarrow> string \<Rightarrow> Nibbles TrieResult" where
  "from_hex hex_decode hex =
     (let hex' = trim_0x hex in
      if length hex' mod 2 \<noteq> 0 then Err InvalidNibbles
      else case hex_decode hex' of
        None \<Rightarrow> Err InvalidNibbles
      | Some bs \<Rightarrow> Ok (from_bytes bs))"

text \<open>The loop \<^verbatim>\<open>for i in (0..len).step_by(2)\<close> over pairs, a missing second nibble read as \<open>0\<close>.\<close>

fun pack :: "Nibbles \<Rightarrow> bytes" where
  "pack [] = []"
| "pack [a] = [push_bit 4 a OR 0]"
| "pack (a # b # rest) = (push_bit 4 a OR b) # pack rest"

definition to_bytes :: "Nibbles \<Rightarrow> ('e, bytes) result" where
  "to_bytes ns = (if length ns mod 2 \<noteq> 0 then Panic else Ok (pack ns))"

definition nibbles_get :: "Nibbles \<Rightarrow> nat \<Rightarrow> u8 option" where
  "nibbles_get ns index = (if index < length ns then Some (ns ! index) else None)"

definition nibbles_slice :: "Nibbles \<Rightarrow> nat \<Rightarrow> nat \<Rightarrow> ('e, Nibbles) result" where
  "nibbles_slice ns start end = slice ns start end"

definition slice_from :: "Nibbles \<Rightarrow> nat \<Rightarrow> ('e, Nibbles) result" where
  "slice_from ns start = slice ns start (length ns)"

fun common_prefix_len :: "Nibbles \<Rightarrow> Nibbles \<Rightarrow> nat" where
  "common_prefix_len (a # as) (b # bs) = (if a = b then Suc (common_prefix_len as bs) else 0)"
| "common_prefix_len _ _ = 0"

definition nibbles_push :: "Nibbles \<Rightarrow> u8 \<Rightarrow> ('e, Nibbles) result" where
  "nibbles_push ns nibble = (if nibble < 16 then Ok (ns @ [nibble]) else Panic)"

definition nibbles_extend :: "Nibbles \<Rightarrow> Nibbles \<Rightarrow> Nibbles" where
  "nibbles_extend ns other = ns @ other"

definition encode_compact :: "Nibbles \<Rightarrow> bool \<Rightarrow> bytes" where
  "encode_compact ns is_leaf =
     (let odd_len = length ns mod 2 \<noteq> 0;
          flags = (case (is_leaf, odd_len) of
                     (False, False) \<Rightarrow> 0x00 | (False, True) \<Rightarrow> 0x10
                   | (True, False) \<Rightarrow> 0x20 | (True, True) \<Rightarrow> 0x30)
      in
      if odd_len then (flags OR ns ! 0) # pack (drop 1 ns)
      else flags # pack ns)"

definition decode_compact :: "bytes \<Rightarrow> (Nibbles \<times> bool) TrieResult" where
  "decode_compact encoded =
     (if encoded = [] then Err InvalidNibbles
      else
        let flags = encoded ! 0;
            is_leaf = (flags AND 0x20 \<noteq> 0);
            odd_len = (flags AND 0x10 \<noteq> 0);
            nibbles = (if odd_len then [flags AND 0x0f] else []) @ from_bytes (drop 1 encoded)
        in
        Ok (if \<not> odd_len \<and> 0 < length nibbles \<and> nibbles ! (length nibbles - 1) = 0
            then butlast nibbles else nibbles,
          is_leaf))"

subsection \<open>Nibbles are below 16\<close>

definition nibs :: "Nibbles \<Rightarrow> bool" where
  "nibs ns \<longleftrightarrow> list_all (\<lambda>n. n < 16) ns"

lemma nibs_simps [simp]:
  "nibs []" "nibs (n # ns) \<longleftrightarrow> n < 16 \<and> nibs ns" "nibs (ns @ ms) \<longleftrightarrow> nibs ns \<and> nibs ms"
  by (auto simp: nibs_def)

lemma nibs_drop [intro]: "nibs ns \<Longrightarrow> nibs (drop k ns)"
  by (auto simp: nibs_def list_all_iff dest: in_set_dropD)

lemma nibs_take [intro]: "nibs ns \<Longrightarrow> nibs (take k ns)"
  by (auto simp: nibs_def list_all_iff dest: in_set_takeD)

lemma nibs_butlast [intro]: "nibs ns \<Longrightarrow> nibs (butlast ns)"
  by (auto simp: nibs_def list_all_iff dest: in_set_butlastD)

lemma nibble_drop: "drop_bit 4 b < (16 :: u8)"
proof -
  have "unat b div 16 < 16" using unsigned_less [of b, where ?'a = nat] by simp
  then show ?thesis by (simp add: word_less_nat_alt unat_div drop_bit_eq_div)
qed

lemma nibble_and: "b AND 0x0f < (16 :: u8)"
  using word_and_le1 [of b "0x0f"] by (rule le_less_trans) simp

lemma nibs_from_bytes [simp]: "nibs (from_bytes bs)"
  by (induction bs) (auto simp: nibble_drop nibble_and)

lemma nibble_bits: "a < (16 :: u8) \<longleftrightarrow> take_bit 4 a = a"
  by (simp add: word_less_nat_alt unsigned_take_bit_eq take_bit_nat_eq_self_iff word_unat_eq_iff)

lemma mask_0f: "(0x0f :: u8) = mask 4"
  by (simp add: mask_eq_exp_minus_1)

lemma pair_bits:
  assumes "a < (16 :: u8)" and "b < 16"
  shows "drop_bit 4 (push_bit 4 a OR b) = a" and "(push_bit 4 a OR b) AND 0x0f = b"
proof -
  have a: "take_bit 4 a = a" and b: "take_bit 4 b = b" using assms by (simp_all add: nibble_bits)
  have "drop_bit 4 b = 0" using b by (metis drop_bit_take_bit diff_self_eq_0 take_bit_0)
  moreover have "drop_bit 4 (push_bit 4 a) = take_bit 4 a"
    by (rule bit_word_eqI) (auto simp: bit_simps)
  ultimately show "drop_bit 4 (push_bit 4 a OR b) = a" using a by (simp add: drop_bit_or)
  show "(push_bit 4 a OR b) AND 0x0f = b"
    unfolding mask_0f take_bit_eq_mask [symmetric] using b by (simp add: take_bit_push_bit)
qed

lemma byte_pair: "push_bit 4 (drop_bit 4 b) OR (b AND 0x0f) = (b :: u8)"
  unfolding mask_0f take_bit_eq_mask [symmetric]
  by (rule bit_word_eqI) (auto simp: bit_simps)

lemma length_from_bytes [simp]: "length (from_bytes bs) = 2 * length bs"
  by (induction bs) auto

lemma pack_from_bytes: "pack (from_bytes bs) = bs"
  by (induction bs) (auto simp: byte_pair)

lemma from_bytes_pack: "nibs ns \<Longrightarrow> even (length ns) \<Longrightarrow> from_bytes (pack ns) = ns"
  by (induction ns rule: pack.induct) (auto simp: pair_bits simp del: drop_bit_or)

lemma from_bytes_inject: "from_bytes bs = from_bytes cs \<longleftrightarrow> bs = cs"
  by (metis pack_from_bytes)

subsection \<open>Common prefixes\<close>

lemma common_prefix_len_le:
  "common_prefix_len as bs \<le> length as" "common_prefix_len as bs \<le> length bs"
  by (induction as bs rule: common_prefix_len.induct) auto

lemma common_prefix_take: "take (common_prefix_len as bs) as = take (common_prefix_len as bs) bs"
  by (induction as bs rule: common_prefix_len.induct) auto

lemma common_prefix_full: "common_prefix_len as bs = length as \<longleftrightarrow> prefix as bs"
  by (induction as bs rule: common_prefix_len.induct) auto

lemma common_prefix_split:
  "drop (common_prefix_len as bs) as = a # as' \<Longrightarrow> drop (common_prefix_len as bs) bs = b # bs' \<Longrightarrow> a \<noteq> b"
  by (induction as bs rule: common_prefix_len.induct) (auto split: if_splits)

subsection \<open>The compact encoding\<close>

text \<open>
  What \<^verbatim>\<open>decode_compact\<close> makes of an encoded path: an odd path comes back, from an even path a last
  nibble \<open>0\<close> is removed, as if it were padding.
\<close>

definition unpadded :: "Nibbles \<Rightarrow> Nibbles" where
  "unpadded ns = (if even (length ns) \<and> ns \<noteq> [] \<and> last ns = 0 then butlast ns else ns)"

lemma flag_bits:
  assumes "n < (16 :: u8)"
  shows "(0x10 OR n) AND 0x20 = 0" "(0x30 OR n) AND 0x20 \<noteq> 0" "(0x10 OR n) AND 0x10 \<noteq> 0"
    "(0x30 OR n) AND 0x10 \<noteq> 0" "(0x10 OR n) AND 0x0f = n" "(0x30 OR n) AND 0x0f = n"
proof -
  have n: "n = n AND 0x0f" using assms by (simp add: nibble_bits mask_0f take_bit_eq_mask)
  have *: "(f OR n) AND g = (f AND g) OR (n AND (0x0f AND g))" for f g :: u8
    by (subst n) (simp only: bit.conj_disj_distrib2 and.assoc)
  show "(0x10 OR n) AND 0x20 = 0" "(0x30 OR n) AND 0x20 \<noteq> 0" "(0x10 OR n) AND 0x10 \<noteq> 0"
    "(0x30 OR n) AND 0x10 \<noteq> 0" "(0x10 OR n) AND 0x0f = n" "(0x30 OR n) AND 0x0f = n"
    unfolding * using n by simp_all
qed

lemma decode_encode_compact:
  assumes "nibs ns"
  shows "decode_compact (encode_compact ns is_leaf) = Ok (unpadded ns, is_leaf)"
proof (cases "even (length ns)")
  case True
  then have m: "length ns mod 2 = 0" by presburger
  then show ?thesis
    using from_bytes_pack [OF assms True] True
    by (cases is_leaf) (auto simp: encode_compact_def decode_compact_def unpadded_def last_conv_nth)
next
  case False
  then obtain n ms where ns: "ns = n # ms" by (cases ns) auto
  from False have m: "length ns mod 2 = 1" by presburger
  have "n < 16" and "from_bytes (pack ms) = ms"
    using assms False by (auto simp: ns from_bytes_pack)
  then show ?thesis
    using False m flag_bits [of n]
    by (cases is_leaf) (auto simp: encode_compact_def decode_compact_def unpadded_def ns)
qed

lemma decode_compact_nibs: "decode_compact bs = Ok (ns, is_leaf) \<Longrightarrow> nibs ns"
  by (auto simp: decode_compact_def Let_def nibble_and split: if_splits)

end
