(* ===== verification/Trie_Node.thy ===== *)
theory Trie_Node
  imports Nibbles Rlp_Types
begin

text \<open>
  Trie nodes, \<^verbatim>\<open>crates/trie/src/node.rs\<close>: the node type, its encoding as an RLP list of byte strings, the
  decoder and the node hash.

  The code calls a list writer \<^verbatim>\<open>encode_list(n, |e| ...)\<close> and a list reader \<^verbatim>\<open>decode_list_header()\<close> that
  the RLP crate does not have (its \<^verbatim>\<open>encode_list\<close> takes a slice of items, and it has no function that
  reads a header and returns the number of items).  Both are therefore parameters of the model,
  together with Keccak-256, in the record \<open>TrieEnv\<close>; the locale \<open>rlp_lists\<close> states what the code relies
  on, and \<open>list_env\<close>, built from the functions of the RLP crate, satisfies it.
\<close>

record TrieEnv =
  keccak256 :: "bytes \<Rightarrow> H256"
  write_list :: "Encoder \<Rightarrow> nat \<Rightarrow> (Encoder \<Rightarrow> Encoder) \<Rightarrow> Encoder"
  list_header :: "nat parser"

datatype Node =
    Empty
  | Leaf Nibbles bytes
  | Extension Nibbles NodeRef
  | Branch "NodeRef option list" "bytes option"
and NodeRef = Hash H256 | Inline Node

definition new_leaf :: "Nibbles \<Rightarrow> bytes \<Rightarrow> Node" where
  "new_leaf key v = Leaf key v"

definition new_extension :: "Nibbles \<Rightarrow> NodeRef \<Rightarrow> Node" where
  "new_extension key node = Extension key node"

definition new_branch :: Node where
  "new_branch = Branch (replicate 16 None) None"

definition node_is_empty :: "Node \<Rightarrow> bool" where
  "node_is_empty node \<longleftrightarrow> node = Empty"

subsection \<open>Encoding\<close>

text \<open>
  \<open>ref_bytes\<close> is the string that stands for a child in the node above it: the hash, or the
  encoding of the inline node.
\<close>

fun encode_raw :: "TrieEnv \<Rightarrow> Node \<Rightarrow> bytes"
  and ref_bytes :: "TrieEnv \<Rightarrow> NodeRef \<Rightarrow> bytes" where
  "encode_raw env Empty = encode_bytes encoder_new []"
| "encode_raw env (Leaf key v) =
     write_list env encoder_new 2
       (\<lambda>e. encode_bytes (encode_bytes e (encode_compact key True)) v)"
| "encode_raw env (Extension key node) =
     write_list env encoder_new 2
       (\<lambda>e. encode_bytes (encode_bytes e (encode_compact key False)) (ref_bytes env node))"
| "encode_raw env (Branch children v) =
     write_list env encoder_new 17
       (\<lambda>e. encode_bytes
          (foldl (\<lambda>e child. case child of None \<Rightarrow> encode_bytes e [] | Some r \<Rightarrow> encode_bytes e (ref_bytes env r))
             e children)
          (case v of None \<Rightarrow> [] | Some bs \<Rightarrow> bs))"
| "ref_bytes env (Hash hash) = to_be 32 hash"
| "ref_bytes env (Inline n) = encode_raw env n"

definition node_hash :: "TrieEnv \<Rightarrow> Node \<Rightarrow> H256" where
  "node_hash env node =
     (let encoded = encode_raw env node in
      if length encoded < 32 then from_be (encoded @ replicate (32 - length encoded) 0)
      else keccak256 env encoded)"

definition from_node :: "TrieEnv \<Rightarrow> Node \<Rightarrow> NodeRef" where
  "from_node env node =
     (let encoded = encode_raw env node in
      if length encoded < 32 then Inline node else Hash (node_hash env node))"

subsection \<open>Decoding\<close>

definition read_bytes ::
  "Decoder \<Rightarrow> (bytes \<Rightarrow> Decoder \<Rightarrow> (TrieError, 'a) run) \<Rightarrow> (TrieError, 'a) run" where
  "read_bytes d f = (case decode_bytes d of (r, d') \<Rightarrow> bind_run (Some (map_err RlpErr r)) (\<lambda>bs. f bs d'))"

definition decode_ref :: "(bytes \<Rightarrow> (TrieError, Node) run) \<Rightarrow> bytes \<Rightarrow> (TrieError, NodeRef) run" where
  "decode_ref dec node_data =
     (if length node_data = 32 then Some (Ok (Hash (from_be node_data)))
      else bind_run (dec node_data) (\<lambda>n. Some (Ok (Inline n))))"

text \<open>The loop \<^verbatim>\<open>for i in 0..16\<close> over the children of a branch.\<close>

primrec decode_children ::
  "nat \<Rightarrow> (bytes \<Rightarrow> (TrieError, Node) run) \<Rightarrow> Decoder \<Rightarrow> (TrieError, NodeRef option list \<times> Decoder) run" where
  "decode_children 0 dec d = Some (Ok ([], d))"
| "decode_children (Suc n) dec d =
     read_bytes d (\<lambda>child_data d'.
       bind_run
         (if child_data = [] then Some (Ok None)
          else bind_run (decode_ref dec child_data) (\<lambda>r. Some (Ok (Some r))))
         (\<lambda>child. bind_run (decode_children n dec d') (\<lambda>(children, d''). Some (Ok (child # children, d'')))))"

fun decode_raw :: "nat \<Rightarrow> TrieEnv \<Rightarrow> bytes \<Rightarrow> (TrieError, Node) run" where
  "decode_raw 0 env bs = None"
| "decode_raw (Suc fuel) env bs =
     (if bs = [] then Some (Ok Empty)
      else case list_header env (decoder_new bs) of (r, d) \<Rightarrow>
        bind_run (Some (map_err RlpErr r)) (\<lambda>list_size.
          if list_size = 2 then
            read_bytes d (\<lambda>key_data d'.
              bind_run (Some (decode_compact key_data)) (\<lambda>(key, is_leaf).
                if is_leaf then read_bytes d' (\<lambda>v d''. Some (Ok (Leaf key v)))
                else read_bytes d' (\<lambda>node_data d''.
                  bind_run (decode_ref (decode_raw fuel env) node_data) (\<lambda>node.
                    Some (Ok (Extension key node))))))
          else if list_size = 17 then
            bind_run (decode_children 16 (decode_raw fuel env) d) (\<lambda>(children, d').
              read_bytes d' (\<lambda>value_data d''.
                Some (Ok (Branch children (if value_data = [] then None else Some value_data)))))
          else Some (Err InvalidNode)))"

subsection \<open>Well-typed nodes\<close>

text \<open>
  What the types of the source and the code that builds nodes guarantee: a branch is an array of 16
  children, and keys consist of nibbles.
\<close>

fun node_ok :: "Node \<Rightarrow> bool" and ref_ok :: "NodeRef \<Rightarrow> bool" where
  "node_ok Empty = True"
| "node_ok (Leaf key v) = nibs key"
| "node_ok (Extension key r) = (nibs key \<and> ref_ok r)"
| "node_ok (Branch children v) = (length children = 16 \<and> (\<forall>r. Some r \<in> set children \<longrightarrow> ref_ok r))"
| "ref_ok (Hash h) = True"
| "ref_ok (Inline n) = node_ok n"

lemma read_bytes_eq_Ok:
  "read_bytes d f = Some (Ok y) \<longleftrightarrow> (\<exists>bs d'. decode_bytes d = (Ok bs, d') \<and> f bs d' = Some (Ok y))"
  by (auto simp: read_bytes_def split: prod.splits)

lemma decode_ref_ok:
  assumes "\<And>bs n. dec bs = Some (Ok n) \<Longrightarrow> node_ok n" and "decode_ref dec bs = Some (Ok r)"
  shows "ref_ok r"
  using assms by (auto simp: decode_ref_def split: if_splits)

lemma decode_children_ok:
  assumes "\<And>bs n. dec bs = Some (Ok n) \<Longrightarrow> node_ok n"
  shows "decode_children k dec d = Some (Ok (cs, d')) \<Longrightarrow>
    length cs = k \<and> (\<forall>r. Some r \<in> set cs \<longrightarrow> ref_ok r)"
proof (induction k arbitrary: d cs)
  case (Suc k)
  then obtain bs d1 c cs1 where
    "(if bs = [] then Some (Ok None) else bind_run (decode_ref dec bs) (\<lambda>r. Some (Ok (Some r)))) = Some (Ok c)"
    "decode_children k dec d1 = Some (Ok (cs1, d'))" "cs = c # cs1"
    by (auto simp: read_bytes_eq_Ok)
  then show ?case
    using Suc.IH [of d1 cs1] decode_ref_ok [OF assms] by (auto split: if_splits)
qed simp

lemma decode_raw_ok: "decode_raw fuel env bs = Some (Ok n) \<Longrightarrow> node_ok n"
proof (induction fuel arbitrary: bs n)
  case (Suc fuel)
  from Suc.prems show ?case
    using decode_children_ok [OF Suc.IH] decode_ref_ok [OF Suc.IH]
    by (fastforce simp: read_bytes_eq_Ok dest: decode_compact_nibs split: if_splits prod.splits)
qed simp

subsection \<open>The list functions the node code relies on\<close>

definition payload :: "bytes list \<Rightarrow> bytes" where
  "payload xs = concat (map (encode_bytes []) xs)"

lemma payload_simps [simp]:
  "payload [] = []" "payload (x # xs) = encode_bytes [] x @ payload xs"
  by (simp_all add: payload_def)

lemma foldl_encode_bytes: "foldl encode_bytes e xs = e @ payload xs"
proof (induction xs arbitrary: e)
  case (Cons x xs)
  then show ?case using appendsD [OF appends_bytes, of e x] by simp
qed simp

text \<open>
  Writing a list puts a non-empty header in front of what the closure writes, and reading the header
  of such a list, when its payload is shorter than 4 GiB, gives the number of strings in it and leaves
  the decoder at the first of them.  Reading a header consumes at least one byte of its input.
\<close>

locale rlp_lists =
  fixes env :: TrieEnv
  assumes write_then_read: "\<exists>hdr. hdr \<noteq> [] \<and>
      write_list env [] (length xs) (\<lambda>e. foldl encode_bytes e xs) = hdr @ payload xs \<and>
      (length (hdr @ payload xs) < 2 ^ 32 \<longrightarrow>
        list_header env (cursor [] (hdr @ payload xs)) = (Ok (length xs), cursor hdr (payload xs)))"
    and header_advances: "list_header env (decoder_new bs) = (Ok n, d) \<Longrightarrow>
      dec_data d = bs \<and> 0 < dec_position d"

definition child_bytes :: "TrieEnv \<Rightarrow> NodeRef option \<Rightarrow> bytes" where
  "child_bytes env child = (case child of None \<Rightarrow> [] | Some r \<Rightarrow> ref_bytes env r)"

fun node_items :: "TrieEnv \<Rightarrow> Node \<Rightarrow> bytes list" where
  "node_items env Empty = []"
| "node_items env (Leaf key v) = [encode_compact key True, v]"
| "node_items env (Extension key r) = [encode_compact key False, ref_bytes env r]"
| "node_items env (Branch children v) =
     map (child_bytes env) children @ [case v of None \<Rightarrow> [] | Some bs \<Rightarrow> bs]"

lemma encode_raw_items:
  assumes "n \<noteq> Empty" and "node_ok n"
  shows "encode_raw env n =
    write_list env [] (length (node_items env n)) (\<lambda>e. foldl encode_bytes e (node_items env n))"
proof -
  have c: "(\<lambda>e child. case child of None \<Rightarrow> encode_bytes e [] | Some r \<Rightarrow> encode_bytes e (ref_bytes env r)) =
      (\<lambda>e child. encode_bytes e (child_bytes env child))"
    by (auto simp: child_bytes_def fun_eq_iff split: option.splits)
  show ?thesis
    using assms by (cases n) (simp_all add: encoder_new_def c foldl_map numeral_2_eq_2)
qed

text \<open>The nodes that survive encoding and decoding.\<close>

fun stable :: "TrieEnv \<Rightarrow> Node \<Rightarrow> bool" and ref_stable :: "TrieEnv \<Rightarrow> NodeRef \<Rightarrow> bool" where
  "stable env Empty = False"
| "stable env (Leaf key v) = (unpadded key = key)"
| "stable env (Extension key r) = (unpadded key = key \<and> ref_stable env r)"
| "stable env (Branch children v) = ((\<forall>r. Some r \<in> set children \<longrightarrow> ref_stable env r) \<and> v \<noteq> Some [])"
| "ref_stable env (Hash h) = True"
| "ref_stable env (Inline n) = (stable env n \<and> length (encode_raw env n) \<noteq> 32)"

lemma length_encode_bytes_ge: "length x \<le> length (encode_bytes [] x)"
  by (simp add: encode_bytes_def Let_def)

lemma length_payload_item: "x \<in> set xs \<Longrightarrow> length x \<le> length (payload xs)"
proof (induction xs)
  case (Cons y xs)
  then show ?case using length_encode_bytes_ge [of y] by auto
qed simp

lemma read_string:
  assumes "length pre + length (encode_bytes [] x) < 2 ^ 32"
  shows "read_bytes (cursor pre (encode_bytes [] x @ rest)) f = f x (cursor (pre @ encode_bytes [] x) rest)"
    and "read_bytes (cursor pre (encode_bytes [] x)) f = f x (cursor (pre @ encode_bytes [] x) [])"
proof -
  have "decode_bytes (cursor pre (encode_bytes [] x @ rest)) = (Ok x, cursor (pre @ encode_bytes [] x) rest)"
    for rest
    using assms length_encode_bytes_ge [of x] by (intro decode_encode_bytes) simp_all
  from this [of rest] this [of "[]"]
  show "read_bytes (cursor pre (encode_bytes [] x @ rest)) f = f x (cursor (pre @ encode_bytes [] x) rest)"
    and "read_bytes (cursor pre (encode_bytes [] x)) f = f x (cursor (pre @ encode_bytes [] x) [])"
    by (simp_all add: read_bytes_def)
qed

lemma decode_children_payload:
  assumes "\<And>c. c \<in> set cs \<Longrightarrow> c \<noteq> None \<Longrightarrow>
      child_bytes env c \<noteq> [] \<and> decode_ref dec (child_bytes env c) = Some (Ok (the c))"
    and "length pre + length (payload (map (child_bytes env) cs @ ys)) < 2 ^ 32"
  shows "decode_children (length cs) dec (cursor pre (payload (map (child_bytes env) cs @ ys))) =
    Some (Ok (cs, cursor (pre @ payload (map (child_bytes env) cs)) (payload ys)))"
  using assms
proof (induction cs arbitrary: pre)
  case (Cons c cs)
  have b: "(if child_bytes env c = [] then Some (Ok None)
      else bind_run (decode_ref dec (child_bytes env c)) (\<lambda>r. Some (Ok (Some r)))) = Some (Ok c)"
    using Cons.prems(1) [of c] by (cases c) (auto simp: child_bytes_def)
  have "decode_children (length cs) dec (cursor (pre @ encode_bytes [] (child_bytes env c))
      (payload (map (child_bytes env) cs @ ys))) =
    Some (Ok (cs, cursor ((pre @ encode_bytes [] (child_bytes env c)) @ payload (map (child_bytes env) cs))
      (payload ys)))"
    using Cons.prems by (intro Cons.IH) auto
  then show ?case using Cons.prems(2) b by (simp add: read_string)
qed simp

text \<open>A decoder past the first byte of its input reads strings shorter than that input.\<close>

definition inside :: "nat \<Rightarrow> Decoder \<Rightarrow> bool" where
  "inside n d \<longleftrightarrow> length (dec_data d) = n \<and> 0 < dec_position d"

lemma decode_bytes_inside:
  assumes "decode_bytes d = (Ok bs, d')" and "inside n d"
  shows "inside n d' \<and> length bs < n"
  using assms
  by (auto simp: decode_bytes_def inside_def Let_def split: result.splits prod.splits if_splits)

lemma ends_read_bytes:
  assumes "\<And>bs d'. length bs < n \<Longrightarrow> inside n d' \<Longrightarrow> ends (f bs d')" and "inside n d"
  shows "ends (read_bytes d f)"
  unfolding read_bytes_def using assms decode_bytes_inside [of d _ _ n]
  by (auto split: prod.splits)

lemma decode_children_inside:
  "decode_children k dec d = Some (Ok (cs, d')) \<Longrightarrow> inside n d \<Longrightarrow> inside n d'"
proof (induction k arbitrary: d cs)
  case (Suc k)
  then show ?case using decode_bytes_inside [of d _ _ n]
    by (fastforce simp: read_bytes_eq_Ok)
qed simp

lemma ends_decode_children:
  assumes "\<And>bs. length bs < n \<Longrightarrow> ends (decode_ref dec bs)"
  shows "inside n d \<Longrightarrow> ends (decode_children k dec d)"
proof (induction k arbitrary: d)
  case (Suc k)
  show ?case
    unfolding decode_children.simps
    by (rule ends_read_bytes [OF _ Suc.prems]) (use assms Suc.IH in \<open>auto intro!: ends_bind_run\<close>)
qed simp

context rlp_lists
begin

lemma encode_raw_shape:
  assumes "n \<noteq> Empty" and "node_ok n"
  obtains hdr where "hdr \<noteq> []" and "encode_raw env n = hdr @ payload (node_items env n)"
    and "length (encode_raw env n) < 2 ^ 32 \<Longrightarrow>
      list_header env (cursor [] (encode_raw env n)) =
        (Ok (length (node_items env n)), cursor hdr (payload (node_items env n)))"
  using write_then_read [of "node_items env n"] encode_raw_items [OF assms] by metis

lemma length_item:
  assumes "n \<noteq> Empty" and "node_ok n" and "x \<in> set (node_items env n)"
  shows "length x < length (encode_raw env n)"
proof -
  obtain hdr where "hdr \<noteq> []" "encode_raw env n = hdr @ payload (node_items env n)"
    using assms(1,2) by (rule encode_raw_shape)
  then show ?thesis using length_payload_item [OF assms(3)] by (cases hdr) auto
qed

lemma encode_raw_nonempty: "node_ok n \<Longrightarrow> encode_raw env n \<noteq> []"
  by (cases "n = Empty") (auto simp: encoder_new_def elim: encode_raw_shape)

text \<open>The child references of a node decode, by induction, to themselves.\<close>

lemma decode_encode_ref:
  assumes "\<And>m. r = Inline m \<Longrightarrow> decode_raw fuel env (encode_raw env m) = Some (Ok m)"
    and "ref_ok r" and "ref_stable env r"
  shows "ref_bytes env r \<noteq> [] \<and> decode_ref (decode_raw fuel env) (ref_bytes env r) = Some (Ok r)"
proof (cases r)
  case (Hash h)
  have "to_be 32 h \<noteq> []" using length_to_be [of 32 h] by (metis list.size(3) zero_neq_numeral)
  then show ?thesis
    using Hash from_be_to_be [of 32 h] by (simp add: decode_ref_def)
next
  case (Inline m)
  then show ?thesis
    using assms encode_raw_nonempty [of m] by (auto simp: decode_ref_def)
qed

lemma decode_encode_raw:
  "\<lbrakk>node_ok n; stable env n; length (encode_raw env n) < 2 ^ 32; length (encode_raw env n) < fuel\<rbrakk> \<Longrightarrow>
     decode_raw fuel env (encode_raw env n) = Some (Ok n)"
proof (induction fuel arbitrary: n)
  case (Suc fuel)
  have ne: "n \<noteq> Empty" using Suc.prems(2) by auto
  have len: "length (encode_raw env n) < 2 ^ 32" by (rule Suc.prems(3))
  obtain hdr where hdr: "hdr \<noteq> []" "encode_raw env n = hdr @ payload (node_items env n)"
    "list_header env (cursor [] (encode_raw env n)) =
       (Ok (length (node_items env n)), cursor hdr (payload (node_items env n)))"
    using encode_raw_shape [OF ne Suc.prems(1)] len by metis
  have fits: "length hdr + length (payload (node_items env n)) < 2 ^ 32"
    using len by (simp add: hdr(2))
  have ref: "ref_bytes env r \<noteq> [] \<and> decode_ref (decode_raw fuel env) (ref_bytes env r) = Some (Ok r)"
    if r: "ref_bytes env r \<in> set (node_items env n)" "ref_ok r" "ref_stable env r" for r
  proof (rule decode_encode_ref [OF _ r(2,3)])
    fix m
    assume m: "r = Inline m"
    then show "decode_raw fuel env (encode_raw env m) = Some (Ok m)"
      using r length_item [OF ne Suc.prems(1) r(1)] len Suc.prems(4) by (intro Suc.IH) auto
  qed
  have start: "list_header env (decoder_new (encode_raw env n)) =
      (Ok (length (node_items env n)), cursor hdr (payload (node_items env n)))"
    unfolding decoder_new_cursor by (rule hdr(3))
  show ?case
  proof (cases n)
    case Empty
    with ne show ?thesis by simp
  next
    case (Leaf key v)
    then show ?thesis
      using start hdr(1,2) fits Suc.prems decode_encode_compact [of key True]
      by (simp add: read_string)
  next
    case (Extension key r)
    then show ?thesis
      using start hdr(1,2) fits Suc.prems decode_encode_compact [of key False] ref [of r]
      by (simp add: read_string)
  next
    case (Branch cs v)
    then have l: "length cs = 16" and v: "v \<noteq> Some []"
      and cs: "\<And>r. Some r \<in> set cs \<Longrightarrow> ref_ok r \<and> ref_stable env r"
      using Suc.prems by auto
    have "child_bytes env c \<noteq> [] \<and>
        decode_ref (decode_raw fuel env) (child_bytes env c) = Some (Ok (the c))"
      if c: "c \<in> set cs" "c \<noteq> None" for c
    proof -
      obtain r where r: "c = Some r" "Some r \<in> set cs" using c by auto
      have "ref_bytes env r \<in> set (node_items env n)"
        using r(2) by (force simp: Branch child_bytes_def)
      then show ?thesis using ref [of r] cs [OF r(2)] by (simp add: r(1) child_bytes_def)
    qed
    then have "decode_children 16 (decode_raw fuel env) (cursor hdr (payload (node_items env n))) =
        Some (Ok (cs, cursor (hdr @ payload (map (child_bytes env) cs)) (payload [case v of None \<Rightarrow> [] | Some bs \<Rightarrow> bs])))"
      using decode_children_payload [of cs env "decode_raw fuel env" hdr] fits l by (simp add: Branch)
    then show ?thesis
      using start hdr(1,2) fits l v
      by (auto simp: Branch read_string payload_def split: option.splits)
  qed
qed simp

text \<open>Decoding ends on every input, with fuel for its length.\<close>

lemma decode_raw_ends: "length bs < fuel \<Longrightarrow> ends (decode_raw fuel env bs)"
proof (induction fuel arbitrary: bs)
  case (Suc fuel)
  have shorter: "ends (decode_ref (decode_raw fuel env) x)" if "length x < length bs" for x
    using Suc.IH [of x] Suc.prems that by (auto simp: decode_ref_def)
  show ?case
  proof (cases "\<exists>n d. list_header env (decoder_new bs) = (Ok n, d)")
    case True
    then obtain n d where d: "list_header env (decoder_new bs) = (Ok n, d)" by blast
    have "inside (length bs) d" using header_advances [OF d] by (simp add: inside_def)
    with d shorter show ?thesis
      by (auto intro!: ends_bind_run ends_read_bytes [where n = "length bs"] ends_decode_children [where n = "length bs"]
          dest: decode_children_inside)
  next
    case False
    then show ?thesis by (auto split: prod.splits)
  qed
qed simp

end

subsection \<open>An instance built from the RLP crate\<close>

text \<open>
  The list writer and reader that the functions of the RLP crate provide: \<^verbatim>\<open>encode_list\<close> around the
  bytes the closure writes, and \<^verbatim>\<open>decode_header\<close> together with the number of strings that
  \<^verbatim>\<open>decode_list\<close> finds behind it.
\<close>

definition count_strings :: "nat parser" where
  "count_strings d =
     (case decode_list (Suc (length (dec_data d))) (\<lambda>d. Some (decode_bytes d)) d of
        Some (Ok xs, d') \<Rightarrow>
          (case decode_header d of
             Ok (offset, len, is_data) \<Rightarrow> (Ok (length xs), d\<lparr>dec_position := dec_position d + offset\<rparr>)
           | Err e \<Rightarrow> (Err e, d)
           | Panic \<Rightarrow> (Panic, d))
      | Some (Err e, d') \<Rightarrow> (Err e, d')
      | _ \<Rightarrow> (Panic, d))"

definition list_env :: "(bytes \<Rightarrow> H256) \<Rightarrow> TrieEnv" where
  "list_env kec =
     \<lparr>keccak256 = kec, write_list = (\<lambda>e n f. encode_list (\<lambda>b x. b @ x) e [f []]), list_header = count_strings\<rparr>"

lemma list_env_simps [simp]:
  "keccak256 (list_env kec) = kec" "list_header (list_env kec) = count_strings"
  "write_list (list_env kec) e n f = encode_list (\<lambda>b x. b @ x) e [f []]"
  by (simp_all add: list_env_def)

lemma encode_list_payload: "encode_list (\<lambda>b x. b @ x) [] [payload xs] = encode_list encode_bytes [] xs"
  by (simp add: encode_list_def foldl_encode_bytes encoder_new_def)

lemma length_payload_ge: "length xs \<le> length (payload xs)"
proof (induction xs)
  case (Cons x xs)
  then show ?case using encode_bytes_nonempty [of x] by (cases "encode_bytes [] x") auto
qed simp

lemma count_strings_payload:
  assumes "encode_list encode_bytes [] xs = hdr @ payload xs"
    and "decode_header (cursor [] (hdr @ payload xs)) = Ok (length hdr, length (payload xs), False)"
    and "length (hdr @ payload xs) < 2 ^ 32"
  shows "count_strings (cursor [] (hdr @ payload xs)) = (Ok (length xs), cursor hdr (payload xs))"
proof -
  have short: "length x < 2 ^ 32" if "x \<in> set xs" for x
    using length_payload_item [OF that] assms(3) by simp
  have "decode_list (Suc (length (hdr @ payload xs))) (\<lambda>d. Some (decode_bytes d))
      (cursor [] (encode_list encode_bytes [] xs @ [])) =
    Some (Ok xs, cursor ([] @ encode_list encode_bytes [] xs) [])"
  proof (rule decode_encode_list)
    show "encode_bytes buf x = buf @ encode_bytes [] x" for buf x by (rule appendsD [OF appends_bytes])
    show "Some (decode_bytes (cursor pre (encode_bytes [] x @ rest))) =
        Some (Ok x, cursor (pre @ encode_bytes [] x) rest)"
      if "x \<in> set xs" "length pre + length (encode_bytes [] x) \<le> usize_max" for x pre rest
      using decode_encode_bytes [OF short] that by simp
    show "length (concat (map (encode_bytes []) xs)) < 2 ^ 32"
      using assms(3) by (simp only: payload_def [symmetric] length_append)
    show "length ([] :: bytes) + length (encode_list encode_bytes [] xs) \<le> usize_max"
      using assms(1,3) by simp
    show "length xs < Suc (length (hdr @ payload xs))" using length_payload_ge [of xs] by simp
  qed simp
  then show ?thesis
    using assms(2) by (simp add: count_strings_def assms(1) cursor_def)
qed

lemma list_env_write_read: "\<exists>hdr. hdr \<noteq> [] \<and>
    write_list (list_env kec) [] (length xs) (\<lambda>e. foldl encode_bytes e xs) = hdr @ payload xs \<and>
    (length (hdr @ payload xs) < 2 ^ 32 \<longrightarrow>
      list_header (list_env kec) (cursor [] (hdr @ payload xs)) = (Ok (length xs), cursor hdr (payload xs)))"
proof (cases "length (payload xs) < 2 ^ 32")
  case True
  obtain hdr where hdr: "encode_list encode_bytes [] xs = hdr @ payload xs" "hdr \<noteq> []"
    "\<And>pre rest. decode_header (cursor pre (hdr @ payload xs @ rest)) = Ok (length hdr, length (payload xs), False)"
    using encode_list_shape [of xs encode_bytes] True appendsD [OF appends_bytes]
    unfolding payload_def by metis
  then show ?thesis
    using count_strings_payload [of xs hdr] hdr(3) [of "[]" "[]"]
    by (auto simp: foldl_encode_bytes encode_list_payload)
next
  case False
  then show ?thesis
    by (auto simp: foldl_encode_bytes encode_list_def encoder_new_def Let_def)
qed

lemma count_strings_advances:
  assumes "count_strings (decoder_new bs) = (Ok n, d)"
  shows "dec_data d = bs \<and> 0 < dec_position d"
proof -
  obtain offset len is_data where h: "decode_header (decoder_new bs) = Ok (offset, len, is_data)"
    "d = (decoder_new bs)\<lparr>dec_position := offset\<rparr>" "\<not> is_data"
    using assms
    by (auto simp: count_strings_def decode_list_def decoder_new_def Let_def
        split: option.splits result.splits prod.splits if_splits)
  then have "0 < offset"
    by (auto simp: decode_header_def Let_def decoder_new_def split: if_splits)
  then show ?thesis using h(2) by (simp add: decoder_new_def)
qed

interpretation list_env: rlp_lists "list_env kec" for kec
  using list_env_write_read count_strings_advances by unfold_locales simp_all

end
