(* ===== verification/Trie.thy ===== *)
theory Trie
  imports Trie_Node
begin

text \<open>
  The Merkle Patricia trie, \<^verbatim>\<open>crates/trie/src/trie.rs\<close>.  The recursive functions on nodes take the read
  access to the database as a function \<open>db\<close> and fuel, because a chain of hash references in the
  database need not end.  \<open>PatriciaTrie\<close> is the trie over the in-memory database of the storage crate;
  its operations return the outcome together with the trie they leave behind.
\<close>

type_synonym reader = "bytes \<Rightarrow> bytes option DbResult"

subsection \<open>Resolving references\<close>

definition node_key :: "H256 \<Rightarrow> bytes" where
  "node_key hash = [0x74] @ to_be 32 hash"

definition load_node :: "TrieEnv \<Rightarrow> reader \<Rightarrow> H256 \<Rightarrow> (TrieError, Node) run" where
  "load_node env db hash =
     bind_run (Some (map_err StorageErr (db (node_key hash)))) (\<lambda>found.
       case found of
         None \<Rightarrow> Some (Err KeyNotFound)
       | Some bs \<Rightarrow> decode_raw (Suc (length bs)) env bs)"

definition resolve_node_ref :: "TrieEnv \<Rightarrow> reader \<Rightarrow> NodeRef \<Rightarrow> (TrieError, Node) run" where
  "resolve_node_ref env db node_ref =
     (case node_ref of
        Inline node \<Rightarrow> Some (Ok node)
      | Hash hash \<Rightarrow> load_node env db hash)"

text \<open>\<^verbatim>\<open>children[nibble]\<close>, read and written, and \<^verbatim>\<open>key.get(index).unwrap()\<close>.\<close>

definition get_child :: "NodeRef option list \<Rightarrow> u8 \<Rightarrow> (TrieError, NodeRef option) result" where
  "get_child children nibble =
     (if unat nibble < length children then Ok (children ! unat nibble) else Panic)"

definition set_child ::
  "NodeRef option list \<Rightarrow> u8 \<Rightarrow> NodeRef option \<Rightarrow> (TrieError, NodeRef option list) result" where
  "set_child children nibble child =
     (if unat nibble < length children then Ok (children[unat nibble := child]) else Panic)"

definition nibble_at :: "Nibbles \<Rightarrow> nat \<Rightarrow> (TrieError, u8) result" where
  "nibble_at key index = (case nibbles_get key index of Some n \<Rightarrow> Ok n | None \<Rightarrow> Panic)"

subsection \<open>Lookup\<close>

fun get_at_node ::
  "nat \<Rightarrow> TrieEnv \<Rightarrow> reader \<Rightarrow> Node \<Rightarrow> Nibbles \<Rightarrow> nat \<Rightarrow> (TrieError, bytes option) run" where
  "get_at_node 0 env db node key key_index = None"
| "get_at_node (Suc fuel) env db Empty key key_index = Some (Ok None)"
| "get_at_node (Suc fuel) env db (Leaf leaf_key v) key key_index =
     bind_run (Some (slice_from key key_index)) (\<lambda>remaining_key.
       if remaining_key = leaf_key then Some (Ok (Some v)) else Some (Ok None))"
| "get_at_node (Suc fuel) env db (Extension ext_key child_ref) key key_index =
     bind_run (Some (slice_from key key_index)) (\<lambda>remaining_key.
       let common_len = common_prefix_len ext_key remaining_key in
       if common_len = length ext_key then
         bind_run (resolve_node_ref env db child_ref) (\<lambda>child.
           get_at_node fuel env db child key (key_index + common_len))
       else Some (Ok None))"
| "get_at_node (Suc fuel) env db (Branch children v) key key_index =
     (if key_index = length key then Some (Ok v)
      else
        bind_run (Some (nibble_at key key_index)) (\<lambda>nibble.
        bind_run (Some (get_child children nibble)) (\<lambda>child.
          case child of
            None \<Rightarrow> Some (Ok None)
          | Some child_ref \<Rightarrow>
              bind_run (resolve_node_ref env db child_ref) (\<lambda>child.
                get_at_node fuel env db child key (key_index + 1)))))"

subsection \<open>Insertion\<close>

text \<open>
  The step that occurs at each place where a branch is built: the value goes into the branch itself
  when the key ends here, and into a new leaf under its next nibble otherwise.
\<close>

definition branch_add ::
  "TrieEnv \<Rightarrow> NodeRef option list \<Rightarrow> bytes option \<Rightarrow> Nibbles \<Rightarrow> nat \<Rightarrow> bytes \<Rightarrow>
     (TrieError, NodeRef option list \<times> bytes option) result" where
  "branch_add env children branch_value key common_len v =
     (if common_len < length key then
        bind_res (nibble_at key common_len) (\<lambda>nibble.
        bind_res (slice_from key (common_len + 1)) (\<lambda>rest.
        bind_res (set_child children nibble (Some (from_node env (Leaf rest v)))) (\<lambda>children'.
          Ok (children', branch_value))))
      else Ok (children, Some v))"

definition split_leaf :: "TrieEnv \<Rightarrow> Nibbles \<Rightarrow> bytes \<Rightarrow> Nibbles \<Rightarrow> bytes \<Rightarrow> nat \<Rightarrow> (TrieError, Node) result" where
  "split_leaf env leaf_key leaf_value remaining_key v common_len =
     bind_res (branch_add env (replicate 16 None) None leaf_key common_len leaf_value) (\<lambda>(children, branch_value).
     bind_res (branch_add env children branch_value remaining_key common_len v) (\<lambda>(children, branch_value).
       Ok (Branch children branch_value)))"

definition split_extension ::
  "TrieEnv \<Rightarrow> Nibbles \<Rightarrow> NodeRef \<Rightarrow> Nibbles \<Rightarrow> bytes \<Rightarrow> (TrieError, Node) result" where
  "split_extension env ext_remainder child_ref key_remainder v =
     bind_res
       (if ext_remainder \<noteq> [] then
          bind_res (nibble_at ext_remainder 0) (\<lambda>nibble.
            if length ext_remainder = 1 then set_child (replicate 16 None) nibble (Some child_ref)
            else
              bind_res (slice_from ext_remainder 1) (\<lambda>rest.
                set_child (replicate 16 None) nibble (Some (from_node env (Extension rest child_ref)))))
        else Ok (replicate 16 None))
       (\<lambda>children.
     bind_res (branch_add env children None key_remainder 0 v) (\<lambda>(children, branch_value).
       Ok (Branch children branch_value)))"

definition under_prefix :: "TrieEnv \<Rightarrow> Nibbles \<Rightarrow> nat \<Rightarrow> Node \<Rightarrow> Node" where
  "under_prefix env common_prefix common_len branch =
     (if 0 < common_len then Extension common_prefix (from_node env branch) else branch)"

fun insert_at_node ::
  "nat \<Rightarrow> TrieEnv \<Rightarrow> reader \<Rightarrow> Node \<Rightarrow> Nibbles \<Rightarrow> nat \<Rightarrow> bytes \<Rightarrow> (TrieError, Node) run" where
  "insert_at_node 0 env db node key key_index v = None"
| "insert_at_node (Suc fuel) env db Empty key key_index v =
     bind_run (Some (slice_from key key_index)) (\<lambda>rest. Some (Ok (Leaf rest v)))"
| "insert_at_node (Suc fuel) env db (Leaf leaf_key leaf_value) key key_index v =
     bind_run (Some (slice_from key key_index)) (\<lambda>remaining_key.
       let common_len = common_prefix_len leaf_key remaining_key in
       if common_len = length leaf_key \<and> common_len = length remaining_key then
         Some (Ok (Leaf leaf_key v))
       else if common_len = 0 then
         Some (split_leaf env leaf_key leaf_value remaining_key v 0)
       else
         bind_run (Some (nibbles_slice leaf_key 0 common_len)) (\<lambda>common_prefix.
         bind_run (Some (split_leaf env leaf_key leaf_value remaining_key v common_len)) (\<lambda>branch.
           Some (Ok (under_prefix env common_prefix common_len branch)))))"
| "insert_at_node (Suc fuel) env db (Extension ext_key child_ref) key key_index v =
     bind_run (Some (slice_from key key_index)) (\<lambda>remaining_key.
       let common_len = common_prefix_len ext_key remaining_key in
       if common_len = length ext_key then
         bind_run (resolve_node_ref env db child_ref) (\<lambda>child.
         bind_run (insert_at_node fuel env db child key (key_index + common_len) v) (\<lambda>new_child.
           Some (Ok (Extension ext_key (from_node env new_child)))))
       else
         bind_run (Some (nibbles_slice ext_key 0 common_len)) (\<lambda>common_prefix.
         bind_run (Some (slice_from ext_key common_len)) (\<lambda>ext_remainder.
         bind_run (Some (slice_from remaining_key common_len)) (\<lambda>key_remainder.
         bind_run (Some (split_extension env ext_remainder child_ref key_remainder v)) (\<lambda>branch.
           Some (Ok (under_prefix env common_prefix common_len branch)))))))"
| "insert_at_node (Suc fuel) env db (Branch children branch_value) key key_index v =
     (if key_index = length key then Some (Ok (Branch children (Some v)))
      else
        bind_run (Some (nibble_at key key_index)) (\<lambda>nibble.
        bind_run (Some (get_child children nibble)) (\<lambda>taken.
        bind_run
          (case taken of None \<Rightarrow> Some (Ok Empty) | Some child_ref \<Rightarrow> resolve_node_ref env db child_ref) (\<lambda>child.
        bind_run (insert_at_node fuel env db child key (key_index + 1) v) (\<lambda>new_child.
        bind_run (Some (set_child children nibble (Some (from_node env new_child)))) (\<lambda>children'.
          Some (Ok (Branch children' branch_value))))))))"

subsection \<open>Deletion\<close>

definition compact_child :: "nat \<Rightarrow> NodeRef \<Rightarrow> Node \<Rightarrow> Node" where
  "compact_child nibble child_ref child =
     (case child of
        Leaf child_key v \<Rightarrow> Leaf (nibbles_extend [of_nat nibble] child_key) v
      | Extension child_key node \<Rightarrow> Extension (nibbles_extend [of_nat nibble] child_key) node
      | _ \<Rightarrow> Extension [of_nat nibble] child_ref)"

definition try_compact_branch ::
  "TrieEnv \<Rightarrow> reader \<Rightarrow> NodeRef option list \<Rightarrow> bytes option \<Rightarrow> (TrieError, Node) run" where
  "try_compact_branch env db children v =
     (let non_empty_children = [(i, r). (i, Some r) \<leftarrow> List.enumerate 0 children] in
      case (non_empty_children, v) of
        ([], None) \<Rightarrow> Some (Ok Empty)
      | ([], Some bs) \<Rightarrow> Some (Ok (Leaf [] bs))
      | ([(nibble, child_ref)], None) \<Rightarrow>
          bind_run (resolve_node_ref env db child_ref) (\<lambda>child.
            Some (Ok (compact_child nibble child_ref child)))
      | _ \<Rightarrow> Some (Ok (Branch children v)))"

definition collapse_extension :: "TrieEnv \<Rightarrow> Nibbles \<Rightarrow> Node \<Rightarrow> Node" where
  "collapse_extension env ext_key new_child =
     (case new_child of
        Empty \<Rightarrow> Empty
      | Leaf child_key v \<Rightarrow> Leaf (nibbles_extend ext_key child_key) v
      | Extension child_key node \<Rightarrow> Extension (nibbles_extend ext_key child_key) node
      | _ \<Rightarrow> Extension ext_key (from_node env new_child))"

fun delete_at_node ::
  "nat \<Rightarrow> TrieEnv \<Rightarrow> reader \<Rightarrow> Node \<Rightarrow> Nibbles \<Rightarrow> nat \<Rightarrow> (TrieError, Node \<times> bool) run" where
  "delete_at_node 0 env db node key key_index = None"
| "delete_at_node (Suc fuel) env db Empty key key_index = Some (Ok (Empty, False))"
| "delete_at_node (Suc fuel) env db (Leaf leaf_key v) key key_index =
     bind_run (Some (slice_from key key_index)) (\<lambda>remaining_key.
       if remaining_key = leaf_key then Some (Ok (Empty, True))
       else Some (Ok (Leaf leaf_key v, False)))"
| "delete_at_node (Suc fuel) env db (Extension ext_key child_ref) key key_index =
     bind_run (Some (slice_from key key_index)) (\<lambda>remaining_key.
       let common_len = common_prefix_len ext_key remaining_key in
       if common_len = length ext_key then
         bind_run (resolve_node_ref env db child_ref) (\<lambda>child.
         bind_run (delete_at_node fuel env db child key (key_index + common_len)) (\<lambda>(new_child, deleted).
           if deleted then Some (Ok (collapse_extension env ext_key new_child, True))
           else Some (Ok (Extension ext_key child_ref, False))))
       else Some (Ok (Extension ext_key child_ref, False)))"
| "delete_at_node (Suc fuel) env db (Branch children v) key key_index =
     (if key_index = length key then
        (if v \<noteq> None then
           bind_run (try_compact_branch env db children None) (\<lambda>compacted. Some (Ok (compacted, True)))
         else Some (Ok (Branch children v, False)))
      else
        bind_run (Some (nibble_at key key_index)) (\<lambda>nibble.
        bind_run (Some (get_child children nibble)) (\<lambda>child.
          case child of
            None \<Rightarrow> Some (Ok (Branch children v, False))
          | Some child_ref \<Rightarrow>
              bind_run (resolve_node_ref env db child_ref) (\<lambda>child.
              bind_run (delete_at_node fuel env db child key (key_index + 1)) (\<lambda>(new_child, deleted).
                if deleted then
                  bind_run (Some (set_child children nibble
                    (if new_child = Empty then None else Some (from_node env new_child)))) (\<lambda>children'.
                  bind_run (try_compact_branch env db children' v) (\<lambda>compacted.
                    Some (Ok (compacted, True))))
                else Some (Ok (Branch children v, False)))))))"

subsection \<open>The trie\<close>

record PatriciaTrie =
  trie_db :: MemoryDatabase
  trie_root :: Node
  trie_root_hash :: "H256 option"

definition trie_new :: "MemoryDatabase \<Rightarrow> PatriciaTrie" where
  "trie_new db = \<lparr>trie_db = db, trie_root = Empty, trie_root_hash = None\<rparr>"

definition new_with_root :: "TrieEnv \<Rightarrow> MemoryDatabase \<Rightarrow> H256 \<Rightarrow> (TrieError, PatriciaTrie) run" where
  "new_with_root env db hash =
     bind_run (load_node env (db_get db) hash) (\<lambda>root.
       Some (Ok \<lparr>trie_db = db, trie_root = root, trie_root_hash = Some hash\<rparr>))"

definition root_hash :: "TrieEnv \<Rightarrow> PatriciaTrie \<Rightarrow> H256 \<times> PatriciaTrie" where
  "root_hash env t =
     (case trie_root_hash t of
        None \<Rightarrow>
          let hash = node_hash env (trie_root t) in (hash, t\<lparr>trie_root_hash := Some hash\<rparr>)
      | Some hash \<Rightarrow> (hash, t))"

definition trie_get :: "nat \<Rightarrow> TrieEnv \<Rightarrow> PatriciaTrie \<Rightarrow> bytes \<Rightarrow> (TrieError, bytes option) run" where
  "trie_get fuel env t key = get_at_node fuel env (db_get (trie_db t)) (trie_root t) (from_bytes key) 0"

type_synonym 'a trie_run = "((TrieError, 'a) result \<times> PatriciaTrie) option"

definition trie_insert :: "nat \<Rightarrow> TrieEnv \<Rightarrow> PatriciaTrie \<Rightarrow> bytes \<Rightarrow> bytes \<Rightarrow> unit trie_run" where
  "trie_insert fuel env t key v =
     (case insert_at_node fuel env (db_get (trie_db t)) (trie_root t) (from_bytes key) 0 v of
        None \<Rightarrow> None
      | Some (Ok new_root) \<Rightarrow> Some (Ok (), t\<lparr>trie_root := new_root, trie_root_hash := None\<rparr>)
      | Some (Err e) \<Rightarrow> Some (Err e, t)
      | Some Panic \<Rightarrow> Some (Panic, t))"

definition trie_delete :: "nat \<Rightarrow> TrieEnv \<Rightarrow> PatriciaTrie \<Rightarrow> bytes \<Rightarrow> bool trie_run" where
  "trie_delete fuel env t key =
     (case delete_at_node fuel env (db_get (trie_db t)) (trie_root t) (from_bytes key) 0 of
        None \<Rightarrow> None
      | Some (Ok (new_root, deleted)) \<Rightarrow>
          Some (Ok deleted, t\<lparr>trie_root := new_root, trie_root_hash := None\<rparr>)
      | Some (Err e) \<Rightarrow> Some (Err e, t)
      | Some Panic \<Rightarrow> Some (Panic, t))"

text \<open>The batch collects a node and its inline descendants; the function never fails.\<close>

definition store_node :: "TrieEnv \<Rightarrow> Node \<Rightarrow> WriteBatch \<Rightarrow> WriteBatch" where
  "store_node env node batch =
     (let encoded = encode_raw env node in
      if length encoded \<ge> 32 then batch_put batch (node_key (node_hash env node)) encoded else batch)"

fun commit_node :: "TrieEnv \<Rightarrow> Node \<Rightarrow> WriteBatch \<Rightarrow> WriteBatch"
  and commit_ref :: "TrieEnv \<Rightarrow> NodeRef \<Rightarrow> WriteBatch \<Rightarrow> WriteBatch" where
  "commit_node env Empty batch = store_node env Empty batch"
| "commit_node env (Leaf key v) batch = store_node env (Leaf key v) batch"
| "commit_node env (Extension key child_ref) batch =
     commit_ref env child_ref (store_node env (Extension key child_ref) batch)"
| "commit_node env (Branch children v) batch =
     foldl (\<lambda>batch child. case child of None \<Rightarrow> batch | Some r \<Rightarrow> commit_ref env r batch)
       (store_node env (Branch children v) batch) children"
| "commit_ref env (Inline child) batch = commit_node env child batch"
| "commit_ref env (Hash hash) batch = batch"

definition commit :: "TrieEnv \<Rightarrow> PatriciaTrie \<Rightarrow> (TrieError, H256) result \<times> PatriciaTrie" where
  "commit env t =
     (case write_batch (trie_db t) (commit_node env (trie_root t) db_batch) of
        Ok db' \<Rightarrow> (case root_hash env (t\<lparr>trie_db := db'\<rparr>) of (hash, t') \<Rightarrow> (Ok hash, t'))
      | Err e \<Rightarrow> (Err (StorageErr e), t)
      | Panic \<Rightarrow> (Panic, t))"

end
