(* ===== verification/Trie_Map.thy ===== *)
theory Trie_Map
  imports Trie
begin

text \<open>
  The trie as a map.  \<open>reads env db node q y\<close> says, without fuel, that reading path \<open>q\<close> from \<open>node\<close> ends
  with outcome \<open>y\<close>; it is the big-step semantics of \<^verbatim>\<open>get_at_node\<close>.  The locale \<open>honest_store\<close> is what the
  trie needs of its database: a node that was turned into a reference is either found again or
  reported missing.  In it, insertion and deletion are updates of the map from paths to values, up to
  nodes that are missing.
\<close>

subsection \<open>Reading without fuel\<close>

fun fails :: "(TrieError, 'a) run \<Rightarrow> (TrieError, 'b) result \<Rightarrow> bool" where
  "fails (Some (Err e)) y \<longleftrightarrow> y = Err e"
| "fails (Some Panic) y \<longleftrightarrow> y = Panic"
| "fails _ y \<longleftrightarrow> False"

inductive reads :: "TrieEnv \<Rightarrow> reader \<Rightarrow> Node \<Rightarrow> Nibbles \<Rightarrow> (TrieError, bytes option) result \<Rightarrow> bool"
  and ref_reads :: "TrieEnv \<Rightarrow> reader \<Rightarrow> NodeRef \<Rightarrow> Nibbles \<Rightarrow> (TrieError, bytes option) result \<Rightarrow> bool"
  for env db where
  empty: "reads env db Empty q (Ok None)"
| leaf: "reads env db (Leaf k v) q (Ok (if q = k then Some v else None))"
| extension_off: "\<not> prefix k q \<Longrightarrow> reads env db (Extension k r) q (Ok None)"
| extension_on: "ref_reads env db r q y \<Longrightarrow> reads env db (Extension k r) (k @ q) y"
| branch_end: "reads env db (Branch cs v) [] (Ok v)"
| branch_none: "get_child cs x = Ok None \<Longrightarrow> reads env db (Branch cs v) (x # q) (Ok None)"
| branch_on: "get_child cs x = Ok (Some r) \<Longrightarrow> ref_reads env db r q y \<Longrightarrow> reads env db (Branch cs v) (x # q) y"
| branch_panic: "get_child cs x = Panic \<Longrightarrow> reads env db (Branch cs v) (x # q) Panic"
| resolved: "resolve_node_ref env db r = Some (Ok n) \<Longrightarrow> reads env db n q y \<Longrightarrow> ref_reads env db r q y"
| unresolved: "fails (resolve_node_ref env db r) y \<Longrightarrow> ref_reads env db r q y"

inductive_simps reads_Empty [simp]: "reads env db Empty q y"
inductive_simps reads_Leaf [simp]: "reads env db (Leaf k v) q y"
inductive_simps reads_Branch_Nil [simp]: "reads env db (Branch cs v) [] y"
inductive_simps reads_Branch_Cons: "reads env db (Branch cs v) (x # q) y"
inductive_simps reads_Extension: "reads env db (Extension k r) q y"
inductive_simps ref_reads_iff: "ref_reads env db r q y"

lemma reads_Extension_append [simp]: "reads env db (Extension k r) (k @ q) y \<longleftrightarrow> ref_reads env db r q y"
  by (auto simp: reads_Extension)

lemma reads_Extension_off: "\<not> prefix k q \<Longrightarrow> reads env db (Extension k r) q y \<longleftrightarrow> y = Ok None"
  by (auto simp: reads_Extension)

lemma reads_Extension_strip:
  "reads env db (Extension (k @ k') r) (k @ q) y \<Longrightarrow> reads env db (Extension k' r) q y"
  by (auto simp: reads_Extension)

lemma reads_Extension_join:
  "reads env db (Extension k' r) q y \<Longrightarrow> reads env db (Extension (k @ k') r) (k @ q) y"
  by (auto simp: reads_Extension)

lemma get_child_not_Err [simp]: "get_child cs x \<noteq> Err e"
  by (simp add: get_child_def)

text \<open>The semantics and the function with fuel agree.\<close>

lemma slice_from_drop: "i \<le> length key \<Longrightarrow> slice_from key i = Ok (drop i key)"
  by (simp add: slice_from_def slice_def)

lemma nibble_at_drop: "i < length key \<Longrightarrow> nibble_at key i = Ok (key ! i)"
  by (simp add: nibble_at_def nibbles_get_def)

lemma prefix_drop: "prefix k (drop i key) \<Longrightarrow> drop i key = k @ drop (i + length k) key"
  by (auto simp: prefix_def) (metis add.commute append_eq_conv_conj drop_drop)

lemma prefix_drop_le: "prefix k (drop i key) \<Longrightarrow> i \<le> length key \<Longrightarrow> i + length k \<le> length key"
  by (drule prefix_length_le) simp

lemma get_reads:
  "get_at_node fuel env db node key i = Some y \<Longrightarrow> i \<le> length key \<Longrightarrow> reads env db node (drop i key) y"
proof (induction fuel arbitrary: node i y)
  case (Suc fuel)
  have child: "ref_reads env db r (drop j key) y"
    if "bind_run (resolve_node_ref env db r) (\<lambda>c. get_at_node fuel env db c key j) = Some y" "j \<le> length key"
    for r j
    using that Suc.IH [of _ j y]
    by (cases "(resolve_node_ref env db r, \<lambda>c. get_at_node fuel env db c key j)" rule: bind_run.cases)
      (auto simp: ref_reads_iff)
  show ?case
  proof (cases node)
    case Empty
    then show ?thesis using Suc.prems by simp
  next
    case (Leaf k v)
    then show ?thesis using Suc.prems by (auto simp: slice_from_drop)
  next
    case (Extension k r)
    show ?thesis
    proof (cases "prefix k (drop i key)")
      case True
      then have "common_prefix_len k (drop i key) = length k" by (simp add: common_prefix_full)
      then have "ref_reads env db r (drop (i + length k) key) y"
        using Suc.prems Extension prefix_drop_le [OF True] by (intro child) (simp_all add: slice_from_drop)
      then show ?thesis by (subst prefix_drop [OF True]) (simp add: Extension)
    next
      case False
      then have "common_prefix_len k (drop i key) \<noteq> length k" by (simp add: common_prefix_full)
      then show ?thesis
        using Suc.prems False by (simp add: Extension slice_from_drop reads_Extension_off)
    qed
  next
    case (Branch cs v)
    show ?thesis
    proof (cases "i = length key")
      case True
      then show ?thesis using Suc.prems by (simp add: Branch)
    next
      case False
      then have i: "i < length key" using Suc.prems by simp
      then have "drop i key = key ! i # drop (i + 1) key" by (simp add: Cons_nth_drop_Suc)
      then show ?thesis
        using Suc.prems i child [of _ "i + 1"]
        by (cases "get_child cs (key ! i)")
          (auto simp: Branch nibble_at_drop reads_Branch_Cons split: option.splits)
    qed
  qed
qed simp

lemma with_fuel:
  "eventually (\<lambda>fuel. P (Suc fuel)) sequentially \<Longrightarrow> eventually P sequentially"
  by (simp add: eventually_sequentially_Suc)

lemma any_fuel: "(\<And>fuel. P (Suc fuel)) \<Longrightarrow> eventually P sequentially"
  by (rule with_fuel) simp

lemma drop_Cons_less: "drop i key = x # q \<Longrightarrow> i < length key \<and> key ! i = x \<and> drop (i + 1) key = q"
  by (metis Cons_nth_drop_Suc Suc_eq_plus1 drop_eq_Nil2 leI list.distinct(1) list.inject)

lemma reads_get:
  "reads env db node q y \<Longrightarrow> \<forall>key i. i \<le> length key \<longrightarrow> drop i key = q \<longrightarrow>
     eventually (\<lambda>fuel. get_at_node fuel env db node key i = Some y) sequentially"
  "ref_reads env db r q y \<Longrightarrow> \<forall>key i. i \<le> length key \<longrightarrow> drop i key = q \<longrightarrow>
     eventually (\<lambda>fuel. bind_run (resolve_node_ref env db r) (\<lambda>c. get_at_node fuel env db c key i) = Some y)
       sequentially"
proof (induction rule: reads_ref_reads.inducts)
  case (extension_on r q y k)
  have "eventually (\<lambda>fuel. get_at_node fuel env db (Extension k r) key i = Some y) sequentially"
    if i: "i \<le> length key" and q: "drop i key = k @ q" for key i
  proof (rule with_fuel)
    have p: "prefix k (drop i key)" unfolding q by simp
    then have "common_prefix_len k (drop i key) = length k" by (simp only: common_prefix_full)
    moreover have "drop (i + length k) key = q" using prefix_drop [OF p] q by simp
    ultimately show "eventually (\<lambda>fuel. get_at_node (Suc fuel) env db (Extension k r) key i = Some y) sequentially"
      using extension_on.IH prefix_drop_le [OF p i] i by (simp add: slice_from_drop)
  qed
  then show ?case by blast
next
  case (branch_on cs x r q y v)
  have "eventually (\<lambda>fuel. get_at_node fuel env db (Branch cs v) key i = Some y) sequentially"
    if "drop i key = x # q" for key i
    using drop_Cons_less [OF that] branch_on by - (rule with_fuel, simp add: nibble_at_drop Suc_le_eq)
  then show ?case by blast
next
  case (branch_none cs x v q)
  have "eventually (\<lambda>fuel. get_at_node fuel env db (Branch cs v) key i = Some (Ok None)) sequentially"
    if "drop i key = x # q" for key i
    using drop_Cons_less [OF that] branch_none by (intro any_fuel) (simp add: nibble_at_drop)
  then show ?case by blast
next
  case (branch_panic cs x v q)
  have "eventually (\<lambda>fuel. get_at_node fuel env db (Branch cs v) key i = Some Panic) sequentially"
    if "drop i key = x # q" for key i
    using drop_Cons_less [OF that] branch_panic by (intro any_fuel) (simp add: nibble_at_drop)
  then show ?case by blast
next
  case (unresolved r y q)
  then show ?case by (cases "(resolve_node_ref env db r, y)" rule: fails.cases) auto
next
  case (branch_end cs v)
  then show ?case by (auto intro!: any_fuel)
qed (auto intro!: any_fuel simp: slice_from_drop common_prefix_full)

lemma reads_unique:
  assumes "reads env db node q y" and "reads env db node q z"
  shows "y = z"
proof -
  have "eventually (\<lambda>fuel. get_at_node fuel env db node q 0 = Some y) sequentially"
    and "eventually (\<lambda>fuel. get_at_node fuel env db node q 0 = Some z) sequentially"
    using reads_get(1) assms by fastforce+
  then have "eventually (\<lambda>fuel :: nat. y = z) sequentially"
    by (rule eventually_elim2) simp
  then show ?thesis by simp
qed

subsection \<open>Types\<close>

lemma resolve_ok: "ref_ok r \<Longrightarrow> resolve_node_ref env db r = Some (Ok n) \<Longrightarrow> node_ok n"
  by (auto simp: resolve_node_ref_def load_node_def simp del: decode_raw.simps
      split: NodeRef.splits option.splits dest: decode_raw_ok)

lemma from_node_ok [simp]: "node_ok n \<Longrightarrow> ref_ok (from_node env n)"
  by (simp add: from_node_def Let_def)

lemma unat_nibble: "unat (x :: u8) < 16 \<longleftrightarrow> x < 16"
  by (simp add: word_less_nat_alt)

lemma get_child_nibble [simp]: "x < 16 \<Longrightarrow> length cs = 16 \<Longrightarrow> get_child cs x = Ok (cs ! unat x)"
  by (simp add: get_child_def unat_nibble)

lemma set_child_nibble [simp]: "x < 16 \<Longrightarrow> length cs = 16 \<Longrightarrow> set_child cs x c = Ok (cs[unat x := c])"
  by (simp add: set_child_def unat_nibble)

lemma nth_nibble: "x < (16 :: u8) \<Longrightarrow> length cs = 16 \<Longrightarrow> cs ! unat x = Some r \<Longrightarrow> Some r \<in> set cs"
  by (metis nth_mem unat_nibble)

lemma nth_update_nibble [simp]:
  "x < (16 :: u8) \<Longrightarrow> y < 16 \<Longrightarrow> length cs = 16 \<Longrightarrow>
     cs[unat x := c] ! unat y = (if x = y then c else cs ! unat y)"
  by (auto simp: nth_list_update unat_nibble word_unat_eq_iff)

lemma nth_no_children [simp]: "x < (16 :: u8) \<Longrightarrow> replicate 16 None ! unat x = None"
  by (simp add: unat_nibble)

lemma update_children_ok:
  assumes "\<And>r. Some r \<in> set cs \<Longrightarrow> ref_ok r" and "\<And>r. c = Some r \<Longrightarrow> ref_ok r"
  shows "Some r \<in> set (cs[i := c]) \<Longrightarrow> ref_ok r"
  using assms set_update_subset_insert [of cs i c] by auto

lemma branch_add_Ok:
  assumes "nibs key" and "length cs = 16"
  shows "branch_add env cs bv key c v =
    (case drop c key of
       [] \<Rightarrow> Ok (cs, Some v)
     | x # rest \<Rightarrow> Ok (cs[unat x := Some (from_node env (Leaf rest v))], bv))"
proof (cases "c < length key")
  case True
  have "key ! c < 16" using assms(1) True by (simp add: nibs_def list_all_length)
  then show ?thesis
    using True assms(2) Cons_nth_drop_Suc [OF True]
    by (auto simp: branch_add_def nibble_at_drop slice_from_drop split: list.splits)
qed (simp add: branch_add_def)

lemma split_leaf_Ok:
  assumes "nibs leaf_key" and "nibs key"
  shows "\<exists>b. split_leaf env leaf_key w key v c = Ok b \<and> node_ok b"
proof -
  have "nibs (drop c leaf_key)" "nibs (drop c key)" using assms by auto
  then show ?thesis
    using assms
    by (auto simp: split_leaf_def branch_add_Ok split: list.splits
        elim!: update_children_ok [rotated 2] intro!: from_node_ok)
qed

lemma split_extension_Ok:
  assumes "nibs er" and "nibs kr" and "ref_ok r"
  shows "\<exists>b. split_extension env er r kr v = Ok b \<and> node_ok b"
proof -
  obtain cs where cs: "length cs = 16" "\<forall>r. Some r \<in> set cs \<longrightarrow> ref_ok r"
    "split_extension env er r kr v =
       bind_res (branch_add env cs None kr 0 v) (\<lambda>(children, branch_value). Ok (Branch children branch_value))"
  proof (cases er)
    case Nil
    then show thesis using that [of "replicate 16 None"] by (simp add: split_extension_def)
  next
    case (Cons x rest)
    let ?c = "if rest = [] then r else from_node env (Extension rest r)"
    have "ref_ok ?c" using assms Cons by simp
    moreover have "x < 16" using assms Cons by simp
    ultimately show thesis
      using Cons that [of "(replicate 16 None)[unat x := Some ?c]"] update_children_ok [of "replicate 16 None" "Some ?c"]
      by (auto simp: split_extension_def nibble_at_drop slice_from_drop)
  qed
  have "nibs (drop 0 kr)" using assms by auto
  then show ?thesis
    using assms(2) cs
    by (auto simp: branch_add_Ok split: list.splits elim!: update_children_ok [rotated 2] intro!: from_node_ok)
qed

lemma under_prefix_ok: "nibs p \<Longrightarrow> node_ok b \<Longrightarrow> node_ok (under_prefix env p c b)"
  by (simp add: under_prefix_def)

subsection \<open>Insertion without fuel\<close>

definition child_node :: "TrieEnv \<Rightarrow> reader \<Rightarrow> NodeRef option \<Rightarrow> (TrieError, Node) run" where
  "child_node env db child =
     (case child of None \<Rightarrow> Some (Ok Empty) | Some r \<Rightarrow> resolve_node_ref env db r)"

inductive inserts :: "TrieEnv \<Rightarrow> reader \<Rightarrow> Node \<Rightarrow> Nibbles \<Rightarrow> bytes \<Rightarrow> Node \<Rightarrow> bool" for env db where
  empty: "inserts env db Empty p v (Leaf p v)"
| same: "inserts env db (Leaf p w) p v (Leaf p v)"
| leaf: "k \<noteq> p \<Longrightarrow> c = common_prefix_len k p \<Longrightarrow> split_leaf env k w p v c = Ok b \<Longrightarrow>
    inserts env db (Leaf k w) p v (under_prefix env (take c k) c b)"
| extension_on: "resolve_node_ref env db r = Some (Ok child) \<Longrightarrow> inserts env db child p v child' \<Longrightarrow>
    inserts env db (Extension k r) (k @ p) v (Extension k (from_node env child'))"
| extension_off: "\<not> prefix k p \<Longrightarrow> c = common_prefix_len k p \<Longrightarrow>
    split_extension env (drop c k) r (drop c p) v = Ok b \<Longrightarrow>
    inserts env db (Extension k r) p v (under_prefix env (take c k) c b)"
| branch_end: "inserts env db (Branch cs w) [] v (Branch cs (Some v))"
| branch_on: "get_child cs x = Ok slot \<Longrightarrow> child_node env db slot = Some (Ok child) \<Longrightarrow>
    inserts env db child p v child' \<Longrightarrow> set_child cs x (Some (from_node env child')) = Ok cs' \<Longrightarrow>
    inserts env db (Branch cs w) (x # p) v (Branch cs' w)"

lemma common_prefix_both: "common_prefix_len k p = length k \<and> common_prefix_len k p = length p \<longleftrightarrow> k = p"
  by (induction k p rule: common_prefix_len.induct) auto

lemma insert_inserts:
  "insert_at_node fuel env db node key i v = Some (Ok n') \<Longrightarrow> i \<le> length key \<Longrightarrow>
     inserts env db node (drop i key) v n'"
proof (induction fuel arbitrary: node i n')
  case (Suc fuel)
  note d = slice_from_drop [OF Suc.prems(2)]
  show ?case
  proof (cases node)
    case Empty
    then have "n' = Leaf (drop i key) v" using Suc.prems(1) by (simp add: d)
    then show ?thesis by (simp add: Empty inserts.empty)
  next
    case (Leaf k w)
    let ?c = "common_prefix_len k (drop i key)"
    show ?thesis
    proof (cases "k = drop i key")
      case True
      then show ?thesis
        using Suc.prems common_prefix_both [of k "drop i key"] 
        by (auto simp: d Leaf Let_def intro: inserts.same)
    next
      case False
      obtain b where b: "split_leaf env k w (drop i key) v ?c = Ok b" "n' = under_prefix env (take ?c k) ?c b"
      proof (cases "?c = 0")
        case True
        then show thesis
          using Suc.prems(1) False common_prefix_both [of k "drop i key"] that [of n']
          by (auto simp: d Leaf Let_def under_prefix_def split: if_splits)
      next
        case pos: False
        then show thesis
          using Suc.prems(1) False common_prefix_both [of k "drop i key"] that
          by (auto simp: d Leaf Let_def nibbles_slice_def split: if_splits)
      qed
      then show ?thesis using False by (simp add: Leaf b(2) inserts.leaf)
    qed
  next
    case (Extension k r)
    let ?c = "common_prefix_len k (drop i key)"
    show ?thesis
    proof (cases "prefix k (drop i key)")
      case True
      then have "?c = length k" by (simp add: common_prefix_full)
      then obtain child child' where "resolve_node_ref env db r = Some (Ok child)"
        "insert_at_node fuel env db child key (i + length k) v = Some (Ok child')"
        "n' = Extension k (from_node env child')"
        using Suc.prems(1) by (auto simp: d Extension Let_def)
      then show ?thesis
        using Suc.IH [of child "i + length k" child'] prefix_drop_le [OF True Suc.prems(2)]
        by (subst prefix_drop [OF True]) (simp add: Extension inserts.extension_on)
    next
      case False
      then have "?c \<noteq> length k" by (simp add: common_prefix_full)
      then obtain b where "split_extension env (drop ?c k) r (drop ?c (drop i key)) v = Ok b"
        "n' = under_prefix env (take ?c k) ?c b"
        using Suc.prems(1) common_prefix_len_le [of k "drop i key"]
        by (auto simp: d Extension Let_def nibbles_slice_def slice_from_drop)
      then show ?thesis using False by (simp add: Extension inserts.extension_off)
    qed
  next
    case (Branch cs w)
    show ?thesis
    proof (cases "i = length key")
      case True
      then show ?thesis using Suc.prems by (auto simp: Branch intro: inserts.branch_end)
    next
      case False
      then have i: "i < length key" using Suc.prems by simp
      then have e: "drop i key = key ! i # drop (i + 1) key" by (simp add: Cons_nth_drop_Suc)
      show ?thesis
        using Suc.prems(1) i Suc.IH [of _ "i + 1"] unfolding e Branch
        by (auto simp: nibble_at_drop child_node_def [symmetric] intro: inserts.branch_on)
    qed
  qed
qed simp

text \<open>Insertion keeps nodes well typed.\<close>

lemma inserts_ok: "inserts env db node p v n' \<Longrightarrow> node_ok node \<Longrightarrow> nibs p \<Longrightarrow> node_ok n'"
proof (induction rule: inserts.induct)
  case (leaf k p c w v b)
  then show ?case using split_leaf_Ok [of k p env w v c] by (auto intro!: under_prefix_ok)
next
  case (extension_on r child p v child' k)
  then show ?case using resolve_ok [of r env db child] by auto
next
  case (extension_off k p c r v b)
  then have "nibs (drop c k)" "nibs (drop c p)" by auto
  with extension_off show ?case
    using split_extension_Ok [of "drop c k" "drop c p" r env v] by (auto intro!: under_prefix_ok)
next
  case (branch_on cs x slot child p v child' cs' w)
  then have x: "x < 16" "nibs p" and cs: "length cs = 16" "\<And>r. Some r \<in> set cs \<Longrightarrow> ref_ok r" by auto
  then have s: "slot = cs ! unat x" "cs' = cs[unat x := Some (from_node env child')]"
    using branch_on.hyps by auto
  have "node_ok child"
    using branch_on.hyps(2) nth_nibble [OF x(1) cs(1)]
    by (auto simp: s child_node_def split: option.splits intro: resolve_ok cs(2))
  then have "node_ok child'" using branch_on.IH x(2) by simp
  then show ?case using cs update_children_ok [of cs "Some (from_node env child')"] by (auto simp: s)
qed auto

subsection \<open>Insertion and lookup\<close>

text \<open>
  A database that gives back the node a reference was made for, or reports that it has none.  In an
  empty database this is the case, and in general it says that no stored node was replaced by another
  one under the same hash.
\<close>

locale honest_store =
  fixes env :: TrieEnv and db :: reader
  assumes honest: "node_ok n \<Longrightarrow> resolve_node_ref env db (from_node env n) = Some (Ok n) \<or>
      resolve_node_ref env db (from_node env n) = Some (Err KeyNotFound)"
begin

definition yields :: "Node \<Rightarrow> Nibbles \<Rightarrow> (TrieError, bytes option) result \<Rightarrow> bool" where
  "yields n q y \<longleftrightarrow> reads env db n q y \<or> reads env db n q (Err KeyNotFound)"

definition ref_yields :: "NodeRef \<Rightarrow> Nibbles \<Rightarrow> (TrieError, bytes option) result \<Rightarrow> bool" where
  "ref_yields r q y \<longleftrightarrow> ref_reads env db r q y \<or> ref_reads env db r q (Err KeyNotFound)"

lemma ref_yields_from_node: "node_ok n \<Longrightarrow> yields n q y \<Longrightarrow> ref_yields (from_node env n) q y"
  using honest [of n] by (auto simp: yields_def ref_yields_def ref_reads_iff)

lemma yields_simps [simp]:
  "yields Empty q y \<longleftrightarrow> y = Ok None"
  "yields (Leaf k v) q y \<longleftrightarrow> y = Ok (if q = k then Some v else None)"
  "yields (Extension k r) (k @ q) y \<longleftrightarrow> ref_yields r q y"
  "yields (Branch cs w) [] y \<longleftrightarrow> y = Ok w"
  by (auto simp: yields_def ref_yields_def)

lemma yields_Branch_Cons:
  "x < 16 \<Longrightarrow> length cs = 16 \<Longrightarrow>
     yields (Branch cs v) (x # q) y \<longleftrightarrow>
       (case cs ! unat x of None \<Rightarrow> y = Ok None | Some r \<Rightarrow> ref_yields r q y)"
  by (auto simp: yields_def ref_yields_def reads_Branch_Cons split: option.splits)

lemma yields_Extension_off: "\<not> prefix k q \<Longrightarrow> yields (Extension k r) q y \<longleftrightarrow> y = Ok None"
  by (auto simp: yields_def reads_Extension_off)

lemma yields_under_prefix:
  assumes "node_ok b" and "length pre = c" and "yields b q y"
  shows "yields (under_prefix env pre c b) (pre @ q) y"
  using assms ref_yields_from_node [OF assms(1,3)] by (auto simp: under_prefix_def)

lemma yields_under_prefix_off:
  assumes "length pre = c" and "\<not> prefix pre q"
  shows "yields (under_prefix env pre c b) q (Ok None)"
  using assms by (cases "c = 0") (auto simp: under_prefix_def yields_Extension_off)

lemma split_leaf_yields:
  assumes "split_leaf env k w p v c = Ok b" and "nibs k" and "nibs p" and "nibs q"
    and "drop c k \<noteq> drop c p"
    and "\<And>x xs y ys. drop c k = x # xs \<Longrightarrow> drop c p = y # ys \<Longrightarrow> x \<noteq> y"
  shows "yields b q (Ok (if q = drop c p then Some v else if q = drop c k then Some w else None))"
proof -
  have nk: "nibs (drop c k)" and np: "nibs (drop c p)" using assms by auto
  have leaf: "ref_yields (from_node env (Leaf r u)) r (Ok (Some u))"
    "s \<noteq> r \<Longrightarrow> ref_yields (from_node env (Leaf r u)) s (Ok None)" if "nibs r" for r s u
    using that by (auto intro!: ref_yields_from_node)
  show ?thesis
  proof (cases q)
    case Nil
    then show ?thesis
      using assms(1-3,5) by (auto simp: split_leaf_def branch_add_Ok split: list.splits)
  next
    case (Cons x qs)
    then have x: "x < 16" using assms(4) by simp
    show ?thesis
      using assms(1-3,5) nk np x
      by (cases "drop c k"; cases "drop c p"; insert assms(6))
        (auto simp: leaf split_leaf_def branch_add_Ok Cons yields_Branch_Cons)
  qed
qed

lemma yields_reads: "reads env db n q y \<Longrightarrow> yields n q y"
  by (simp add: yields_def)

lemma ref_yields_reads: "ref_reads env db r q y \<Longrightarrow> ref_yields r q y"
  by (simp add: ref_yields_def)

lemma split_extension_yields:
  assumes "split_extension env er r kr v = Ok b" and "nibs er" and "nibs kr" and "nibs q" and "ref_ok r"
    and "er \<noteq> []" and "\<And>x xs y ys. er = x # xs \<Longrightarrow> kr = y # ys \<Longrightarrow> x \<noteq> y"
  shows "yields b kr (Ok (Some v))"
    and "q \<noteq> kr \<Longrightarrow> reads env db (Extension er r) q y \<Longrightarrow> yields b q y"
proof -
  obtain e es where er: "er = e # es" using assms(6) by (cases er) auto
  let ?c = "if es = [] then r else from_node env (Extension es r)"
  let ?leaf = "\<lambda>ks. Some (from_node env (Leaf ks v))"
  let ?cs = "(replicate 16 None)[unat e := Some ?c]"
  have e: "e < 16" "nibs es" using assms(2) er by auto
  have b: "b = (case kr of [] \<Rightarrow> Branch ?cs (Some v) | k # ks \<Rightarrow> Branch (?cs[unat k := ?leaf ks]) None)"
    using assms(1,3) e er
    by (auto simp: split_extension_def nibble_at_drop slice_from_drop branch_add_Ok split: list.splits)
  have leaf: "ref_yields (from_node env (Leaf ks u)) ks (Ok (Some u))"
    "s \<noteq> ks \<Longrightarrow> ref_yields (from_node env (Leaf ks u)) s (Ok None)" if "nibs ks" for ks s u
    using that by (auto intro!: ref_yields_from_node)
  show "yields b kr (Ok (Some v))"
    using assms(3) e by (cases kr) (auto simp: b yields_Branch_Cons leaf)
  have ext: "ref_yields ?c qs y" if "reads env db (Extension er r) (e # qs) y" for qs
  proof (cases "es = []")
    case True
    then show ?thesis
      using that reads_Extension_append [of env db "[e]" r qs y] by (simp add: er ref_yields_reads)
  next
    case False
    have "reads env db (Extension es r) qs y"
      using that by (auto simp: er reads_Extension)
    then show ?thesis
      using False e assms(5) by (auto intro!: ref_yields_from_node yields_reads)
  qed
  show "yields b q y" if "q \<noteq> kr" and "reads env db (Extension er r) q y"
  proof (cases q)
    case Nil
    then show ?thesis using that er by (auto simp: b reads_Extension split: list.splits)
  next
    case (Cons x qs)
    have x: "x < 16" using assms(4) Cons by simp
    have off: "y = Ok None" if "x \<noteq> e"
      using \<open>reads env db (Extension er r) q y\<close> that by (auto simp: er Cons reads_Extension)
    show ?thesis
      using that assms(3,7) e x ext off er
      by (cases kr) (auto simp: b Cons yields_Branch_Cons leaf)
  qed
qed

text \<open>
  A path \<open>q\<close> that does not share the prefix of an extension or leaf is absent below it; one that does
  is looked up behind the prefix.
\<close>

lemma common_prefix_cases:
  obtains (on) q' where "q = take c k @ q'" | (off) "\<not> prefix (take c k) q"
  by (meson prefixE)

lemma common_prefix_parts:
  assumes "c = common_prefix_len k p"
  shows "length (take c k) = c" "take c k @ drop c k = k" "take c k @ drop c p = p"
  using common_prefix_len_le [of k p] common_prefix_take [of k p]
  by (simp_all add: assms) (metis append_take_drop_id)

lemma inserts_yields:
  assumes "inserts env db node p v n'" and "node_ok node" and "nibs p"
  shows "yields n' p (Ok (Some v)) \<and>
    (\<forall>q y. q \<noteq> p \<longrightarrow> nibs q \<longrightarrow> reads env db node q y \<longrightarrow> yields n' q y)"
  using assms
proof (induction rule: inserts.induct)
  case (leaf k p c w v b)
  have ok: "node_ok b" using split_leaf_Ok [of k p env w v c] leaf by auto
  note len = common_prefix_parts(1) [OF leaf.hyps(2)] and k = common_prefix_parts(2) [OF leaf.hyps(2)]
    and p = common_prefix_parts(3) [OF leaf.hyps(2)]
  have ne: "drop c k \<noteq> drop c p" using k p leaf.hyps(1) by metis
  have y: "yields b q (Ok (if q = drop c p then Some v else if q = drop c k then Some w else None))"
    if "nibs q" for q
    using leaf that ne common_prefix_split [of k p] by (intro split_leaf_yields [where c = c]) auto
  have "yields (under_prefix env (take c k) c b) (take c k @ drop c p) (Ok (Some v))"
    using y [of "drop c p"] leaf by (intro yields_under_prefix [OF ok len]) auto
  moreover have "yields (under_prefix env (take c k) c b) q x"
    if "q \<noteq> p" "nibs q" "reads env db (Leaf k w) q x" for q x
  proof (cases q c k rule: common_prefix_cases)
    case (on q')
    have "q' \<noteq> drop c p" and "q = k \<longleftrightarrow> q' = drop c k" and "nibs q'"
      using that(1,2) on k p by (metis, metis same_append_eq, simp)
    moreover have "x = Ok (if q = k then Some w else None)" using that(3) by simp
    ultimately have "yields b q' x" using y [of q'] by simp
    then have "yields (under_prefix env (take c k) c b) (take c k @ q') x"
      by (rule yields_under_prefix [OF ok len])
    then show ?thesis by (simp only: on)
  next
    case off
    then have "q \<noteq> k" using k by (metis prefixI)
    then show ?thesis using that(3) yields_under_prefix_off [OF len off] by simp
  qed
  ultimately show ?case using p by simp
next
  case (extension_on r child p v child' k)
  have ok: "node_ok child" using resolve_ok extension_on by auto
  then have ok': "node_ok child'" using inserts_ok extension_on by auto
  have "yields (Extension k (from_node env child')) q y"
    if "q \<noteq> k @ p" "nibs q" "reads env db (Extension k r) q y" for q y
  proof (cases "prefix k q")
    case True
    then obtain q' where q: "q = k @ q'" by (elim prefixE)
    then have "reads env db child q' y"
      using that(3) extension_on.hyps by (auto simp: ref_reads_iff)
    then have "yields child' q' y" using extension_on ok that q by auto
    then show ?thesis using q ok' by (simp add: ref_yields_from_node)
  next
    case False
    then show ?thesis using that(3) by (simp add: reads_Extension_off yields_Extension_off)
  qed
  then show ?case using extension_on ok ok' by (auto intro!: ref_yields_from_node)
next
  case (extension_off k p c r v b)
  have nk: "nibs (drop c k)" "nibs (drop c p)" "ref_ok r" using extension_off by auto
  have ok: "node_ok b" using split_extension_Ok [OF nk, of env v] extension_off by auto
  note len = common_prefix_parts(1) [OF extension_off.hyps(2)] and
    k = common_prefix_parts(2) [OF extension_off.hyps(2)] and
    p = common_prefix_parts(3) [OF extension_off.hyps(2)]
  have ne: "drop c k \<noteq> []" using extension_off.hyps(1) k p by (metis append_Nil2 prefixI)
  have heads: "x \<noteq> y" if "drop c k = x # xs" "drop c p = y # ys" for x xs y ys
    using common_prefix_split that extension_off.hyps(2) by metis
  note sy = split_extension_yields [OF extension_off.hyps(3) nk(1,2) _ nk(3) ne]
  have "yields b (drop c p) (Ok (Some v))" by (rule sy(1) [of "[]"]) (use heads in auto)
  then have "yields (under_prefix env (take c k) c b) (take c k @ drop c p) (Ok (Some v))"
    by (rule yields_under_prefix [OF ok len])
  moreover have "yields (under_prefix env (take c k) c b) q y"
    if "q \<noteq> p" "nibs q" "reads env db (Extension k r) q y" for q y
  proof (cases q c k rule: common_prefix_cases)
    case (on q')
    have "reads env db (Extension (take c k @ drop c k) r) (take c k @ q') y" using that(3) k on by simp
    then have "reads env db (Extension (drop c k) r) q' y" by (rule reads_Extension_strip)
    moreover have "q' \<noteq> drop c p" using that(1) on p by metis
    ultimately have "yields b q' y" by (intro sy(2)) (use heads that(2) on in auto)
    then have "yields (under_prefix env (take c k) c b) (take c k @ q') y"
      by (rule yields_under_prefix [OF ok len])
    then show ?thesis by (simp only: on)
  next
    case off
    then have "\<not> prefix k q" using k by (metis append_prefixD)
    then show ?thesis using that(3) yields_under_prefix_off [OF len off] by (simp add: reads_Extension_off)
  qed
  ultimately show ?case using p by simp
next
  case (branch_end cs w v)
  then show ?case
    by (auto simp: neq_Nil_conv reads_Branch_Cons yields_Branch_Cons intro!: ref_yields_reads)
next
  case (branch_on cs x slot child p v child' cs' w)
  then have x: "x < 16" "nibs p" and cs: "length cs = 16" "\<And>r. Some r \<in> set cs \<Longrightarrow> ref_ok r" by auto
  then have s: "slot = cs ! unat x" "cs' = cs[unat x := Some (from_node env child')]"
    using branch_on.hyps by auto
  have "node_ok child"
    using branch_on.hyps(2) nth_nibble [OF x(1) cs(1)]
    by (auto simp: s child_node_def split: option.splits intro: resolve_ok cs(2))
  then have ih: "yields child' p (Ok (Some v))"
    "\<And>q y. q \<noteq> p \<Longrightarrow> nibs q \<Longrightarrow> reads env db child q y \<Longrightarrow> yields child' q y" and ok: "node_ok child'"
    using branch_on.IH branch_on.hyps(3) x(2) inserts_ok by auto
  have "yields (Branch cs' w) q y" if "q \<noteq> x # p" "nibs q" "reads env db (Branch cs w) q y" for q y
  proof (cases q)
    case Nil
    then show ?thesis using that(3) by simp
  next
    case (Cons z qs)
    show ?thesis
    proof (cases "z = x")
      case True
      have "reads env db child qs y"
        using that(3) branch_on.hyps(2) x cs(1)
        by (auto simp: Cons True reads_Branch_Cons s(1) child_node_def ref_reads_iff split: option.splits)
      then show ?thesis
        using ih(2) [of qs y] that x cs(1) ok by (simp add: Cons True s yields_Branch_Cons ref_yields_from_node)
    next
      case False
      then show ?thesis
        using that x cs(1) yields_reads [OF that(3)] by (simp add: Cons s yields_Branch_Cons)
    qed
  qed
  then show ?case using x cs(1) ih(1) ok by (simp add: s yields_Branch_Cons ref_yields_from_node)
qed auto

end

subsection \<open>Deletion without fuel\<close>

inductive deletes :: "TrieEnv \<Rightarrow> reader \<Rightarrow> Node \<Rightarrow> Nibbles \<Rightarrow> Node \<Rightarrow> bool \<Rightarrow> bool" for env db where
  empty: "deletes env db Empty p Empty False"
| leaf_on: "deletes env db (Leaf p v) p Empty True"
| leaf_off: "k \<noteq> p \<Longrightarrow> deletes env db (Leaf k v) p (Leaf k v) False"
| extension_off: "\<not> prefix k p \<Longrightarrow> deletes env db (Extension k r) p (Extension k r) False"
| extension_keep: "resolve_node_ref env db r = Some (Ok child) \<Longrightarrow> deletes env db child p child' False \<Longrightarrow>
    deletes env db (Extension k r) (k @ p) (Extension k r) False"
| extension_on: "resolve_node_ref env db r = Some (Ok child) \<Longrightarrow> deletes env db child p child' True \<Longrightarrow>
    deletes env db (Extension k r) (k @ p) (collapse_extension env k child') True"
| branch_end_none: "deletes env db (Branch cs None) [] (Branch cs None) False"
| branch_end: "try_compact_branch env db cs None = Some (Ok n') \<Longrightarrow>
    deletes env db (Branch cs (Some w)) [] n' True"
| branch_none: "get_child cs x = Ok None \<Longrightarrow> deletes env db (Branch cs w) (x # p) (Branch cs w) False"
| branch_keep: "get_child cs x = Ok (Some r) \<Longrightarrow> resolve_node_ref env db r = Some (Ok child) \<Longrightarrow>
    deletes env db child p child' False \<Longrightarrow> deletes env db (Branch cs w) (x # p) (Branch cs w) False"
| branch_on: "get_child cs x = Ok (Some r) \<Longrightarrow> resolve_node_ref env db r = Some (Ok child) \<Longrightarrow>
    deletes env db child p child' True \<Longrightarrow>
    set_child cs x (if child' = Empty then None else Some (from_node env child')) = Ok cs' \<Longrightarrow>
    try_compact_branch env db cs' w = Some (Ok n') \<Longrightarrow> deletes env db (Branch cs w) (x # p) n' True"

lemma delete_deletes:
  "delete_at_node fuel env db node key i = Some (Ok (n', b)) \<Longrightarrow> i \<le> length key \<Longrightarrow>
     deletes env db node (drop i key) n' b"
proof (induction fuel arbitrary: node i n' b)
  case (Suc fuel)
  note d = slice_from_drop [OF Suc.prems(2)]
  show ?case
  proof (cases node)
    case Empty
    then show ?thesis using Suc.prems by (auto intro: deletes.empty)
  next
    case (Leaf k w)
    then show ?thesis
      using Suc.prems by (auto simp: d intro: deletes.leaf_on deletes.leaf_off split: if_splits)
  next
    case (Extension k r)
    show ?thesis
    proof (cases "prefix k (drop i key)")
      case True
      then have "common_prefix_len k (drop i key) = length k" by (simp add: common_prefix_full)
      then obtain child child' where c: "resolve_node_ref env db r = Some (Ok child)"
        "delete_at_node fuel env db child key (i + length k) = Some (Ok (child', b))"
        "n' = (if b then collapse_extension env k child' else Extension k r)"
        using Suc.prems(1) by (auto simp: d Extension Let_def split: if_splits)
      have "deletes env db child (drop (i + length k) key) child' b"
        using Suc.IH [OF c(2)] prefix_drop_le [OF True Suc.prems(2)] by simp
      then show ?thesis
        using c(1) by (subst prefix_drop [OF True])
          (cases b; simp add: Extension c(3) deletes.extension_on deletes.extension_keep)
    next
      case False
      then have "common_prefix_len k (drop i key) \<noteq> length k" by (simp add: common_prefix_full)
      then show ?thesis
        using Suc.prems(1) False by (auto simp: d Extension Let_def intro: deletes.extension_off)
    qed
  next
    case (Branch cs w)
    show ?thesis
    proof (cases "i = length key")
      case True
      then show ?thesis
        using Suc.prems(1)
        by (auto simp: Branch intro: deletes.branch_end deletes.branch_end_none split: if_splits)
    next
      case False
      then have i: "i < length key" using Suc.prems by simp
      then have e: "drop i key = key ! i # drop (i + 1) key" by (simp add: Cons_nth_drop_Suc)
      obtain slot where slot: "get_child cs (key ! i) = Ok slot"
        using Suc.prems(1) i by (auto simp: Branch nibble_at_drop)
      show ?thesis
      proof (cases slot)
        case None
        then show ?thesis
          using Suc.prems(1) i slot by (auto simp: Branch e nibble_at_drop intro: deletes.branch_none)
      next
        case (Some r)
        then obtain child child' b' where c: "resolve_node_ref env db r = Some (Ok child)"
          "delete_at_node fuel env db child key (i + 1) = Some (Ok (child', b'))"
          "if b' then b \<and> (\<exists>cs'. set_child cs (key ! i) (if child' = Empty then None
              else Some (from_node env child')) = Ok cs' \<and> try_compact_branch env db cs' w = Some (Ok n'))
            else \<not> b \<and> n' = Branch cs w"
          using Suc.prems(1) i slot by (auto simp: Branch nibble_at_drop split: if_splits)
        have "deletes env db child (drop (i + 1) key) child' b'" using Suc.IH [OF c(2)] i by simp
        then show ?thesis
          using c(1,3) slot Some unfolding Branch e
          by (cases b') (auto intro: deletes.branch_on deletes.branch_keep)
      qed
    qed
  qed
qed simp

text \<open>The occupied slots of a branch, in order.\<close>

definition slots :: "NodeRef option list \<Rightarrow> (nat \<times> NodeRef) list" where
  "slots cs = [(i, r). (i, Some r) \<leftarrow> List.enumerate 0 cs]"

lemma in_slots: "(i, r) \<in> set (slots cs) \<longleftrightarrow> i < length cs \<and> cs ! i = Some r"
  by (force simp: slots_def in_set_enumerate_eq split: option.splits)

lemma slots_Nil: "slots cs = [] \<Longrightarrow> i < length cs \<Longrightarrow> cs ! i = None"
  using in_slots [of i _ cs] by (cases "cs ! i") auto

lemma slots_single: "slots cs = [(j, r)] \<Longrightarrow> i < length cs \<Longrightarrow> cs ! i = (if i = j then Some r else None)"
  using in_slots [of i _ cs] in_slots [of j r cs] by (cases "cs ! i") auto

lemma try_compact_slots:
  "try_compact_branch env db cs v =
     (case (slots cs, v) of
        ([], None) \<Rightarrow> Some (Ok Empty)
      | ([], Some bs) \<Rightarrow> Some (Ok (Leaf [] bs))
      | ([(i, r)], None) \<Rightarrow>
          bind_run (resolve_node_ref env db r) (\<lambda>child. Some (Ok (compact_child i r child)))
      | _ \<Rightarrow> Some (Ok (Branch cs v)))"
  unfolding try_compact_branch_def slots_def Let_def by (rule refl)

text \<open>Compaction keeps the contents and the types of a branch.\<close>

lemma try_compact_cases:
  assumes "try_compact_branch env db cs v = Some (Ok n')"
  obtains (keep) "n' = Branch cs v" | (none) "slots cs = []" "v = None" "n' = Empty"
  | (here) bs where "slots cs = []" "v = Some bs" "n' = Leaf [] bs"
  | (single) i r child where "slots cs = [(i, r)]" "v = None" "resolve_node_ref env db r = Some (Ok child)"
      "n' = compact_child i r child"
proof (cases "slots cs")
  case Nil
  then show thesis using assms none here by (cases v) (auto simp: try_compact_slots)
next
  case (Cons e es)
  obtain i r where e: "e = (i, r)" by (cases e)
  show thesis
  proof (cases "es = [] \<and> v = None")
    case True
    then show thesis using assms Cons single by (auto simp: try_compact_slots e)
  next
    case False
    then have "n' = Branch cs v" using assms Cons e by (cases es; cases v) (simp_all add: try_compact_slots)
    then show thesis by (rule keep)
  qed
qed

lemma slot_nibble:
  assumes "slots cs = [(i, r)]" and "length cs = 16"
  shows "of_nat i < (16 :: u8)" and "unat (of_nat i :: u8) = i" and "cs ! i = Some r" and "Some r \<in> set cs"
proof -
  have i: "i < 16" "cs ! i = Some r" using in_slots [of i r cs] assms by auto
  then show "unat (of_nat i :: u8) = i" by (simp add: unat_of_nat)
  with i show "of_nat i < (16 :: u8)" by (simp add: word_less_nat_alt)
  from i show "cs ! i = Some r" "Some r \<in> set cs" using assms(2) by (auto simp: in_set_conv_nth)
qed

lemma try_compact_ok:
  assumes "try_compact_branch env db cs v = Some (Ok n')" and "node_ok (Branch cs v)"
  shows "node_ok n'"
  using assms(1)
proof (cases rule: try_compact_cases)
  case (single i r child)
  have ok: "ref_ok r" "of_nat i < (16 :: u8)" using slot_nibble [OF single(1)] assms(2) by auto
  then have "node_ok child" using single(3) by (rule_tac resolve_ok)
  then show ?thesis using ok by (cases child) (auto simp: single(4) compact_child_def nibbles_extend_def)
qed (use assms in auto)

lemma try_compact_reads:
  assumes "try_compact_branch env db cs v = Some (Ok n')" and "length cs = 16" and "nibs q"
    and "reads env db (Branch cs v) q y"
  shows "reads env db n' q y"
proof (cases q)
  case Nil
  from assms(1) show ?thesis
    by (cases rule: try_compact_cases)
      (use assms(4) Nil in \<open>auto simp: reads_Extension compact_child_def nibbles_extend_def split: Node.splits\<close>)
next
  case (Cons x qs)
  have x: "x < 16" "unat x < length cs" using assms(2,3) by (auto simp: Cons unat_nibble)
  have b: "case cs ! unat x of None \<Rightarrow> y = Ok None | Some r \<Rightarrow> ref_reads env db r qs y"
    using assms(2,4) x by (auto simp: Cons reads_Branch_Cons split: option.splits)
  from assms(1) show ?thesis
  proof (cases rule: try_compact_cases)
    case (single i r child)
    note i = slot_nibble [OF single(1) assms(2)]
    show ?thesis
    proof (cases "x = of_nat i")
      case True
      then have "reads env db child qs y"
        using b i single(3) by (auto simp: ref_reads_iff)
      then show ?thesis
        using True single(3) reads_Extension_append [of env db "[x]" r qs y]
        by (cases child) (auto simp: single(4) compact_child_def nibbles_extend_def Cons reads_Extension ref_reads_iff)
    next
      case False
      then have "unat x \<noteq> i" using i(2) by auto
      then have "y = Ok None" using b slots_single [OF single(1) x(2)] by simp
      then show ?thesis
        using False by (cases child) (auto simp: single(4) compact_child_def nibbles_extend_def Cons reads_Extension)
    qed
  qed (use assms(4) b slots_Nil x in \<open>auto simp: Cons\<close>)
qed

lemma collapse_ok: "nibs k \<Longrightarrow> node_ok n \<Longrightarrow> node_ok (collapse_extension env k n)"
  by (cases n) (auto simp: collapse_extension_def nibbles_extend_def)

lemma deletes_ok: "deletes env db node p n' b \<Longrightarrow> node_ok node \<Longrightarrow> nibs p \<Longrightarrow> node_ok n'"
proof (induction rule: deletes.induct)
  case (extension_on r child p child' k)
  then show ?case using resolve_ok [of r env db child] by (auto intro: collapse_ok)
next
  case (branch_end cs n' w)
  then show ?case by (auto intro: try_compact_ok)
next
  case (branch_on cs x r child p child' cs' w n')
  then have x: "x < 16" "nibs p" and cs: "length cs = 16" "\<And>r. Some r \<in> set cs \<Longrightarrow> ref_ok r" by auto
  then have "Some r \<in> set cs" using branch_on.hyps(1) nth_nibble [OF x(1) cs(1)] by auto
  then have "node_ok child'" using branch_on resolve_ok [of r env db child] cs x by auto
  then have ref: "\<And>r. (if child' = Empty then None else Some (from_node env child')) = Some r \<Longrightarrow> ref_ok r"
    by (auto split: if_splits)
  have "cs' = cs[unat x := if child' = Empty then None else Some (from_node env child')]"
    using branch_on.hyps(4) x cs(1) by simp
  then have "node_ok (Branch cs' w)" using cs(1) update_children_ok [OF cs(2) ref] by auto
  with branch_on.hyps(5) show ?case by (rule try_compact_ok)
qed auto

text \<open>Deletion answers whether the key was there.\<close>

lemma deletes_reads:
  "deletes env db node p n' b \<Longrightarrow> node_ok node \<Longrightarrow> nibs p \<Longrightarrow>
     (if b then \<exists>w. reads env db node p (Ok (Some w)) else n' = node \<and> reads env db node p (Ok None))"
proof (induction rule: deletes.induct)
  case (extension_off k p r)
  then show ?case by (simp add: reads_Extension_off)
next
  case (extension_keep r child p child' k)
  then show ?case using resolve_ok [of r env db child] by (auto simp: ref_reads_iff)
next
  case (extension_on r child p child' k)
  then show ?case using resolve_ok [of r env db child] by (auto simp: ref_reads_iff)
next
  case (branch_keep cs x r child p child' w)
  then have "Some r \<in> set cs" using nth_nibble [of x cs r] by auto
  then show ?case
    using branch_keep resolve_ok [of r env db child] by (auto simp: reads_Branch_Cons ref_reads_iff)
next
  case (branch_on cs x r child p child' cs' w n')
  then have "Some r \<in> set cs" using nth_nibble [of x cs r] by auto
  then show ?case
    using branch_on resolve_ok [of r env db child] by (auto simp: reads_Branch_Cons ref_reads_iff)
qed (auto simp: reads_Branch_Cons)

context honest_store
begin

lemma collapse_yields:
  assumes "node_ok n" and "yields n q y"
  shows "yields (collapse_extension env k n) (k @ q) y"
proof (cases n)
  case (Extension k' r)
  then show ?thesis
    using assms(2) by (auto simp: collapse_extension_def nibbles_extend_def yields_def intro: reads_Extension_join)
next
  case (Branch cs v)
  then show ?thesis
    using ref_yields_from_node [OF assms] by (simp add: collapse_extension_def)
qed (use assms in \<open>auto simp: collapse_extension_def nibbles_extend_def\<close>)

lemma collapse_yields_off:
  assumes "\<not> prefix k q"
  shows "yields (collapse_extension env k n) q (Ok None)"
proof -
  have "\<not> prefix (k @ k') q" for k' using assms append_prefixD by blast
  moreover have "q \<noteq> k @ k'" for k' using assms by auto
  ultimately show ?thesis
    using assms by (cases n) (auto simp: collapse_extension_def nibbles_extend_def yields_Extension_off)
qed

lemma try_compact_yields:
  assumes "try_compact_branch env db cs v = Some (Ok n')" and "length cs = 16" and "nibs q"
    and "yields (Branch cs v) q y"
  shows "yields n' q y"
  using assms try_compact_reads [OF assms(1-3)] by (auto simp: yields_def)

lemma deletes_yields:
  assumes "deletes env db node p n' b" and "b" and "node_ok node" and "nibs p"
  shows "yields n' p (Ok None) \<and>
    (\<forall>q y. q \<noteq> p \<longrightarrow> nibs q \<longrightarrow> reads env db node q y \<longrightarrow> yields n' q y)"
  using assms
proof (induction rule: deletes.induct)
  case (extension_on r child p child' k)
  have ok: "node_ok child" using resolve_ok extension_on by auto
  then have ih: "yields child' p (Ok None)"
    "\<And>q y. q \<noteq> p \<Longrightarrow> nibs q \<Longrightarrow> reads env db child q y \<Longrightarrow> yields child' q y" and ok': "node_ok child'"
    using extension_on deletes_ok by auto
  have "yields (collapse_extension env k child') q y"
    if "q \<noteq> k @ p" "nibs q" "reads env db (Extension k r) q y" for q y
  proof (cases "prefix k q")
    case True
    then obtain q' where q: "q = k @ q'" by (elim prefixE)
    then have "reads env db child q' y" using that(3) extension_on.hyps by (auto simp: ref_reads_iff)
    then show ?thesis using ih(2) [of q' y] that q collapse_yields [OF ok'] by auto
  next
    case False
    then show ?thesis using that(3) by (simp add: reads_Extension_off collapse_yields_off)
  qed
  then show ?case using collapse_yields [OF ok' ih(1)] by blast
next
  case (branch_end cs n' w)
  have "yields (Branch cs None) q y" if "q \<noteq> []" "nibs q" "reads env db (Branch cs (Some w)) q y" for q y
    using that branch_end.prems
    by (auto simp: neq_Nil_conv reads_Branch_Cons yields_Branch_Cons intro!: ref_yields_reads)
  then show ?case
    using branch_end.prems try_compact_yields [OF branch_end.hyps] by auto
next
  case (branch_on cs x r child p child' cs' w n')
  then have x: "x < 16" "nibs p" and cs: "length cs = 16" "\<And>r. Some r \<in> set cs \<Longrightarrow> ref_ok r" by auto
  have r: "cs ! unat x = Some r" using branch_on.hyps(1) x cs by simp
  have cs': "cs' = cs[unat x := if child' = Empty then None else Some (from_node env child')]"
    using branch_on.hyps(4) x cs(1) by simp
  have "node_ok child" using branch_on.hyps(2) nth_nibble [OF x(1) cs(1) r] cs(2) by (auto intro: resolve_ok)
  then have ih: "yields child' p (Ok None)"
    "\<And>q y. q \<noteq> p \<Longrightarrow> nibs q \<Longrightarrow> reads env db child q y \<Longrightarrow> yields child' q y" and ok': "node_ok child'"
    using branch_on x deletes_ok by auto
  have slot: "yields (Branch cs' w) (x # q) y" if "yields child' q y" for q y
    using that x cs(1) ok' by (auto simp: cs' yields_Branch_Cons intro: ref_yields_from_node)
  have "yields (Branch cs' w) q y" if "q \<noteq> x # p" "nibs q" "reads env db (Branch cs w) q y" for q y
  proof (cases q)
    case (Cons z qs)
    show ?thesis
    proof (cases "z = x")
      case True
      have "reads env db child qs y"
        using that(3) branch_on.hyps(2) x cs(1) r by (auto simp: Cons True reads_Branch_Cons ref_reads_iff)
      then show ?thesis using slot ih(2) that by (auto simp: Cons True)
    next
      case False
      then show ?thesis
        using that x cs(1) yields_reads [OF that(3)] by (simp add: Cons cs' yields_Branch_Cons)
    qed
  qed (use that(3) in simp)
  then show ?case
    using try_compact_yields [OF branch_on.hyps(5)] slot [OF ih(1)] x cs(1) cs' by auto
qed auto

end

end
