(* ===== verification/Trie_Runs.thy ===== *)
theory Trie_Runs
  imports Trie_Map
begin

text \<open>
  Histories of a trie.  \<open>trie_runs env t ops t'\<close> says that the successful insertions and deletions of a
  client took the trie from \<open>t\<close> to \<open>t'\<close>, in this order, with failed calls and calls of \<^verbatim>\<open>root_hash\<close> at
  any place between them.  The map that such a history stands for is \<open>history_map\<close>.
\<close>

datatype TrieOp = Insert bytes bytes | Remove bytes

inductive trie_runs :: "TrieEnv \<Rightarrow> PatriciaTrie \<Rightarrow> TrieOp list \<Rightarrow> PatriciaTrie \<Rightarrow> bool" for env t where
  start: "trie_runs env t [] t"
| insert: "trie_runs env t ops t1 \<Longrightarrow> trie_insert fuel env t1 k v = Some (Ok (), t2) \<Longrightarrow>
    trie_runs env t (ops @ [Insert k v]) t2"
| delete: "trie_runs env t ops t1 \<Longrightarrow> trie_delete fuel env t1 k = Some (Ok b, t2) \<Longrightarrow>
    trie_runs env t (ops @ [Remove k]) t2"
| insert_fails: "trie_runs env t ops t1 \<Longrightarrow> trie_insert fuel env t1 k v = Some (y, t2) \<Longrightarrow> y \<noteq> Ok () \<Longrightarrow>
    trie_runs env t ops t2"
| delete_fails: "trie_runs env t ops t1 \<Longrightarrow> trie_delete fuel env t1 k = Some (y, t2) \<Longrightarrow> \<not> (\<exists>b. y = Ok b) \<Longrightarrow>
    trie_runs env t ops t2"
| hashed: "trie_runs env t ops t1 \<Longrightarrow> root_hash env t1 = (h, t2) \<Longrightarrow> trie_runs env t ops t2"

fun trie_effect :: "(bytes \<rightharpoonup> bytes) \<Rightarrow> TrieOp \<Rightarrow> (bytes \<rightharpoonup> bytes)" where
  "trie_effect m (Insert k v) = m(k \<mapsto> v)"
| "trie_effect m (Remove k) = m(k := None)"

definition history_map :: "TrieOp list \<Rightarrow> (bytes \<rightharpoonup> bytes)" where
  "history_map ops = foldl trie_effect Map.empty ops"

lemma history_map_simps [simp]:
  "history_map [] = Map.empty"
  "history_map (ops @ [op]) = trie_effect (history_map ops) op"
  by (simp_all add: history_map_def)

subsection \<open>The invariant of the trie\<close>

text \<open>The root is well typed and a cached root hash is the hash of the root.\<close>

definition trie_ok :: "TrieEnv \<Rightarrow> PatriciaTrie \<Rightarrow> bool" where
  "trie_ok env t \<longleftrightarrow> node_ok (trie_root t) \<and>
     (case trie_root_hash t of None \<Rightarrow> True | Some h \<Rightarrow> h = node_hash env (trie_root t))"

lemma trie_ok_new [simp]: "trie_ok env (trie_new db)"
  by (simp add: trie_ok_def trie_new_def)

lemma trie_insert_Ok:
  assumes "trie_insert fuel env t k v = Some (Ok (), t')"
  shows "inserts env (db_get (trie_db t)) (trie_root t) (from_bytes k) v (trie_root t')"
    and "trie_db t' = trie_db t" and "trie_root_hash t' = None"
  using assms insert_inserts [of fuel env "db_get (trie_db t)" "trie_root t" "from_bytes k" 0 v]
  by (auto simp: trie_insert_def split: option.splits result.splits)

lemma trie_delete_Ok:
  assumes "trie_delete fuel env t k = Some (Ok b, t')"
  shows "deletes env (db_get (trie_db t)) (trie_root t) (from_bytes k) (trie_root t') b"
    and "trie_db t' = trie_db t" and "trie_root_hash t' = None"
  using assms delete_deletes [of fuel env "db_get (trie_db t)" "trie_root t" "from_bytes k" 0]
  by (auto simp: trie_delete_def split: option.splits result.splits)

lemma trie_insert_fails:
  assumes "trie_insert fuel env t k v = Some (y, t')" and "y \<noteq> Ok ()"
  shows "t' = t"
  using assms by (auto simp: trie_insert_def split: option.splits result.splits)

lemma trie_delete_fails:
  assumes "trie_delete fuel env t k = Some (y, t')" and "\<not> (\<exists>b. y = Ok b)"
  shows "t' = t"
  using assms by (auto simp: trie_delete_def split: option.splits result.splits)

lemma root_hash_value:
  assumes "root_hash env t = (h, t')" and "trie_ok env t"
  shows "h = node_hash env (trie_root t)" and "trie_ok env t'" and "trie_root t' = trie_root t"
    and "trie_db t' = trie_db t"
  using assms by (auto simp: root_hash_def trie_ok_def Let_def split: option.splits)

lemma trie_insert_ok:
  assumes "trie_insert fuel env t k v = Some (y, t')" and "trie_ok env t"
  shows "trie_ok env t'"
proof (cases "y = Ok ()")
  case True
  then show ?thesis
    using assms trie_insert_Ok [of fuel env t k v t'] inserts_ok by (auto simp: trie_ok_def)
qed (use assms trie_insert_fails in blast)

lemma trie_delete_ok:
  assumes "trie_delete fuel env t k = Some (y, t')" and "trie_ok env t"
  shows "trie_ok env t'"
proof (cases y)
  case (Ok b)
  then show ?thesis
    using assms trie_delete_Ok [of fuel env t k b t'] deletes_ok by (auto simp: trie_ok_def)
qed (use assms trie_delete_fails in \<open>blast+\<close>)

lemma trie_runs_ok: "trie_runs env t ops t' \<Longrightarrow> trie_ok env t \<Longrightarrow> trie_ok env t' \<and> trie_db t' = trie_db t"
proof (induction rule: trie_runs.induct)
  case (insert_fails ops t1 fuel k v y t2)
  then show ?case using trie_insert_fails by metis
next
  case (delete_fails ops t1 fuel k y t2)
  then show ?case using trie_delete_fails by metis
qed (auto dest: trie_insert_ok trie_insert_Ok trie_delete_ok trie_delete_Ok root_hash_value)

subsection \<open>The trie stands for the map of its history\<close>

context honest_store
begin

definition stands_for :: "Node \<Rightarrow> (bytes \<rightharpoonup> bytes) \<Rightarrow> bool" where
  "stands_for n m \<longleftrightarrow> (\<forall>k. yields n (from_bytes k) (Ok (m k)))"

lemma stands_forD:
  assumes "stands_for n m" and "reads env db n (from_bytes k) y"
  shows "y = Ok (m k) \<or> y = Err KeyNotFound"
proof -
  from assms(1) have "reads env db n (from_bytes k) (Ok (m k)) \<or> reads env db n (from_bytes k) (Err KeyNotFound)"
    by (simp add: stands_for_def yields_def)
  then show ?thesis by (elim disjE) (blast dest: reads_unique [OF assms(2)])+
qed

lemma yields_weaken: "yields n q (Err KeyNotFound) \<Longrightarrow> yields n q y"
  by (auto simp: yields_def)

lemma stands_for_update:
  assumes "stands_for n m" and "yields n' (from_bytes k) (Ok x)"
    and "\<And>q y. q \<noteq> from_bytes k \<Longrightarrow> nibs q \<Longrightarrow> reads env db n q y \<Longrightarrow> yields n' q y"
  shows "stands_for n' (m(k := x))"
  unfolding stands_for_def
proof
  fix j
  show "yields n' (from_bytes j) (Ok ((m(k := x)) j))"
  proof (cases "j = k")
    case False
    then have "from_bytes j \<noteq> from_bytes k" by (simp add: from_bytes_inject)
    moreover obtain y where y: "reads env db n (from_bytes j) y" "y = Ok (m j) \<or> y = Err KeyNotFound"
      using assms(1) by (auto simp: stands_for_def yields_def)
    ultimately have "yields n' (from_bytes j) y" using assms(3) by simp
    then show ?thesis using y(2) False yields_weaken by auto
  qed (use assms(2) in simp)
qed

lemma runs_stand_for:
  assumes "trie_runs env t ops t'" and "trie_ok env t" and "db = db_get (trie_db t)"
    and "stands_for (trie_root t) Map.empty"
  shows "stands_for (trie_root t') (history_map ops)"
  using assms(1,2,4)
proof (induction rule: trie_runs.induct)
  case (insert ops t1 fuel k v t2)
  note ok = trie_runs_ok [OF insert.hyps(1) insert.prems(1)]
  have "inserts env db (trie_root t1) (from_bytes k) v (trie_root t2)"
    using trie_insert_Ok [OF insert.hyps(2)] ok assms(3) by simp
  then have "stands_for (trie_root t2) ((history_map ops)(k \<mapsto> v))"
    using inserts_yields ok insert by (intro stands_for_update [of "trie_root t1"]) (auto simp: trie_ok_def)
  then show ?case by (simp add: fun_upd_def)
next
  case (delete ops t1 fuel k b t2)
  note ok = trie_runs_ok [OF delete.hyps(1) delete.prems(1)]
  have d: "deletes env db (trie_root t1) (from_bytes k) (trie_root t2) b"
    using trie_delete_Ok [OF delete.hyps(2)] ok assms(3) by simp
  have st: "stands_for (trie_root t1) (history_map ops)" using delete by simp
  show ?case
  proof (cases b)
    case True
    then have "stands_for (trie_root t2) ((history_map ops)(k := None))"
      using deletes_yields [OF d] ok by (intro stands_for_update [OF st]) (auto simp: trie_ok_def)
    then show ?thesis by (simp add: fun_upd_def)
  next
    case False
    then have r: "trie_root t2 = trie_root t1" "reads env db (trie_root t1) (from_bytes k) (Ok None)"
      using deletes_reads [OF d] ok by (auto simp: trie_ok_def)
    then have "history_map ops k = None" using stands_forD [OF st r(2)] by simp
    then have "(history_map ops)(k := None) = history_map ops" by auto
    then show ?thesis using st r(1) by (simp add: fun_upd_def)
  qed
next
  case (insert_fails ops t1 fuel k v y t2)
  then show ?case using trie_insert_fails by metis
next
  case (delete_fails ops t1 fuel k y t2)
  then show ?case using trie_delete_fails by metis
next
  case (hashed ops t1 h t2)
  then show ?case using root_hash_value(3) [OF hashed.hyps(2)] trie_runs_ok by metis
qed simp

lemma yields_get:
  assumes "yields n (from_bytes k) y"
  shows "eventually (\<lambda>fuel. get_at_node fuel env db n (from_bytes k) 0 = Some y \<or>
    get_at_node fuel env db n (from_bytes k) 0 = Some (Err KeyNotFound)) sequentially"
  using assms unfolding yields_def
proof
  assume "reads env db n (from_bytes k) y"
  then have "eventually (\<lambda>fuel. get_at_node fuel env db n (from_bytes k) 0 = Some y) sequentially"
    using reads_get(1) by fastforce
  then show ?thesis by (rule eventually_mono) simp
next
  assume "reads env db n (from_bytes k) (Err KeyNotFound)"
  then have "eventually (\<lambda>fuel. get_at_node fuel env db n (from_bytes k) 0 = Some (Err KeyNotFound)) sequentially"
    using reads_get(1) by fastforce
  then show ?thesis by (rule eventually_mono) simp
qed

end

text \<open>The empty database is honest: what is not inline is missing.\<close>

lemma resolve_empty_db:
  "resolve_node_ref env (db_get memory_db_new) r = (case r of Inline n \<Rightarrow> Some (Ok n) | Hash h \<Rightarrow> Some (Err KeyNotFound))"
  by (simp add: resolve_node_ref_def load_node_def db_get_def memory_db_new_def split: NodeRef.splits)

interpretation fresh: honest_store env "db_get memory_db_new" for env
  by unfold_locales (auto simp: resolve_empty_db from_node_def Let_def)

lemma fresh_stands_for [simp]: "fresh.stands_for env Empty Map.empty"
  by (simp add: fresh.stands_for_def)

subsection \<open>Tries without hash references\<close>

fun inline :: "Node \<Rightarrow> bool" and ref_inline :: "NodeRef \<Rightarrow> bool" where
  "inline (Extension k r) = ref_inline r"
| "inline (Branch cs v) = (\<forall>r. Some r \<in> set cs \<longrightarrow> ref_inline r)"
| "inline _ = True"
| "ref_inline (Hash h) = False"
| "ref_inline (Inline n) = inline n"

lemma resolve_inline:
  "ref_inline r \<Longrightarrow> \<exists>n. r = Inline n \<and> resolve_node_ref env db r = Some (Ok n) \<and> inline n"
  by (cases r) (auto simp: resolve_node_ref_def)

lemma size_child:
  assumes "Some (Inline n) \<in> set cs"
  shows "size n < size (Branch cs v)"
proof -
  have "size_option size (Some (Inline n)) \<le> size_list (size_option size) cs"
    using assms by (intro size_list_estimation') auto
  then show ?thesis by simp
qed

lemma inline_reads: "inline n \<Longrightarrow> node_ok n \<Longrightarrow> nibs q \<Longrightarrow> \<exists>x. reads env db n q (Ok x)"
proof (induction "size n" arbitrary: n q rule: less_induct)
  case less
  show ?case
  proof (cases n)
    case (Extension k r)
    then obtain m where m: "r = Inline m" "resolve_node_ref env db r = Some (Ok m)" "inline m"
      using less.prems(1) Extension resolve_inline [of r env db] by auto
    show ?thesis
    proof (cases "prefix k q")
      case True
      then obtain q' where q: "q = k @ q'" by (elim prefixE)
      then have "\<exists>x. reads env db m q' (Ok x)"
        using less.prems m by (intro less.hyps) (auto simp: Extension)
      then show ?thesis using m(2) by (auto simp: Extension q ref_reads_iff)
    next
      case False
      then show ?thesis by (auto simp: Extension reads_Extension_off)
    qed
  next
    case (Branch cs v)
    show ?thesis
    proof (cases q)
      case (Cons x qs)
      have x: "x < 16" "length cs = 16" "nibs qs" using less.prems by (auto simp: Cons Branch)
      show ?thesis
      proof (cases "cs ! unat x")
        case None
        then show ?thesis using x by (auto simp: Branch Cons reads_Branch_Cons)
      next
        case (Some r)
        then have r: "Some r \<in> set cs" by (rule nth_nibble [OF x(1,2)])
        then obtain m where m: "r = Inline m" "resolve_node_ref env db r = Some (Ok m)" "inline m"
          using less.prems(1) resolve_inline [of r env db] by (auto simp: Branch)
        have "\<exists>y. reads env db m qs (Ok y)"
          using less.prems m r size_child [of m cs v] x by (intro less.hyps) (auto simp: Branch)
        then show ?thesis using Some m(2) x by (auto simp: Branch Cons reads_Branch_Cons ref_reads_iff)
      qed
    qed (auto simp: Branch)
  qed auto
qed

lemma inline_insert:
  "inline n \<Longrightarrow> node_ok n \<Longrightarrow> nibs key \<Longrightarrow> i \<le> length key \<Longrightarrow> size n < fuel \<Longrightarrow>
     \<exists>n'. insert_at_node fuel env db n key i v = Some (Ok n')"
proof (induction fuel arbitrary: n i)
  case (Suc fuel)
  note d = slice_from_drop [OF Suc.prems(4)]
  have nd: "nibs (drop i key)" using Suc.prems(3) by auto
  show ?case
  proof (cases n)
    case Empty
    then show ?thesis by (simp add: d)
  next
    case (Leaf k w)
    then have "nibs k" using Suc.prems by simp
    then show ?thesis
      using split_leaf_Ok [OF _ nd, of k env w v] common_prefix_len_le [of k "drop i key"]
      by (auto simp: d Leaf Let_def nibbles_slice_def slice_def)
  next
    case (Extension k r)
    obtain m where m: "r = Inline m" "resolve_node_ref env db r = Some (Ok m)" "inline m"
      using Suc.prems(1) Extension resolve_inline [of r env db] by auto
    let ?c = "common_prefix_len k (drop i key)"
    show ?thesis
    proof (cases "?c = length k")
      case True
      then have "i + length k \<le> length key"
        using prefix_drop_le [of k i key] Suc.prems(4) by (simp add: common_prefix_full)
      then have "\<exists>n'. insert_at_node fuel env db m key (i + length k) v = Some (Ok n')"
        using Suc.prems m Extension by (intro Suc.IH) auto
      then show ?thesis using m(2) True by (auto simp: d Extension Let_def)
    next
      case False
      have "nibs (drop ?c k)" "nibs (drop ?c (drop i key))" "ref_ok r" using Suc.prems Extension nd by auto
      from split_extension_Ok [OF this, of env v] show ?thesis
        using False common_prefix_len_le [of k "drop i key"]
        by (auto simp: d Extension Let_def nibbles_slice_def slice_def slice_from_drop)
    qed
  next
    case (Branch cs w)
    show ?thesis
    proof (cases "i = length key")
      case True
      then show ?thesis by (simp add: Branch)
    next
      case False
      then have i: "i < length key" using Suc.prems by simp
      then have x: "key ! i < 16" "length cs = 16" using Suc.prems by (auto simp: nibs_def list_all_length Branch)
      let ?slot = "cs ! unat (key ! i)"
      obtain m where m: "(case ?slot of None \<Rightarrow> Some (Ok Empty) | Some r \<Rightarrow> resolve_node_ref env db r) = Some (Ok m)"
        "inline m" "node_ok m" "size m < size n"
      proof (cases ?slot)
        case None
        then show thesis using that [of Empty] by (simp add: Branch)
      next
        case (Some r)
        then have r: "Some r \<in> set cs" by (rule nth_nibble [OF x(1,2)])
        then obtain m where "r = Inline m" "resolve_node_ref env db r = Some (Ok m)" "inline m"
          using Suc.prems(1) resolve_inline [of r env db] by (auto simp: Branch)
        then show thesis
          using Some that [of m] Suc.prems(2) r size_child [of m cs w] by (auto simp: Branch)
      qed
      have "\<exists>n'. insert_at_node fuel env db m key (i + 1) v = Some (Ok n')"
        using Suc.prems m i by (intro Suc.IH) auto
      then show ?thesis using m(1) x i by (auto simp: Branch nibble_at_drop)
    qed
  qed
qed simp

end
