(* ===== verification/Trie_Proof.thy ===== *)
theory Trie_Proof
  imports Trie_Map
begin

text \<open>
  Merkle proofs, \<^verbatim>\<open>crates/trie/src/proof.rs\<close>.  Verification follows the path of the key and takes the
  node for a hash reference from the proof; it ends because every step either uses up a proof node or
  goes down into an inline node.  Generation follows hash references through a function of the caller,
  so it takes fuel.
\<close>

type_synonym MerkleProof = "bytes list"

definition proof_new :: MerkleProof where
  "proof_new = []"

definition add_node :: "MerkleProof \<Rightarrow> bytes \<Rightarrow> MerkleProof" where
  "add_node nodes encoded = nodes @ [encoded]"

subsection \<open>Verification\<close>

definition resolve_proof_node :: "TrieEnv \<Rightarrow> MerkleProof \<Rightarrow> NodeRef \<Rightarrow> nat \<Rightarrow> (TrieError, Node) run" where
  "resolve_proof_node env nodes node_ref proof_index =
     (case node_ref of
        Inline node \<Rightarrow> Some (Ok node)
      | Hash _ \<Rightarrow>
          if proof_index \<ge> length nodes then Some (Err InvalidProof)
          else decode_raw (Suc (length (nodes ! proof_index))) env (nodes ! proof_index))"

lemma proof_node_smaller:
  assumes "resolve_proof_node env nodes r i = Some (Ok child)"
  shows "length nodes - Suc i < length nodes - i \<or> size child < size r"
  using assms by (cases r) (auto simp: resolve_proof_node_def split: if_splits)

lemma size_slot:
  assumes "get_child cs x = Ok (Some r)"
  shows "size r \<le> size_list (size_option size) cs"
proof -
  have "unat x < length cs" "cs ! unat x = Some r" using assms by (simp_all add: get_child_def split: if_splits)
  then have "Some r \<in> set cs" by (metis nth_mem)
  then have "size_option size (Some r) \<le> size_list (size_option size) cs"
    by (intro size_list_estimation') auto
  then show ?thesis by simp
qed

function verify_at_node ::
  "TrieEnv \<Rightarrow> MerkleProof \<Rightarrow> Node \<Rightarrow> Nibbles \<Rightarrow> nat \<Rightarrow> nat \<Rightarrow> (TrieError, bytes option) run" where
  "verify_at_node env nodes Empty key key_index proof_index = Some (Ok None)"
| "verify_at_node env nodes (Leaf leaf_key v) key key_index proof_index =
     bind_run (Some (slice_from key key_index)) (\<lambda>remaining_key.
       if remaining_key = leaf_key then Some (Ok (Some v)) else Some (Ok None))"
| "verify_at_node env nodes (Extension ext_key child_ref) key key_index proof_index =
     bind_run (Some (slice_from key key_index)) (\<lambda>remaining_key.
       let common_len = common_prefix_len ext_key remaining_key in
       if common_len = length ext_key then
         bind_run (resolve_proof_node env nodes child_ref proof_index) (\<lambda>child.
           verify_at_node env nodes child key (key_index + common_len) (proof_index + 1))
       else Some (Ok None))"
| "verify_at_node env nodes (Branch children v) key key_index proof_index =
     (if key_index = length key then Some (Ok v)
      else
        bind_run (Some (nibble_at key key_index)) (\<lambda>nibble.
        bind_run (Some (get_child children nibble)) (\<lambda>child.
          case child of
            None \<Rightarrow> Some (Ok None)
          | Some child_ref \<Rightarrow>
              bind_run (resolve_proof_node env nodes child_ref proof_index) (\<lambda>child.
                verify_at_node env nodes child key (key_index + 1) (proof_index + 1)))))"
  by pat_completeness auto

termination
  by (relation "measures [\<lambda>(env, nodes, node, key, key_index, i). length nodes - i,
        \<lambda>(env, nodes, node, key, key_index, i). size node]")
    (auto dest!: proof_node_smaller size_slot)

definition proof_verify :: "TrieEnv \<Rightarrow> MerkleProof \<Rightarrow> H256 \<Rightarrow> bytes \<Rightarrow> bytes option \<Rightarrow> (TrieError, bool) run" where
  "proof_verify env nodes hash key expected_value =
     (if nodes = [] then Some (Ok False)
      else
        bind_run (decode_raw (Suc (length (nodes ! 0))) env (nodes ! 0)) (\<lambda>first_node.
          if node_hash env first_node \<noteq> hash then Some (Ok False)
          else
            bind_run (verify_at_node env nodes first_node (from_bytes key) 0 1) (\<lambda>v.
              case (v, expected_value) of
                (Some bs, Some exp) \<Rightarrow> Some (Ok (bs = exp))
              | (None, None) \<Rightarrow> Some (Ok True)
              | _ \<Rightarrow> Some (Ok False))))"

subsection \<open>Generation\<close>

text \<open>
  The proof is extended in place, so the function returns it beside the outcome.  In the arm for a
  branch the outcome of the recursive call is not the outcome of the function: only the errors of
  loading and decoding the child leave it, through the operator \<^verbatim>\<open>?\<close>.
\<close>

type_synonym collected = "((TrieError, unit) result \<times> MerkleProof) option"

definition load_child ::
  "TrieEnv \<Rightarrow> (H256 \<Rightarrow> bytes TrieResult) \<Rightarrow> NodeRef \<Rightarrow> (TrieError, Node) run" where
  "load_child env load_fn node_ref =
     (case node_ref of
        Inline child \<Rightarrow> Some (Ok child)
      | Hash hash \<Rightarrow>
          bind_run (Some (load_fn hash)) (\<lambda>child_data. decode_raw (Suc (length child_data)) env child_data))"

fun collect_proof_nodes ::
  "nat \<Rightarrow> TrieEnv \<Rightarrow> (H256 \<Rightarrow> bytes TrieResult) \<Rightarrow> Node \<Rightarrow> Nibbles \<Rightarrow> nat \<Rightarrow> MerkleProof \<Rightarrow> collected" where
  "collect_proof_nodes 0 env load_fn node key key_index nodes = None"
| "collect_proof_nodes (Suc fuel) env load_fn node key key_index nodes =
     (let nodes = add_node nodes (encode_raw env node) in
      case node of
        Empty \<Rightarrow> Some (Ok (), nodes)
      | Leaf _ _ \<Rightarrow> Some (Ok (), nodes)
      | Extension ext_key child_ref \<Rightarrow>
          (case slice_from key key_index of
             Ok remaining_key \<Rightarrow>
               let common_len = common_prefix_len ext_key remaining_key in
               if common_len = length ext_key then
                 (case load_child env load_fn child_ref of
                    None \<Rightarrow> None
                  | Some (Ok child) \<Rightarrow>
                      collect_proof_nodes fuel env load_fn child key (key_index + common_len) nodes
                  | Some (Err e) \<Rightarrow> Some (Err e, nodes)
                  | Some Panic \<Rightarrow> Some (Panic, nodes))
               else Some (Ok (), nodes)
           | Err e \<Rightarrow> Some (Err e, nodes)
           | Panic \<Rightarrow> Some (Panic, nodes))
      | Branch children _ \<Rightarrow>
          if key_index < length key then
            (case bind_res (nibble_at key key_index) (get_child children) of
               Ok None \<Rightarrow> Some (Ok (), nodes)
             | Ok (Some child_ref) \<Rightarrow>
                 (case load_child env load_fn child_ref of
                    None \<Rightarrow> None
                  | Some (Ok child) \<Rightarrow>
                      (case collect_proof_nodes fuel env load_fn child key (key_index + 1) nodes of
                         None \<Rightarrow> None
                       | Some (Panic, nodes') \<Rightarrow> Some (Panic, nodes')
                       | Some (_, nodes') \<Rightarrow> Some (Ok (), nodes'))
                  | Some (Err e) \<Rightarrow> Some (Err e, nodes)
                  | Some Panic \<Rightarrow> Some (Panic, nodes))
             | Err e \<Rightarrow> Some (Err e, nodes)
             | Panic \<Rightarrow> Some (Panic, nodes))
          else Some (Ok (), nodes))"

definition generate_proof ::
  "nat \<Rightarrow> TrieEnv \<Rightarrow> Node \<Rightarrow> bytes \<Rightarrow> (H256 \<Rightarrow> bytes TrieResult) \<Rightarrow> (TrieError, MerkleProof) run" where
  "generate_proof fuel env root key load_fn =
     (case collect_proof_nodes fuel env load_fn root (from_bytes key) 0 proof_new of
        None \<Rightarrow> None
      | Some (Ok _, nodes) \<Rightarrow> Some (Ok nodes)
      | Some (Err e, _) \<Rightarrow> Some (Err e)
      | Some (Panic, _) \<Rightarrow> Some Panic)"

subsection \<open>Generated proofs verify\<close>

text \<open>The closure that loads nodes from a database, an absent key read as the empty string.\<close>

definition db_loader :: "reader \<Rightarrow> H256 \<Rightarrow> bytes TrieResult" where
  "db_loader db hash =
     map_ok (\<lambda>opt. case opt of None \<Rightarrow> [] | Some bs \<Rightarrow> bs) (map_err StorageErr (db (node_key hash)))"

lemma load_child_resolve:
  "resolve_node_ref env db r = Some (Ok c) \<Longrightarrow> load_child env (db_loader db) r = Some (Ok c)"
proof (cases r)
  case (Hash h)
  assume "resolve_node_ref env db r = Some (Ok c)"
  then obtain bs where "db (node_key h) = Ok (Some bs)" "decode_raw (Suc (length bs)) env bs = Some (Ok c)"
    by (auto simp: Hash resolve_node_ref_def load_node_def simp del: decode_raw.simps split: option.splits)
  then show ?thesis by (simp add: Hash load_child_def db_loader_def del: decode_raw.simps)
qed (simp add: resolve_node_ref_def load_child_def)

text \<open>A node that decodes from its encoding, and a database of such nodes.\<close>

definition decodes :: "TrieEnv \<Rightarrow> Node \<Rightarrow> bool" where
  "decodes env n \<longleftrightarrow> decode_raw (Suc (length (encode_raw env n))) env (encode_raw env n) = Some (Ok n)"

definition faithful :: "TrieEnv \<Rightarrow> reader \<Rightarrow> bool" where
  "faithful env db \<longleftrightarrow> (\<forall>h n. load_node env db h = Some (Ok n) \<longrightarrow> decodes env n)"

lemma resolve_proof_node_at:
  assumes "faithful env db" and "resolve_node_ref env db r = Some (Ok c)" and "i < length nodes"
    and "nodes ! i = encode_raw env c"
  shows "resolve_proof_node env nodes r i = Some (Ok c)"
  using assms
  by (auto simp: resolve_node_ref_def resolve_proof_node_def faithful_def decodes_def simp del: decode_raw.simps
      split: NodeRef.splits)

text \<open>
  What \<^verbatim>\<open>collect_proof_nodes\<close> appends to a proof makes \<^verbatim>\<open>verify_at_node\<close> read the value that the trie has.
\<close>

definition provable ::
  "TrieEnv \<Rightarrow> reader \<Rightarrow> Node \<Rightarrow> Nibbles \<Rightarrow> nat \<Rightarrow> (TrieError, bytes option) result \<Rightarrow> bool" where
  "provable env db node key i y \<longleftrightarrow> (\<forall>nodes. \<exists>more.
     eventually (\<lambda>fuel. collect_proof_nodes fuel env (db_loader db) node key i nodes =
       Some (Ok (), nodes @ encode_raw env node # more)) sequentially \<and>
     verify_at_node env (nodes @ encode_raw env node # more) node key i (length nodes + 1) = Some y)"

lemma provable_end:
  assumes "\<And>fuel nodes. collect_proof_nodes (Suc fuel) env (db_loader db) node key i nodes =
      Some (Ok (), nodes @ [encode_raw env node])"
    and "\<And>nodes j. verify_at_node env nodes node key i j = Some y"
  shows "provable env db node key i y"
  unfolding provable_def
proof
  fix nodes
  have "eventually (\<lambda>fuel. collect_proof_nodes fuel env (db_loader db) node key i nodes =
      Some (Ok (), nodes @ [encode_raw env node])) sequentially"
    by (rule any_fuel) (rule assms(1))
  then show "\<exists>more. eventually (\<lambda>fuel. collect_proof_nodes fuel env (db_loader db) node key i nodes =
      Some (Ok (), nodes @ encode_raw env node # more)) sequentially \<and>
    verify_at_node env (nodes @ encode_raw env node # more) node key i (length nodes + 1) = Some y"
    using assms(2) by blast
qed

lemma provable_step:
  assumes faithful: "faithful env db" and child: "resolve_node_ref env db r = Some (Ok child)"
    and IH: "provable env db child key j y"
    and collect: "\<And>fuel nodes nodes'. collect_proof_nodes fuel env (db_loader db) child key j
        (nodes @ [encode_raw env node]) = Some (Ok (), nodes') \<Longrightarrow>
      collect_proof_nodes (Suc fuel) env (db_loader db) node key i nodes = Some (Ok (), nodes')"
    and verify: "\<And>nodes k. resolve_proof_node env nodes r k = Some (Ok child) \<Longrightarrow>
      verify_at_node env nodes node key i k = verify_at_node env nodes child key j (k + 1)"
  shows "provable env db node key i y"
  unfolding provable_def
proof
  fix nodes
  let ?nodes = "nodes @ [encode_raw env node]"
  obtain more where more:
    "eventually (\<lambda>fuel. collect_proof_nodes fuel env (db_loader db) child key j ?nodes =
       Some (Ok (), ?nodes @ encode_raw env child # more)) sequentially"
    "verify_at_node env (?nodes @ encode_raw env child # more) child key j (length ?nodes + 1) = Some y"
    using IH unfolding provable_def by blast
  let ?all = "nodes @ encode_raw env node # encode_raw env child # more"
  have "resolve_proof_node env ?all r (length nodes + 1) = Some (Ok child)"
    by (rule resolve_proof_node_at [OF faithful child]) (simp_all add: nth_append)
  then have "verify_at_node env ?all node key i (length nodes + 1) = Some y"
    using verify more(2) by simp
  moreover have "eventually (\<lambda>fuel. collect_proof_nodes fuel env (db_loader db) node key i nodes =
      Some (Ok (), ?all)) sequentially"
    by (rule with_fuel, rule eventually_mono [OF more(1)], rule collect) simp
  ultimately show "\<exists>more. eventually (\<lambda>fuel. collect_proof_nodes fuel env (db_loader db) node key i nodes =
      Some (Ok (), nodes @ encode_raw env node # more)) sequentially \<and>
    verify_at_node env (nodes @ encode_raw env node # more) node key i (length nodes + 1) = Some y"
    by blast
qed

lemma reads_provable:
  assumes "faithful env db"
  shows "reads env db node q y \<Longrightarrow> \<forall>x key i. y = Ok x \<longrightarrow> i \<le> length key \<longrightarrow> drop i key = q \<longrightarrow>
      provable env db node key i y"
    and "ref_reads env db r q y \<Longrightarrow> \<forall>x key i. y = Ok x \<longrightarrow> i \<le> length key \<longrightarrow> drop i key = q \<longrightarrow>
      (\<exists>child. resolve_node_ref env db r = Some (Ok child) \<and> provable env db child key i y)"
proof (induction rule: reads_ref_reads.inducts)
  case (empty q)
  then show ?case by (auto intro!: provable_end simp: add_node_def)
next
  case (leaf k v q)
  then show ?case by (auto intro!: provable_end simp: add_node_def slice_from_drop)
next
  case (extension_off k q r)
  then show ?case by (auto intro!: provable_end simp: add_node_def slice_from_drop common_prefix_full)
next
  case (extension_on r q y k)
  have "provable env db (Extension k r) key i y"
    if i: "i \<le> length key" and q: "drop i key = k @ q" and x: "y = Ok x" for key i x
  proof -
    have p: "prefix k (drop i key)" unfolding q by simp
    have c: "common_prefix_len k (drop i key) = length k" using p by (simp only: common_prefix_full)
    have d: "drop (i + length k) key = q" using prefix_drop [OF p] q by simp
    obtain child where ch: "resolve_node_ref env db r = Some (Ok child)" "provable env db child key (i + length k) y"
      using extension_on.IH prefix_drop_le [OF p i] d x by blast
    show ?thesis
      by (rule provable_step [OF assms ch])
        (use i c load_child_resolve [OF ch(1)] in \<open>simp_all add: slice_from_drop add_node_def\<close>)
  qed
  then show ?case by blast
next
  case (branch_end cs v)
  then show ?case by (auto intro!: provable_end simp: add_node_def)
next
  case (branch_none cs x v q)
  have "provable env db (Branch cs v) key i (Ok None)" if "drop i key = x # q" for key i
    using drop_Cons_less [OF that] branch_none by (intro provable_end) (simp_all add: nibble_at_drop add_node_def)
  then show ?case by blast
next
  case (branch_on cs x r q y v)
  have "provable env db (Branch cs v) key i y" if q: "drop i key = x # q" and u: "y = Ok u" for key i u
  proof -
    note d = drop_Cons_less [OF q]
    obtain child where ch: "resolve_node_ref env db r = Some (Ok child)" "provable env db child key (i + 1) y"
      using branch_on.IH d u by (metis Suc_eq_plus1 Suc_leI)
    show ?thesis
      by (rule provable_step [OF assms ch])
        (use d branch_on.hyps load_child_resolve [OF ch(1)] in \<open>simp_all add: nibble_at_drop add_node_def\<close>)
  qed
  then show ?case by blast
next
  case (unresolved r y q)
  then show ?case by (cases "(resolve_node_ref env db r, y)" rule: fails.cases) auto
qed auto

text \<open>A generated proof verifies precisely against the value that the trie has for the key.\<close>

lemma generated_proof_verifies:
  assumes "faithful env db" and "decodes env root" and "reads env db root (from_bytes key) (Ok x)"
  shows "\<exists>nodes. eventually (\<lambda>fuel. generate_proof fuel env root key (db_loader db) = Some (Ok nodes)) sequentially \<and>
    (\<forall>expected. proof_verify env nodes (node_hash env root) key expected = Some (Ok (expected = x)))"
proof -
  have "provable env db root (from_bytes key) 0 (Ok x)"
    using reads_provable(1) [OF assms(1,3)] by simp
  then obtain more where more:
    "eventually (\<lambda>fuel. collect_proof_nodes fuel env (db_loader db) root (from_bytes key) 0 [] =
       Some (Ok (), encode_raw env root # more)) sequentially"
    "verify_at_node env (encode_raw env root # more) root (from_bytes key) 0 1 = Some (Ok x)"
    unfolding provable_def by (metis One_nat_def add_0 append_Nil list.size(3))
  let ?nodes = "encode_raw env root # more"
  have "eventually (\<lambda>fuel. generate_proof fuel env root key (db_loader db) = Some (Ok ?nodes)) sequentially"
    by (rule eventually_mono [OF more(1)]) (simp add: generate_proof_def proof_new_def)
  moreover have "proof_verify env ?nodes (node_hash env root) key expected = Some (Ok (expected = x))" for expected
    using assms(2) more(2)
    by (cases x; cases expected) (auto simp: proof_verify_def decodes_def simp del: decode_raw.simps)
  ultimately show ?thesis by blast
qed

end
