(* ===== verification/Trie_Properties.thy ===== *)
theory Trie_Properties
  imports Trie_Runs Trie_Proof
begin

text \<open>
  The properties of the trie crate.
\<close>

subsection \<open>Paths and nodes\<close>

text \<open>
  C35: bytes survive the way to nibbles and back, and a path survives the compact encoding together with
  its leaf flag, except that an even path loses a last nibble \<open>0\<close>, which the decoder takes for padding.
\<close>

theorem nibbles_roundtrip:
  assumes "nibs ns"
  shows "to_bytes (from_bytes bs) = (Ok bs :: bytes TrieResult) \<and>
    decode_compact (encode_compact ns is_leaf) =
      Ok (if even (length ns) \<and> ns \<noteq> [] \<and> last ns = 0 then butlast ns else ns, is_leaf)"
  using decode_encode_compact [OF assms, of is_leaf]
  by (simp add: to_bytes_def pack_from_bytes unpadded_def)

theorem nibbles_roundtrip_witness:
  "decode_compact (encode_compact [1, 2, 3] True) = Ok ([1, 2, 3], True) \<and>
   decode_compact (encode_compact [1, 0] False) = Ok ([1], False)"
  using nibbles_roundtrip [of "[1, 2, 3]" "[]" True] nibbles_roundtrip [of "[1, 0]" "[]" False] by simp

text \<open>
  C34: nodes round-trip.  When the list writer and reader of the RLP crate do what they promise, a node
  whose keys do not end in a droppable \<open>0\<close>, whose branches hold no empty value and whose inline children
  are not exactly 32 bytes long decodes to itself.
\<close>

theorem trie_node_roundtrip:
  assumes "rlp_lists env" and "node_ok n" and "stable env n" and "length (encode_raw env n) < 2 ^ 32"
  shows "decode_raw (Suc (length (encode_raw env n))) env (encode_raw env n) = Some (Ok n)"
  by (rule rlp_lists.decode_encode_raw [OF assms(1)]) (use assms in auto)

lemma length_list_env_leaf:
  "length (encode_raw (list_env kec) (Leaf [1] [7])) = 3"
  "length (encode_raw (list_env kec) (Leaf [1, 1] [7])) = 5"
  "length (encode_raw (list_env kec) (Leaf [1, 1] (replicate 32 7))) = 37"
  by (simp_all add: encode_list_def encoder_new_def encode_bytes_def encode_compact_def)

lemma list_env_decodes:
  "node_ok n \<Longrightarrow> stable (list_env kec) n \<Longrightarrow> length (encode_raw (list_env kec) n) < 2 ^ 32 \<Longrightarrow>
     decodes (list_env kec) n"
  unfolding decodes_def by (rule list_env.decode_encode_raw) simp_all

lemma list_env_decodes_leaf:
  "decodes (list_env kec) (Leaf [1] [7])"
  "decodes (list_env kec) (Leaf [1, 1] [7])"
  "decodes (list_env kec) (Leaf [1, 1] (replicate 32 7))"
  by (rule list_env_decodes; simp add: length_list_env_leaf unpadded_def del: encode_raw.simps)+

theorem trie_node_roundtrip_witness:
  "decode_raw 4 (list_env (\<lambda>_. 0)) (encode_raw (list_env (\<lambda>_. 0)) (Leaf [1] [7])) = Some (Ok (Leaf [1] [7]))"
  using trie_node_roundtrip [OF list_env.rlp_lists_axioms, of "Leaf [1] [7]" "\<lambda>_. 0"]
  by (simp add: length_list_env_leaf unpadded_def del: encode_raw.simps decode_raw.simps)

text \<open>
  C33: well-typed data stays well typed.  Decoding ends on every input and gives a node with 16 children
  in each branch and nibbles in each key; insertion, deletion and hashing keep the root of a trie so,
  whether they succeed or fail, and keep a cached root hash equal to \<^verbatim>\<open>Node::hash\<close> of the root.  For
  the empty trie that is not a Keccak hash: its one-byte encoding \<open>0x80\<close> is padded with zeros, as that
  of every small node is (the test \<^verbatim>\<open>test_empty_trie\<close> expects \<^verbatim>\<open>keccak256(&[])\<close>).
\<close>

theorem trie_types:
  assumes "rlp_lists env" and "trie_ok env t"
  shows "decode_raw (Suc (length bs)) env bs \<noteq> None \<and>
    (decode_raw (Suc (length bs)) env bs = Some (Ok n) \<longrightarrow> node_ok n) \<and>
    (trie_insert fuel env t k v = Some (y, ti) \<longrightarrow> trie_ok env ti) \<and>
    (trie_delete fuel env t k = Some (z, td) \<longrightarrow> trie_ok env td) \<and>
    (root_hash env t = (h, th) \<longrightarrow> trie_ok env th \<and> h = node_hash env (trie_root t)) \<and>
    fst (root_hash env (trie_new db)) = from_be (0x80 # replicate 31 0)"
proof (intro conjI impI)
  show "decode_raw (Suc (length bs)) env bs \<noteq> None"
    using rlp_lists.decode_raw_ends [OF assms(1) lessI, of bs] by (simp only: ends_def not_False_eq_True)
  show "fst (root_hash env (trie_new db)) = from_be (0x80 # replicate 31 0)"
    by (simp add: root_hash_def trie_new_def node_hash_def encoder_new_def encode_bytes_def Let_def)
qed (fact decode_raw_ok trie_insert_ok [OF _ assms(2)] trie_delete_ok [OF _ assms(2)]
  root_hash_value(1,2) [OF _ assms(2)])+

theorem trie_types_witness:
  "trie_ok (list_env (\<lambda>_. 0)) (snd (root_hash (list_env (\<lambda>_. 0)) ((trie_new memory_db_new)\<lparr>trie_root := Leaf [1, 1] [7]\<rparr>))) \<and>
   fst (root_hash (list_env (\<lambda>_. 0)) ((trie_new memory_db_new)\<lparr>trie_root := Leaf [1, 1] [7]\<rparr>)) =
     node_hash (list_env (\<lambda>_. 0)) (Leaf [1, 1] [7])"
proof -
  let ?env = "list_env (\<lambda>_. 0)" and ?t = "(trie_new memory_db_new)\<lparr>trie_root := Leaf [1, 1] [7]\<rparr>"
  have "trie_ok ?env ?t" by (simp add: trie_ok_def trie_new_def)
  from trie_types [OF list_env.rlp_lists_axioms this,
      where th = "snd (root_hash ?env ?t)" and h = "fst (root_hash ?env ?t)"]
  show ?thesis by simp
qed

subsection \<open>The trie is a map\<close>

text \<open>
  C2: a trie over a fresh database refines a map.  After any history of insertions and deletions, in any
  order and with failed calls in between, a lookup with enough fuel returns the value the history left
  at the key, or reports a missing node; it never returns a wrong value.
\<close>

theorem trie_refines_map:
  assumes "trie_runs env (trie_new memory_db_new) ops t"
  shows "\<exists>F. \<forall>fuel \<ge> F. trie_get fuel env t k = Some (Ok (history_map ops k)) \<or>
    trie_get fuel env t k = Some (Err KeyNotFound)"
proof -
  have "trie_db t = memory_db_new" using trie_runs_ok [OF assms trie_ok_new] by (simp add: trie_new_def)
  moreover have "fresh.stands_for env (trie_root t) (history_map ops)"
    by (rule fresh.runs_stand_for [OF assms trie_ok_new]) (simp_all add: trie_new_def)
  then have "fresh.yields env (trie_root t) (from_bytes k) (Ok (history_map ops k))"
    by (simp add: fresh.stands_for_def)
  from fresh.yields_get [OF this] show ?thesis
    by (simp add: trie_get_def calculation eventually_sequentially)
qed

lemma trie_insert_first:
  "trie_insert (Suc 0) env (trie_new memory_db_new) k v =
     Some (Ok (), (trie_new memory_db_new)\<lparr>trie_root := Leaf (from_bytes k) v\<rparr>)"
  by (simp add: trie_insert_def trie_new_def slice_from_def slice_def)

theorem trie_refines_map_witness:
  "\<exists>F. \<forall>fuel \<ge> F. trie_get fuel (list_env (\<lambda>_. 0)) ((trie_new memory_db_new)\<lparr>trie_root := Leaf (from_bytes [1]) [9]\<rparr>) [1] =
       Some (Ok (Some [9])) \<or>
     trie_get fuel (list_env (\<lambda>_. 0)) ((trie_new memory_db_new)\<lparr>trie_root := Leaf (from_bytes [1]) [9]\<rparr>) [1] =
       Some (Err KeyNotFound)"
proof -
  have "trie_runs (list_env (\<lambda>_. 0)) (trie_new memory_db_new) ([] @ [Insert [1] [9]])
      ((trie_new memory_db_new)\<lparr>trie_root := Leaf (from_bytes [1]) [9]\<rparr>)"
    by (rule trie_runs.insert [OF trie_runs.start trie_insert_first])
  from trie_refines_map [OF this, of "[1]"] show ?thesis by (simp add: history_map_def)
qed

text \<open>
  C31: the answer of a deletion is right: it returns \<^verbatim>\<open>true\<close> precisely when the history left a value
  at the key.
\<close>

theorem trie_delete_answer:
  assumes "trie_runs env (trie_new memory_db_new) ops t" and "trie_delete fuel env t k = Some (Ok b, t')"
  shows "b \<longleftrightarrow> history_map ops k \<noteq> None"
proof -
  have t: "trie_db t = memory_db_new" "trie_ok env t"
    using trie_runs_ok [OF assms(1) trie_ok_new] by (simp_all add: trie_new_def)
  have st: "fresh.stands_for env (trie_root t) (history_map ops)"
    by (rule fresh.runs_stand_for [OF assms(1) trie_ok_new]) (simp_all add: trie_new_def)
  have "deletes env (db_get memory_db_new) (trie_root t) (from_bytes k) (trie_root t') b"
    using trie_delete_Ok(1) [OF assms(2)] t(1) by simp
  from deletes_reads [OF this] show ?thesis
    using t(2) by (cases b) (auto simp: trie_ok_def dest!: fresh.stands_forD [OF st] sym [of "Some _"])
qed

theorem trie_delete_answer_witness:
  "False \<longleftrightarrow> history_map [] [1] \<noteq> None"
  by (rule trie_delete_answer [OF trie_runs.start, of 1 _ "[1]" False "trie_new memory_db_new"])
    (simp add: trie_delete_def trie_new_def)

text \<open>
  C32: a trie without hash references over a fresh database always accepts an insertion, with fuel for its
  size; and as long as the result has no hash reference either, that is, as long as every node below the
  root encodes in less than 32 bytes, a lookup finds the new value at its key and the old result at every
  other key.
\<close>

theorem trie_small_exact:
  assumes "trie_ok env t" and "trie_db t = memory_db_new" and "inline (trie_root t)"
    and "size (trie_root t) < fuel"
  shows "\<exists>t'. trie_insert fuel env t k v = Some (Ok (), t') \<and>
    (inline (trie_root t') \<longrightarrow> (\<exists>F. \<forall>fuel' \<ge> F. trie_get fuel' env t' k' =
       (if k' = k then Some (Ok (Some v)) else trie_get fuel' env t k')))"
proof -
  have ok: "node_ok (trie_root t)" using assms(1) by (simp add: trie_ok_def)
  obtain n' where n': "insert_at_node fuel env (db_get (trie_db t)) (trie_root t) (from_bytes k) 0 v = Some (Ok n')"
    using inline_insert [OF assms(3) ok nibs_from_bytes le0 assms(4)] by blast
  let ?t' = "t\<lparr>trie_root := n', trie_root_hash := None\<rparr>"
  have "trie_insert fuel env t k v = Some (Ok (), ?t')" by (simp add: trie_insert_def n')
  moreover have "\<exists>F. \<forall>fuel' \<ge> F. trie_get fuel' env ?t' k' =
      (if k' = k then Some (Ok (Some v)) else trie_get fuel' env t k')" if inl: "inline n'"
  proof -
    have ins: "inserts env (db_get memory_db_new) (trie_root t) (from_bytes k) v n'"
      using insert_inserts [OF n'] assms(2) by simp
    have ok': "node_ok n'" using inserts_ok [OF ins ok] by simp
    note y = fresh.inserts_yields [OF ins ok nibs_from_bytes]
    have exact: "reads env (db_get memory_db_new) n' q (Ok x)"
      if "fresh.yields env n' q (Ok x)" "nibs q" for q x
      using that inline_reads [OF inl ok' that(2), of env "db_get memory_db_new"] reads_unique
      by (fastforce simp: fresh.yields_def)
    obtain x where x: "reads env (db_get memory_db_new) (trie_root t) (from_bytes k') (Ok x)"
      using inline_reads [OF assms(3) ok] nibs_from_bytes by metis
    have "reads env (db_get memory_db_new) n' (from_bytes k') (Ok (if k' = k then Some v else x))"
      using exact y x by (auto simp: from_bytes_inject)
    from reads_get(1) [OF this] reads_get(1) [OF x]
    have "eventually (\<lambda>fuel. trie_get fuel env ?t' k' = Some (Ok (if k' = k then Some v else x))) sequentially"
      and "eventually (\<lambda>fuel. trie_get fuel env t k' = Some (Ok x)) sequentially"
      by (simp_all add: trie_get_def assms(2))
    then have "eventually (\<lambda>fuel'. trie_get fuel' env ?t' k' =
        (if k' = k then Some (Ok (Some v)) else trie_get fuel' env t k')) sequentially"
      by (rule eventually_elim2) simp
    then show ?thesis by (simp only: eventually_sequentially)
  qed
  ultimately show ?thesis by (intro exI [of _ ?t']) simp
qed

theorem trie_small_exact_witness:
  "\<exists>t'. trie_insert 1 (list_env (\<lambda>_. 0)) (trie_new memory_db_new) [1] [2] = Some (Ok (), t')"
  using trie_small_exact [of "list_env (\<lambda>_. 0)" "trie_new memory_db_new" 1 "[1]" "[2]" "[1]"]
  by (auto simp: trie_new_def trie_ok_def)

subsection \<open>Missing nodes\<close>

lemma from_node_large:
  assumes "rlp_lists env" and "n \<noteq> Empty" and "node_ok n" and "x \<in> set (node_items env n)" and "32 \<le> length x"
  shows "from_node env n = Hash (node_hash env n)"
  using rlp_lists.length_item [OF assms(1-4)] assms(5)
  by (simp add: from_node_def Let_def del: encode_raw.simps)

text \<open>
  Where the value of a split leaf goes: into the branch itself when its key is used up, and below the
  next nibble of its key otherwise.
\<close>

lemma split_leaf_old:
  fixes k p :: Nibbles
  defines "c \<equiv> common_prefix_len k p"
  assumes "nibs k" and "nibs p" and "k \<noteq> p"
  obtains cs bv where "split_leaf env k w p v c = Ok (Branch cs bv)" and "node_ok (Branch cs bv)"
    and "drop c k = [] \<Longrightarrow> bv = Some w"
    and "\<And>x rest. drop c k = x # rest \<Longrightarrow> cs ! unat x = Some (from_node env (Leaf rest w))"
proof -
  obtain b where b: "split_leaf env k w p v c = Ok b" "node_ok b"
    using split_leaf_Ok [OF assms(2,3)] by blast
  have nk: "nibs (drop c k)" "nibs (drop c p)" using assms(2,3) by auto
  have ne: "drop c k \<noteq> [] \<or> drop c p \<noteq> []"
    using assms(4) common_prefix_len_le [of k p] common_prefix_take [of k p] unfolding c_def by auto
  obtain cs bv where cs: "b = Branch cs bv"
    using b(1) assms(2,3) by (auto simp: split_leaf_def branch_add_Ok split: list.splits)
  have v: "bv = Some w" if "drop c k = []"
    using b(1) that ne assms(2,3) unfolding cs
    by (auto simp: split_leaf_def branch_add_Ok split: list.splits)
  have l: "cs ! unat x = Some (from_node env (Leaf rest w))" if x: "drop c k = x # rest" for x rest
  proof -
    have "x < 16" using nk(1) x by simp
    then have i: "unat x < 16" by (simp add: word_less_nat_alt)
    show ?thesis
    proof (cases "drop c p")
      case Nil
      then show ?thesis using b(1) x i assms(2,3) by (auto simp: cs split_leaf_def branch_add_Ok simp del: replicate.simps)
    next
      case (Cons y q)
      then have "x \<noteq> y" using common_prefix_split x unfolding c_def by metis
      then show ?thesis
        using b(1) x i Cons assms(2,3)
        by (auto simp: cs split_leaf_def branch_add_Ok word_unat_eq_iff simp del: replicate.simps)
    qed
  qed
  show thesis by (rule that [OF b [unfolded cs] v l])
qed

lemma split_leaf_hashed:
  fixes k p :: Nibbles
  defines "c \<equiv> common_prefix_len k p"
  assumes "rlp_lists env" and "nibs k" and "nibs p" and "k \<noteq> p" and "32 \<le> length w"
  obtains cs bv h where "split_leaf env k w p v c = Ok (Branch cs bv)" and "length cs = 16"
    and "from_node env (Branch cs bv) = Hash (node_hash env (Branch cs bv))"
    and "\<And>x rest. drop c k = x # rest \<Longrightarrow> unat x < 16 \<and> cs ! unat x = Some (Hash h)"
proof -
  obtain cs bv where b: "split_leaf env k w p v c = Ok (Branch cs bv)" "node_ok (Branch cs bv)"
      "drop c k = [] \<Longrightarrow> bv = Some w"
      "\<And>x rest. drop c k = x # rest \<Longrightarrow> cs ! unat x = Some (from_node env (Leaf rest w))"
    using split_leaf_old [OF assms(3-5)] unfolding c_def by metis
  have len: "length cs = 16" using b(2) by simp
  show thesis
  proof (cases "drop c k")
    case Nil
    then have "from_node env (Branch cs bv) = Hash (node_hash env (Branch cs bv))"
      using assms(2,6) b(2,3) by (intro from_node_large [of _ _ w]) simp_all
    with Nil show thesis using that [OF b(1) len] by simp
  next
    case (Cons x rest)
    let ?h = "node_hash env (Leaf rest w)"
    have "nibs (drop c k)" using assms(3) by auto
    then have x: "unat x < 16" "nibs rest" by (simp_all add: Cons word_less_nat_alt)
    then have leaf: "cs ! unat x = Some (Hash ?h)"
      using b(4) [OF Cons] from_node_large [OF assms(2), of "Leaf rest w" w] assms(6) by simp
    then have "Some (Hash ?h) \<in> set cs" using x len nth_mem [of "unat x" cs] by simp
    then have "to_be 32 ?h \<in> set (node_items env (Branch cs bv))" by (force simp: child_bytes_def)
    from from_node_large [OF assms(2) _ b(2) this]
    show thesis using that [OF b(1) len, of ?h] Cons leaf x by simp
  qed
qed

text \<open>
  C38: insertion does not store the nodes it replaces by their hashes.  For all different keys, the first
  one not empty, and a first value of 32 bytes or more: over a fresh database both insertions succeed,
  and then a lookup of the first key fails with \<^verbatim>\<open>KeyNotFound\<close>, since its value now sits in a node of
  32 bytes or more that was replaced by its hash and never written.  Of the list writer and reader of
  the RLP crate this needs only the contract \<open>rlp_lists\<close>.
\<close>

theorem trie_loses_nodes:
  assumes "rlp_lists env" and "k \<noteq> k'" and "k \<noteq> []" and "32 \<le> length v"
  shows "\<exists>t1 t2. trie_insert (Suc fuel) env (trie_new memory_db_new) k v = Some (Ok (), t1) \<and>
    trie_insert (Suc fuel) env t1 k' v' = Some (Ok (), t2) \<and>
    trie_get (Suc fuel) env t2 k = Some (Err KeyNotFound)"
proof -
  define p q where pq: "p = from_bytes k" "q = from_bytes k'"
  define c where "c = common_prefix_len p q"
  have p: "nibs p" "nibs q" "p \<noteq> q" "p \<noteq> []"
    using assms(2,3) by (auto simp: pq from_bytes_inject neq_Nil_conv simp del: nibs_def)
  have c: "c \<le> length p" "c \<le> length q" "\<not> (c = length p \<and> c = length q)"
    using common_prefix_len_le [of p q] common_prefix_take [of p q] p(3) by (auto simp: c_def)
  let ?t = "\<lambda>n. (trie_new memory_db_new)\<lparr>trie_root := n\<rparr>"
  have t1: "trie_insert (Suc fuel) env (trie_new memory_db_new) k v = Some (Ok (), ?t (Leaf p v))"
    by (simp add: trie_insert_def trie_new_def slice_from_drop pq)
  obtain cs bv h where b: "split_leaf env p v q v' c = Ok (Branch cs bv)" "length cs = 16"
      "from_node env (Branch cs bv) = Hash (node_hash env (Branch cs bv))"
      "\<And>x rest. drop c p = x # rest \<Longrightarrow> unat x < 16 \<and> cs ! unat x = Some (Hash h)"
    using split_leaf_hashed [OF assms(1) p(1-3) assms(4)] unfolding c_def by metis
  have t2: "trie_insert (Suc fuel) env (?t (Leaf p v)) k' v' = Some (Ok (), ?t
      (if c = 0 then Branch cs bv else Extension (take c p) (from_node env (Branch cs bv))))"
    using b(1) c
    by (auto simp: trie_insert_def trie_new_def slice_from_drop pq [symmetric] c_def [symmetric] Let_def
        nibbles_slice_def slice_def under_prefix_def)
  obtain x rest where x: "p = x # rest" using p(4) by (cases p) auto
  have root: "trie_get (Suc fuel) env (?t (Branch cs bv)) k = Some (Err KeyNotFound)" if "c = 0"
    using b(2,4) x that
    by (simp add: trie_get_def trie_new_def pq [symmetric] nibble_at_drop get_child_def resolve_empty_db)
  have "common_prefix_len (take c p) p = c"
    using c(1) common_prefix_full [of "take c p" p] by (simp add: take_is_prefix)
  then have "trie_get (Suc fuel) env (?t (Extension (take c p) (from_node env (Branch cs bv)))) k =
      Some (Err KeyNotFound)"
    using c(1) unfolding b(3)
    by (simp add: trie_get_def trie_new_def pq [symmetric] slice_from_drop resolve_empty_db)
  with t1 t2 root show ?thesis by (cases "c = 0") auto
qed

theorem trie_loses_nodes_witness:
  "\<exists>t1 t2. trie_insert 2 (list_env (\<lambda>_. 0)) (trie_new memory_db_new) [0x11] (replicate 32 7) = Some (Ok (), t1) \<and>
    trie_insert 2 (list_env (\<lambda>_. 0)) t1 [0x12] [8] = Some (Ok (), t2) \<and>
    trie_get 2 (list_env (\<lambda>_. 0)) t2 [0x11] = Some (Err KeyNotFound)"
  using trie_loses_nodes [OF list_env.rlp_lists_axioms, of "[0x11]" "[0x12]" "replicate 32 7" 1]
  by (simp add: numeral_2_eq_2)

subsection \<open>Committing\<close>

text \<open>The nodes below the root that are kept inline encode in less than 32 bytes.\<close>

fun children_small :: "TrieEnv \<Rightarrow> Node \<Rightarrow> bool" and ref_small :: "TrieEnv \<Rightarrow> NodeRef \<Rightarrow> bool" where
  "children_small env (Extension k r) = ref_small env r"
| "children_small env (Branch cs v) = (\<forall>r. Some r \<in> set cs \<longrightarrow> ref_small env r)"
| "children_small env _ = True"
| "ref_small env (Hash h) = True"
| "ref_small env (Inline n) = (length (encode_raw env n) < 32 \<and> children_small env n)"

lemma commit_children:
  assumes "\<And>r. Some r \<in> set cs \<Longrightarrow> commit_ref env r batch = batch"
  shows "foldl (\<lambda>batch child. case child of None \<Rightarrow> batch | Some r \<Rightarrow> commit_ref env r batch) batch cs = batch"
  using assms by (induction cs) (auto split: option.splits)

lemma commit_small:
  "children_small env n \<Longrightarrow> commit_node env n batch = store_node env n batch"
  "ref_small env r \<Longrightarrow> commit_ref env r batch = batch"
proof (induction env n and env r arbitrary: batch and batch rule: children_small_ref_small.induct)
  case (2 env cs v)
  then show ?case by (auto intro!: commit_children)
qed (auto simp: store_node_def Let_def simp del: encode_raw.simps)

text \<open>
  C36: commit and reload, for a well-typed trie whose inline nodes below the root encode in less than 32
  bytes.  Committing returns the hash of the root.  When the root encodes in 32 bytes or more, it is
  written under its hash; and a trie reopened with that hash has the same root, provided that the root
  decodes from its encoding to itself (\<open>decodes\<close>), which fails, for example, for a root whose even key
  ends in a nibble \<open>0\<close>.  A smaller root, the empty one included, is not written, and reopening the trie
  fails unless the database had an entry there before.
\<close>

theorem trie_commit_reload:
  assumes "trie_ok env t" and "children_small env (trie_root t)"
  shows "\<exists>t'. commit env t = (Ok (node_hash env (trie_root t)), t') \<and> trie_root t' = trie_root t \<and>
    (32 \<le> length (encode_raw env (trie_root t)) \<longrightarrow>
       map_of (trie_db t') = (map_of (trie_db t))(node_key (node_hash env (trie_root t)) \<mapsto> encode_raw env (trie_root t)) \<and>
       (decodes env (trie_root t) \<longrightarrow> (\<exists>t''. new_with_root env (trie_db t') (node_hash env (trie_root t)) = Some (Ok t'') \<and>
         trie_root t'' = trie_root t))) \<and>
    (length (encode_raw env (trie_root t)) < 32 \<longrightarrow>
       map_of (trie_db t) (node_key (node_hash env (trie_root t))) = None \<longrightarrow>
       trie_db t' = trie_db t \<and>
       new_with_root env (trie_db t') (node_hash env (trie_root t)) = Some (Err KeyNotFound))"
proof -
  let ?h = "node_hash env (trie_root t)" and ?bs = "encode_raw env (trie_root t)"
  obtain db' where db': "write_batch (trie_db t) (commit_node env (trie_root t) db_batch) = Ok db'"
    "db' = (if 32 \<le> length ?bs then btree_insert (node_key ?h) ?bs (trie_db t) else trie_db t)"
    unfolding commit_small(1) [OF assms(2)] by (simp add: store_node_def Let_def db_batch_def write_batch_def)
  obtain t' where t': "root_hash env (t\<lparr>trie_db := db'\<rparr>) = (?h, t')" "trie_root t' = trie_root t" "trie_db t' = db'"
    using assms(1) by (auto simp: root_hash_def trie_ok_def Let_def split: option.splits)
  have c: "commit env t = (Ok ?h, t')" by (simp add: commit_def db'(1) t'(1))
  have m: "map_of db' = (map_of (trie_db t))(node_key ?h \<mapsto> ?bs)" if "32 \<le> length ?bs"
    using that by (simp add: db'(2) map_of_btree_insert)
  have l: "\<exists>t''. new_with_root env db' ?h = Some (Ok t'') \<and> trie_root t'' = trie_root t"
    if "32 \<le> length ?bs" "decodes env (trie_root t)"
    using that unfolding decodes_def
    by (simp add: db'(2) new_with_root_def load_node_def db_get_def map_of_btree_insert del: decode_raw.simps)
  have s: "db' = trie_db t" "map_of (trie_db t) (node_key ?h) = None \<Longrightarrow> new_with_root env (trie_db t) ?h = Some (Err KeyNotFound)"
    if "length ?bs < 32"
    using that by (simp_all add: db'(2) new_with_root_def load_node_def db_get_def)
  show ?thesis
    by (rule exI [of _ t'], intro conjI impI, rule c, rule t'(2)) (simp_all only: t'(3) m l s not_less)
qed

theorem trie_commit_reload_witness:
  "\<exists>t' t''. commit (list_env (\<lambda>_. 0)) ((trie_new memory_db_new)\<lparr>trie_root := Leaf [1, 1] (replicate 32 7)\<rparr>) =
       (Ok (node_hash (list_env (\<lambda>_. 0)) (Leaf [1, 1] (replicate 32 7))), t') \<and>
     new_with_root (list_env (\<lambda>_. 0)) (trie_db t') (node_hash (list_env (\<lambda>_. 0)) (Leaf [1, 1] (replicate 32 7))) =
       Some (Ok t'') \<and>
     trie_root t'' = Leaf [1, 1] (replicate 32 7)"
proof -
  let ?env = "list_env (\<lambda>_. 0)" and ?n = "Leaf [1, 1] (replicate 32 7)"
  have "trie_ok ?env ((trie_new memory_db_new)\<lparr>trie_root := ?n\<rparr>)" by (simp add: trie_ok_def trie_new_def)
  from trie_commit_reload [OF this] list_env_decodes_leaf(3) [of "\<lambda>_. 0"]
  show ?thesis by (auto simp: length_list_env_leaf simp del: encode_raw.simps replicate.simps)
qed

subsection \<open>Merkle proofs\<close>

text \<open>
  C12: proofs are complete where nodes survive their encoding.  Suppose that every node the database
  gives decodes from its encoding (\<open>faithful\<close>) and that the root does too (\<open>decodes\<close>); a node with an
  even key that ends in a nibble \<open>0\<close> does not, and the claim would be false for it.  When the trie has
  an answer for the key, a proof is generated, given enough fuel, and it verifies against the root hash
  for exactly that answer, be it a value or the absence of one, and for no other.
\<close>

theorem merkle_proof_complete:
  assumes "faithful env db" and "decodes env root" and "get_at_node n env db root (from_bytes key) 0 = Some (Ok x)"
  shows "\<exists>nodes F. (\<forall>fuel \<ge> F. generate_proof fuel env root key (db_loader db) = Some (Ok nodes)) \<and>
    (\<forall>expected. proof_verify env nodes (node_hash env root) key expected = Some (Ok (expected = x)))"
  using generated_proof_verifies [OF assms(1,2)] get_reads [OF assms(3)]
  unfolding eventually_sequentially by fastforce

theorem merkle_proof_complete_witness:
  "\<exists>nodes F. (\<forall>fuel \<ge> F. generate_proof fuel (list_env (\<lambda>_. 0)) (Leaf [1, 1] [7]) [0x11] (db_loader (db_get memory_db_new)) = Some (Ok nodes)) \<and>
    proof_verify (list_env (\<lambda>_. 0)) nodes (node_hash (list_env (\<lambda>_. 0)) (Leaf [1, 1] [7])) [0x11] (Some [7]) = Some (Ok True) \<and>
    proof_verify (list_env (\<lambda>_. 0)) nodes (node_hash (list_env (\<lambda>_. 0)) (Leaf [1, 1] [7])) [0x11] None = Some (Ok False)"
proof -
  have f: "faithful (list_env (\<lambda>_. 0)) (db_get memory_db_new)"
    by (simp add: faithful_def load_node_def db_get_def memory_db_new_def)
  have "get_at_node 1 (list_env (\<lambda>_. 0)) (db_get memory_db_new) (Leaf [1, 1] [7]) (from_bytes [0x11]) 0 =
      Some (Ok (Some [7]))"
    by (simp add: slice_from_def slice_def)
  from merkle_proof_complete [OF f list_env_decodes_leaf(2) this] show ?thesis by fastforce
qed

text \<open>
  C37: proofs are not sound.  Verification compares the hash of the first node with the root hash but never
  the hash of a later node with the reference that leads to it: below an extension with a hash reference
  any leaf is accepted, so any value verifies.
\<close>

theorem merkle_proof_forgeable:
  assumes "decodes env (Extension k (Hash h))" and "decodes env (Leaf rest v)" and "from_bytes key = k @ rest"
  shows "proof_verify env [encode_raw env (Extension k (Hash h)), encode_raw env (Leaf rest v)]
    (node_hash env (Extension k (Hash h))) key (Some v) = Some (Ok True)"
proof -
  have "common_prefix_len k (k @ rest) = length k" by (simp add: common_prefix_full)
  then show ?thesis
    using assms
    by (simp add: proof_verify_def decodes_def slice_from_drop resolve_proof_node_def
        del: decode_raw.simps encode_raw.simps)
qed

theorem merkle_proof_forgeable_witness:
  "proof_verify (list_env (\<lambda>_. 0)) [encode_raw (list_env (\<lambda>_. 0)) (Extension [1] (Hash 5)), encode_raw (list_env (\<lambda>_. 0)) (Leaf [1] [7])]
     (node_hash (list_env (\<lambda>_. 0)) (Extension [1] (Hash 5))) [0x11] (Some [7]) = Some (Ok True)"
proof (rule merkle_proof_forgeable)
  have "length (encode_raw (list_env (\<lambda>_. 0)) (Extension [1] (Hash 5))) < 2 ^ 32"
    by (simp add: encode_list_def encoder_new_def encode_bytes_def encode_compact_def Let_def)
  then show "decodes (list_env (\<lambda>_. 0)) (Extension [1] (Hash 5))"
    by (intro list_env_decodes) (simp_all add: unpadded_def del: encode_raw.simps)
  show "decodes (list_env (\<lambda>_. 0)) (Leaf [1] [7])"
    by (rule list_env_decodes_leaf)
qed simp

end
