(* ===== verification/Rlp_Prefix.thy ===== *)
theory Rlp_Prefix
  imports Rlp_Items
begin

text \<open>
  Prefix codes.  The hash of a transaction or of a header is the hash of its encoding, so two values
  share a hash of necessity exactly when they share an encoding.  The locale \<open>prefix_code\<close> is the
  contract that makes encodings identify values: no encoding is a prefix of another.  Every codec
  of the locale \<open>rlp_codec\<close> meets it, and lists of values of a prefix code form a prefix code again.
\<close>

subsection \<open>The contract\<close>

locale prefix_code =
  fixes enc :: "'a encode" and valid :: "'a \<Rightarrow> bool"
  assumes code_appends: "appends enc"
    and code_nonempty: "enc [] x \<noteq> []"
    and code_prefix: "valid x \<Longrightarrow> valid y \<Longrightarrow> enc [] x @ r = enc [] y @ r' \<Longrightarrow> x = y \<and> r = r'"
begin

lemma code_inject: "valid x \<Longrightarrow> valid y \<Longrightarrow> rlp_encode enc x = rlp_encode enc y \<longleftrightarrow> x = y"
  using code_prefix [of x y "[]" "[]"] by (auto simp: rlp_encode_def encoder_new_def)

lemma concat_inject:
  "(\<forall>x\<in>set xs. valid x) \<Longrightarrow> (\<forall>y\<in>set ys. valid y) \<Longrightarrow>
     concat (map (enc []) xs) = concat (map (enc []) ys) \<Longrightarrow> xs = ys"
proof (induction xs arbitrary: ys)
  case Nil
  then show ?case using code_nonempty by (cases ys) auto
next
  case (Cons x xs)
  obtain y ys' where ys: "ys = y # ys'" using Cons.prems(3) code_nonempty [of x] by (cases ys) simp_all
  have "x = y \<and> concat (map (enc []) xs) = concat (map (enc []) ys')"
    by (rule code_prefix) (use Cons.prems ys in simp_all)
  moreover from this have "xs = ys'" by (intro Cons.IH) (use Cons.prems ys in simp_all)
  ultimately show ?case by (simp add: ys)
qed

lemma list_prefix:
  assumes "\<forall>x\<in>set xs. valid x" "\<forall>y\<in>set ys. valid y"
    and "length (concat (map (enc []) xs)) < 2 ^ 32" "length (concat (map (enc []) ys)) < 2 ^ 32"
    and eq: "encode_list enc [] xs @ r = encode_list enc [] ys @ r'"
  shows "xs = ys \<and> r = r'"
proof -
  have app: "enc buf x = buf @ enc [] x" for buf x by (rule appendsD [OF code_appends])
  obtain h where h: "encode_list enc [] xs = h @ concat (map (enc []) xs)"
    "\<And>pre rest. decode_header (cursor pre (h @ concat (map (enc []) xs) @ rest)) =
       Ok (length h, length (concat (map (enc []) xs)), False)"
    using encode_list_shape [OF app assms(3)] by metis
  obtain k where k: "encode_list enc [] ys = k @ concat (map (enc []) ys)"
    "\<And>pre rest. decode_header (cursor pre (k @ concat (map (enc []) ys) @ rest)) =
       Ok (length k, length (concat (map (enc []) ys)), False)"
    using encode_list_shape [OF app assms(4)] by metis
  have same: "h @ concat (map (enc []) xs) @ r = k @ concat (map (enc []) ys) @ r'"
    using eq by (simp add: h(1) k(1))
  have len: "length h = length k" "length (concat (map (enc []) xs)) = length (concat (map (enc []) ys))"
    using h(2) [of "[]" r] k(2) [of "[]" r'] same by (auto simp del: length_concat)
  then have "concat (map (enc []) xs) = concat (map (enc []) ys) \<and> r = r'"
    using same by (simp del: length_concat)
  then show ?thesis using concat_inject [OF assms(1,2)] by simp
qed

lemma list_code:
  "prefix_code (encode_list enc)
     (\<lambda>xs. (\<forall>x\<in>set xs. valid x) \<and> length (concat (map (enc []) xs)) < 2 ^ 32)"
proof
  show "encode_list enc [] xs \<noteq> []" for xs
    by (simp add: encode_list_def Let_def)
next
  fix xs ys r r'
  assume "(\<forall>x\<in>set xs. valid x) \<and> length (concat (map (enc []) xs)) < 2 ^ 32"
    "(\<forall>x\<in>set ys. valid x) \<and> length (concat (map (enc []) ys)) < 2 ^ 32"
    "encode_list enc [] xs @ r = encode_list enc [] ys @ r'"
  then show "xs = ys \<and> r = r'" using list_prefix by blast
qed simp

end

text \<open>Encodings of the codecs stay below the sizes at which a length would not fit its header.\<close>

sublocale rlp_codec < code: prefix_code enc "\<lambda>x. valid x \<and> length (enc [] x) < 2 ^ 33"
proof
  fix x y r r'
  assume "valid x \<and> length (enc [] x) < 2 ^ 33" "valid y \<and> length (enc [] y) < 2 ^ 33"
    and "enc [] x @ r = enc [] y @ r'"
  then show "x = y \<and> r = r'" by (intro prefix_free) simp_all
qed (simp_all add: enc_appends enc_nonempty)

subsection \<open>Scalars\<close>

lemma small_valid: "length (rlp_encode enc x) \<le> 261 \<Longrightarrow> length (enc [] x) < 2 ^ 33"
  by (simp add: rlp_encode_def encoder_new_def)

lemma scalar_inject [simp]:
  "rlp_encode encode_u8 u = rlp_encode encode_u8 u' \<longleftrightarrow> u = u'"
  "rlp_encode encode_u64 a = rlp_encode encode_u64 b \<longleftrightarrow> a = b"
  "rlp_encode encode_u256 c = rlp_encode encode_u256 d \<longleftrightarrow> c = d"
  "rlp_encode encode_bool e = rlp_encode encode_bool f \<longleftrightarrow> e = f"
  "rlp_encode encode_address g = rlp_encode encode_address h \<longleftrightarrow> g = h"
  "rlp_encode encode_h256 i = rlp_encode encode_h256 j \<longleftrightarrow> i = j"
  "rlp_encode encode_bloom k = rlp_encode encode_bloom l \<longleftrightarrow> k = l"
  by (subst u8_codec.code.code_inject u64_codec.code.code_inject u256_codec.code.code_inject
      bool_codec.code.code_inject address_codec.code.code_inject h256_codec.code.code_inject
      bloom_codec.code.code_inject; intro conjI TrueI small_valid scalar_lengths refl)+

text \<open>An address is never encoded as the empty string, so an absent one keeps apart from all others.\<close>

lemma encode_address_shape: "rlp_encode encode_address a = 0x94 # to_be 20 a"
  by (simp add: rlp_encode_def encoder_new_def encode_address_def encode_bytes_def)

lemma option_address_inject [simp]:
  "rlp_encode (encode_option encode_address) a = rlp_encode (encode_option encode_address) b \<longleftrightarrow> a = b"
proof -
  have some: "rlp_encode (encode_option encode_address) (Some x) = rlp_encode encode_address x" for x
    by (simp add: rlp_encode_def encode_option_def)
  have none: "rlp_encode (encode_option encode_address) None = [0x80]"
    by (simp add: rlp_encode_def encode_option_def encode_bytes_def encoder_new_def)
  have "rlp_encode encode_address x \<noteq> [0x80]" "[0x80] \<noteq> rlp_encode encode_address x" for x
    by (simp_all add: encode_address_shape)
  then show ?thesis by (cases a; cases b) (simp_all add: some none)
qed

lemma bytes_inject:
  "length a < 2 ^ 32 \<Longrightarrow> length b < 2 ^ 32 \<Longrightarrow> rlp_encode encode_bytes a = rlp_encode encode_bytes b \<longleftrightarrow> a = b"
  using length_encode_bytes [of a] length_encode_bytes [of b]
  by (intro bytes_codec.code.code_inject) simp_all

subsection \<open>Lists of fields\<close>

lemma length_bytes_ge: "length bs \<le> length (encode_bytes [] bs)"
  by (simp add: encode_bytes_def Let_def)

lemma length_list_ge: "appends enc \<Longrightarrow> length (concat (map (enc []) xs)) \<le> length (encode_list enc [] xs)"
proof -
  assume "appends enc"
  then have "foldl enc [] xs = [] @ concat (map (enc []) xs)"
    by (intro foldl_appends appendsD)
  then have "foldl enc encoder_new xs = concat (map (enc []) xs)"
    by (simp add: encoder_new_def)
  then show ?thesis by (simp add: encode_list_def Let_def del: length_concat)
qed

lemma length_concat_ge: "x \<in> set xs \<Longrightarrow> length (f x) \<le> length (concat (map f xs))"
  by (induction xs) auto

text \<open>The fields of a list that fits are themselves short enough.\<close>

lemma list_fits:
  assumes "appends enc" and "length (encode_list enc [] xs) < 2 ^ 32"
  shows "length (concat (map (enc []) xs)) < 2 ^ 32" and "x \<in> set xs \<Longrightarrow> length (enc [] x) < 2 ^ 32"
  using length_list_ge [OF assms(1), of xs] assms(2) length_concat_ge [of x xs "enc []"] by linarith+

lemma fields_prefix:
  assumes "length (encode_list encode_bytes [] xs) < 2 ^ 32" "length (encode_list encode_bytes [] ys) < 2 ^ 32"
    and "encode_list encode_bytes [] xs @ r = encode_list encode_bytes [] ys @ r'"
  shows "xs = ys \<and> r = r'"
proof -
  have valid: "length x < 2 ^ 32 \<and> length (encode_bytes [] x) < 2 ^ 33"
    if "length (encode_list encode_bytes [] zs) < 2 ^ 32" "x \<in> set zs" for x zs
    using list_fits(2) [OF appends_bytes that] length_bytes_ge [of x] by simp
  show ?thesis
    by (rule bytes_codec.code.list_prefix)
      (use assms valid list_fits(1) [OF appends_bytes] in \<open>auto simp del: length_concat\<close>)
qed

lemma field_fits: "length (encode_list encode_bytes [] xs) < 2 ^ 32 \<Longrightarrow> x \<in> set xs \<Longrightarrow> length x < 2 ^ 32"
  using list_fits(2) [OF appends_bytes, of xs x] length_bytes_ge [of x] by linarith

text \<open>
  A struct that is encoded as the list of its fields is a prefix code when the fields identify it.
\<close>

lemma struct_code:
  assumes "\<And>buf x. enc buf x = encode_list encode_bytes buf (fs x)"
    and "\<And>x y. length (enc [] x) < 2 ^ 32 \<Longrightarrow> length (enc [] y) < 2 ^ 32 \<Longrightarrow> fs x = fs y \<Longrightarrow> x = y"
  shows "prefix_code enc (\<lambda>x. length (enc [] x) < 2 ^ 32)"
proof
  show "appends enc" by (rule appendsI) (metis assms(1) appendsD [OF appends_list])
  show "enc [] x \<noteq> []" for x by (simp add: assms(1) encode_list_def Let_def)
next
  fix x y r r'
  assume "length (enc [] x) < 2 ^ 32" "length (enc [] y) < 2 ^ 32" "enc [] x @ r = enc [] y @ r'"
  then show "x = y \<and> r = r'"
    using fields_prefix [of "fs x" "fs y" r r'] assms(2) [of x y] by (simp add: assms(1))
qed

end
