(* ===== verification/Crypto.thy ===== *)
theory Crypto
  imports Prelude
begin

text \<open>
  The crate \<^verbatim>\<open>crypto\<close> (\<^verbatim>\<open>lib.rs\<close>, \<^verbatim>\<open>secp256k1_crypto.rs\<close>): the hash function and ECDSA
  signatures with public key recovery.  Keccak-256 and the curve are libraries outside the
  repository, so they are the fields of a record \<open>CryptoEnv\<close> that every definition takes:
  \<^item> \<open>c_keccak\<close> is the hash of a byte string;
  \<^item> \<open>c_recovery_id\<close> is \<^verbatim>\<open>RecoveryId::from_i32\<close>;
  \<^item> \<open>c_recover\<close> is \<^verbatim>\<open>RecoverableSignature::from_compact\<close> followed by \<^verbatim>\<open>recover_ecdsa\<close> and
    \<^verbatim>\<open>serialize_uncompressed\<close>, on the 32 bytes of the message and the 64 of the signature;
  \<^item> \<open>c_sign\<close> is \<^verbatim>\<open>sign_ecdsa_recoverable\<close> followed by \<^verbatim>\<open>serialize_compact\<close>.

  \<^verbatim>\<open>Message::from_slice\<close> fails only on slices that are not 32 bytes long, so it succeeds here.
\<close>

datatype CryptoError =
    CryptoInvalidSignature
  | CryptoInvalidPublicKey
  | CryptoInvalidPrivateKey
  | Secp256k1 string

record CryptoEnv =
  c_keccak :: "bytes \<Rightarrow> H256"
  c_recovery_id :: "int \<Rightarrow> (string, nat) result"
  c_recover :: "bytes \<Rightarrow> nat \<Rightarrow> bytes \<Rightarrow> (string, bytes) result"
  c_sign :: "bytes \<Rightarrow> bytes \<Rightarrow> nat \<times> bytes"

subsection \<open>Hashing\<close>

definition keccak256 :: "CryptoEnv \<Rightarrow> bytes \<Rightarrow> H256" where
  "keccak256 env data = c_keccak env data"

text \<open>A hasher that is fed slice by slice hashes their concatenation.\<close>

definition keccak256_concat :: "CryptoEnv \<Rightarrow> bytes list \<Rightarrow> H256" where
  "keccak256_concat env data = c_keccak env (foldl (@) [] data)"

lemma keccak256_concat_eq: "keccak256_concat env data = keccak256 env (concat data)"
proof -
  have "foldl (@) acc data = acc @ concat data" for acc
    by (induction data arbitrary: acc) auto
  then show ?thesis by (simp add: keccak256_concat_def keccak256_def)
qed

subsection \<open>Signatures\<close>

record Signature =
  sig_r :: H256
  sig_s :: H256
  sig_v :: u8

definition signature_new :: "H256 \<Rightarrow> H256 \<Rightarrow> u8 \<Rightarrow> Signature" where
  "signature_new r s v = \<lparr>sig_r = r, sig_s = s, sig_v = v\<rparr>"

definition sig_to_bytes :: "Signature \<Rightarrow> bytes" where
  "sig_to_bytes sig = to_be 32 (sig_r sig) @ to_be 32 (sig_s sig) @ [sig_v sig]"

definition sig_from_bytes :: "bytes \<Rightarrow> (CryptoError, Signature) result" where
  "sig_from_bytes bs =
     (if length bs \<noteq> 65 then Err CryptoInvalidSignature
      else Ok \<lparr>sig_r = from_be (take 32 bs), sig_s = from_be (take 32 (drop 32 bs)), sig_v = bs ! 64\<rparr>)"

lemma from_be_to_be_H256 [simp]: "from_be (to_be 32 w) = (w :: H256)"
  by (rule from_be_to_be) simp

lemma sig_bytes_roundtrip: "sig_from_bytes (sig_to_bytes sig) = Ok sig"
  by (simp add: sig_from_bytes_def sig_to_bytes_def nth_append)

lemma sig_from_bytes_exact:
  "sig_from_bytes bs = Ok sig \<longleftrightarrow> bs = sig_to_bytes sig"
proof
  assume "sig_from_bytes bs = Ok sig"
  then have len: "length bs = 65"
    and sig: "sig = \<lparr>sig_r = from_be (take 32 bs), sig_s = from_be (take 32 (drop 32 bs)), sig_v = bs ! 64\<rparr>"
    by (auto simp: sig_from_bytes_def split: if_splits)
  have r: "to_be 32 (from_be (take 32 bs) :: H256) = take 32 bs"
    using to_be_from_be [of "take 32 bs", where ?'a = 256] len by simp
  have s: "to_be 32 (from_be (take 32 (drop 32 bs)) :: H256) = take 32 (drop 32 bs)"
    using to_be_from_be [of "take 32 (drop 32 bs)", where ?'a = 256] len by simp
  have "drop 64 bs = [bs ! 64]" using len by (simp add: Cons_nth_drop_Suc [symmetric])
  moreover have "bs = take 32 bs @ take 32 (drop 32 bs) @ drop 64 bs"
    by (metis append_take_drop_id drop_drop numeral_Bit0)
  ultimately show "bs = sig_to_bytes sig" by (simp add: sig_to_bytes_def sig r s)
qed (simp add: sig_bytes_roundtrip)

subsection \<open>Signing and recovery\<close>

definition sign_message :: "CryptoEnv \<Rightarrow> H256 \<Rightarrow> bytes \<Rightarrow> (CryptoError, Signature) result" where
  "sign_message env message private_key =
     (let (recovery_id, sig_bytes) = c_sign env (to_be 32 message) private_key in
      Ok \<lparr>sig_r = from_be (take 32 sig_bytes), sig_s = from_be (take 32 (drop 32 sig_bytes)),
          sig_v = of_nat recovery_id + 27\<rparr>)"

text \<open>\<open>signature.v - 27\<close> is computed on \<^verbatim>\<open>u8\<close> and wraps around for a smaller \<open>v\<close>.\<close>

definition recover_public_key :: "CryptoEnv \<Rightarrow> H256 \<Rightarrow> Signature \<Rightarrow> (CryptoError, bytes) result" where
  "recover_public_key env message sig =
     bind_res (map_err (\<lambda>_. CryptoInvalidSignature) (c_recovery_id env (uint (sig_v sig - 27)))) (\<lambda>recovery_id.
     map_err Secp256k1 (c_recover env (to_be 32 message) recovery_id (to_be 32 (sig_r sig) @ to_be 32 (sig_s sig))))"

definition public_key_to_address :: "CryptoEnv \<Rightarrow> bytes \<Rightarrow> Address" where
  "public_key_to_address env public_key =
     from_be (drop 12 (to_be 32 (keccak256 env (drop 1 public_key))))"

definition recover_address :: "CryptoEnv \<Rightarrow> H256 \<Rightarrow> Signature \<Rightarrow> (CryptoError, Address) result" where
  "recover_address env message sig =
     map_ok (public_key_to_address env) (recover_public_key env message sig)"

definition secp256k1_recover :: "CryptoEnv \<Rightarrow> H256 \<Rightarrow> u8 \<Rightarrow> bytes \<Rightarrow> bytes \<Rightarrow> (CryptoError, bytes) result" where
  "secp256k1_recover env hash recovery_id r s =
     bind_res (map_err Secp256k1 (c_recovery_id env (uint recovery_id))) (\<lambda>recovery_id.
     map_ok (drop 1) (map_err Secp256k1 (c_recover env (to_be 32 hash) recovery_id (r @ s))))"

text \<open>
  The contract of the curve: recovery ids are 0 to 3, a signature is 64 bytes and comes with its
  recovery id, and recovering the key from a signature made with a private key gives the public key
  \<open>pub\<close> of that key.  The lemmas show what the crate makes of it.
\<close>

locale ecdsa =
  fixes env :: CryptoEnv and pub :: "bytes \<Rightarrow> bytes"
  assumes recovery_ids: "n \<le> 3 \<Longrightarrow> c_recovery_id env (int n) = Ok n"
    and sign_shape: "c_sign env m k = (n, bs) \<Longrightarrow> n \<le> 3 \<and> length bs = 64"
    and recover_sign: "c_sign env m k = (n, bs) \<Longrightarrow> c_recover env m n bs = Ok (pub k)"
begin

lemma sign_message_Ok:
  "\<exists>n bs. c_sign env (to_be 32 m) k = (n, bs) \<and> n \<le> 3 \<and> length bs = 64 \<and>
     sign_message env m k = Ok \<lparr>sig_r = from_be (take 32 bs), sig_s = from_be (drop 32 bs), sig_v = of_nat n + 27\<rparr>"
  using sign_shape [of "to_be 32 m" k] by (cases "c_sign env (to_be 32 m) k") (auto simp: sign_message_def)

lemma recover_signed:
  "sign_message env m k = Ok sig \<Longrightarrow> recover_address env m sig = Ok (public_key_to_address env (pub k))"
proof -
  assume sig: "sign_message env m k = Ok sig"
  obtain n bs where n: "c_sign env (to_be 32 m) k = (n, bs)" "n \<le> 3" "length bs = 64"
    "sig = \<lparr>sig_r = from_be (take 32 bs), sig_s = from_be (drop 32 bs), sig_v = of_nat n + 27\<rparr>"
    using sign_message_Ok [of m k] sig by auto
  have id: "uint (of_nat n :: u8) = int n"
    using n(2) by (simp add: uint_nat unat_of_nat)
  have bs: "to_be 32 (from_be (take 32 bs) :: H256) @ to_be 32 (from_be (drop 32 bs) :: H256) = bs"
    using to_be_from_be [of "take 32 bs", where ?'a = 256] to_be_from_be [of "drop 32 bs", where ?'a = 256] n(3)
    by simp
  show ?thesis
    using recovery_ids [OF n(2)] recover_sign [OF n(1)]
    by (simp add: recover_address_def recover_public_key_def n(4) id bs)
qed

end

text \<open>
  A curve that meets the contract: a signature is the key itself, padded to 64 bytes, and a public
  key is the byte 4 followed by it.
\<close>

definition sample_crypto :: CryptoEnv where
  "sample_crypto =
     \<lparr>c_keccak = (\<lambda>bs. of_nat (be_nat bs)),
      c_recovery_id = (\<lambda>i. if 0 \<le> i \<and> i \<le> 3 then Ok (nat i) else Err ''InvalidRecoveryId''),
      c_recover = (\<lambda>m n bs. Ok (4 # bs)),
      c_sign = (\<lambda>m k. (0, take 64 (k @ replicate 64 0)))\<rparr>"

definition sample_pub :: "bytes \<Rightarrow> bytes" where
  "sample_pub k = 4 # take 64 (k @ replicate 64 0)"

interpretation sample_curve: ecdsa sample_crypto sample_pub
  by unfold_locales (auto simp: sample_crypto_def sample_pub_def)

end
