(* ===== verification/Transaction.thy ===== *)
theory Transaction
  imports Rlp_Prefix Crypto
begin

text \<open>
  Transactions: \<^verbatim>\<open>crates/core/src/transaction.rs\<close> and \<^verbatim>\<open>eip7702.rs\<close>.  The five kinds of
  transaction are records whose fields carry a prefix (\<open>leg_\<close>, \<open>acl_\<close>, \<open>dyn_\<close>, \<open>blb_\<close>, \<open>del_\<close>;
  \<open>auth_\<close> for an authorization) in front of the Rust name.  An encoding is the RLP list of the
  fields, where each field is encoded first and then written as a byte string, as the code does.

  \<^verbatim>\<open>eip7702.rs\<close> calls \<^verbatim>\<open>recover_address\<close> with the parts of a signature, a function of four
  arguments that the crate \<^verbatim>\<open>crypto\<close> does not have; it is the parameter \<open>tx_recover\<close>.
\<close>

record TxEnv =
  tx_crypto :: CryptoEnv
  tx_recover :: "H256 \<Rightarrow> u8 \<Rightarrow> bytes \<Rightarrow> bytes \<Rightarrow> (CryptoError, Address) result"

abbreviation tx_keccak :: "TxEnv \<Rightarrow> bytes \<Rightarrow> H256" where
  "tx_keccak env \<equiv> keccak256 (tx_crypto env)"

subsection \<open>Data\<close>

datatype TransactionError =
    TxInvalidSignature
  | TxInvalidTransactionType u8
  | TxMissingField string
  | TxInvalidChainId
  | TxCrypto CryptoError
  | TxRlp RlpError

datatype Eip7702Error =
    AuthInvalidSignature
  | AuthInvalidChainId
  | AuthNonceMismatch
  | AuthExpired
  | AuthInvalidAuthority

record LegacyTransaction =
  leg_nonce :: U256
  leg_gas_price :: U256
  leg_gas_limit :: U256
  leg_to :: "Address option"
  leg_value :: U256
  leg_data :: bytes
  leg_v :: u64
  leg_r :: U256
  leg_s :: U256

record AccessListItem =
  ali_address :: Address
  ali_storage_keys :: "H256 list"

record Eip2930Transaction =
  acl_chain_id :: u64
  acl_nonce :: U256
  acl_gas_price :: U256
  acl_gas_limit :: U256
  acl_to :: "Address option"
  acl_value :: U256
  acl_data :: bytes
  acl_access_list :: "AccessListItem list"
  acl_y_parity :: bool
  acl_r :: U256
  acl_s :: U256

record Eip1559Transaction =
  dyn_chain_id :: u64
  dyn_nonce :: U256
  dyn_max_priority_fee_per_gas :: U256
  dyn_max_fee_per_gas :: U256
  dyn_gas_limit :: U256
  dyn_to :: "Address option"
  dyn_value :: U256
  dyn_data :: bytes
  dyn_access_list :: "AccessListItem list"
  dyn_y_parity :: bool
  dyn_r :: U256
  dyn_s :: U256

record Eip4844Transaction =
  blb_chain_id :: u64
  blb_nonce :: U256
  blb_max_priority_fee_per_gas :: U256
  blb_max_fee_per_gas :: U256
  blb_gas_limit :: U256
  blb_to :: Address
  blb_value :: U256
  blb_data :: bytes
  blb_access_list :: "AccessListItem list"
  blb_max_fee_per_blob_gas :: U256
  blb_blob_versioned_hashes :: "H256 list"
  blb_y_parity :: bool
  blb_r :: U256
  blb_s :: U256

record Authorization =
  auth_chain_id :: u64
  auth_address :: Address
  auth_nonce :: U256
  auth_y_parity :: bool
  auth_r :: U256
  auth_s :: U256

record Eip7702Transaction =
  del_chain_id :: u64
  del_nonce :: U256
  del_max_priority_fee_per_gas :: U256
  del_max_fee_per_gas :: U256
  del_gas_limit :: U256
  del_to :: Address
  del_value :: U256
  del_data :: bytes
  del_access_list :: "AccessListItem list"
  del_authorization_list :: "Authorization list"
  del_y_parity :: bool
  del_r :: U256
  del_s :: U256

datatype Transaction =
    Legacy LegacyTransaction
  | Eip2930 Eip2930Transaction
  | Eip1559 Eip1559Transaction
  | Eip4844 Eip4844Transaction
  | Eip7702 Eip7702Transaction

subsection \<open>Encoding\<close>

definition encode_h256_list :: "H256 list \<Rightarrow> bytes" where
  "encode_h256_list hs = encode_list encode_h256 encoder_new hs"

definition encode_access_list_item :: "AccessListItem encode" where
  "encode_access_list_item buf i =
     encode_list encode_bytes buf
       [rlp_encode encode_address (ali_address i), encode_h256_list (ali_storage_keys i)]"

definition encode_access_list :: "AccessListItem list \<Rightarrow> bytes" where
  "encode_access_list items = encode_list encode_access_list_item encoder_new items"

definition encode_legacy :: "LegacyTransaction encode" where
  "encode_legacy buf tx =
     encode_list encode_bytes buf
       [rlp_encode encode_u256 (leg_nonce tx),
        rlp_encode encode_u256 (leg_gas_price tx),
        rlp_encode encode_u256 (leg_gas_limit tx),
        rlp_encode (encode_option encode_address) (leg_to tx),
        rlp_encode encode_u256 (leg_value tx),
        rlp_encode encode_bytes (leg_data tx),
        rlp_encode encode_u64 (leg_v tx),
        rlp_encode encode_u256 (leg_r tx),
        rlp_encode encode_u256 (leg_s tx)]"

definition encode_2930 :: "Eip2930Transaction encode" where
  "encode_2930 buf tx =
     encode_list encode_bytes buf
       [rlp_encode encode_u64 (acl_chain_id tx),
        rlp_encode encode_u256 (acl_nonce tx),
        rlp_encode encode_u256 (acl_gas_price tx),
        rlp_encode encode_u256 (acl_gas_limit tx),
        rlp_encode (encode_option encode_address) (acl_to tx),
        rlp_encode encode_u256 (acl_value tx),
        rlp_encode encode_bytes (acl_data tx),
        encode_access_list (acl_access_list tx),
        rlp_encode encode_bool (acl_y_parity tx),
        rlp_encode encode_u256 (acl_r tx),
        rlp_encode encode_u256 (acl_s tx)]"

definition encode_1559 :: "Eip1559Transaction encode" where
  "encode_1559 buf tx =
     encode_list encode_bytes buf
       [rlp_encode encode_u64 (dyn_chain_id tx),
        rlp_encode encode_u256 (dyn_nonce tx),
        rlp_encode encode_u256 (dyn_max_priority_fee_per_gas tx),
        rlp_encode encode_u256 (dyn_max_fee_per_gas tx),
        rlp_encode encode_u256 (dyn_gas_limit tx),
        rlp_encode (encode_option encode_address) (dyn_to tx),
        rlp_encode encode_u256 (dyn_value tx),
        rlp_encode encode_bytes (dyn_data tx),
        encode_access_list (dyn_access_list tx),
        rlp_encode encode_bool (dyn_y_parity tx),
        rlp_encode encode_u256 (dyn_r tx),
        rlp_encode encode_u256 (dyn_s tx)]"

definition encode_4844 :: "Eip4844Transaction encode" where
  "encode_4844 buf tx =
     encode_list encode_bytes buf
       [rlp_encode encode_u64 (blb_chain_id tx),
        rlp_encode encode_u256 (blb_nonce tx),
        rlp_encode encode_u256 (blb_max_priority_fee_per_gas tx),
        rlp_encode encode_u256 (blb_max_fee_per_gas tx),
        rlp_encode encode_u256 (blb_gas_limit tx),
        rlp_encode encode_address (blb_to tx),
        rlp_encode encode_u256 (blb_value tx),
        rlp_encode encode_bytes (blb_data tx),
        encode_access_list (blb_access_list tx),
        rlp_encode encode_u256 (blb_max_fee_per_blob_gas tx),
        encode_h256_list (blb_blob_versioned_hashes tx),
        rlp_encode encode_bool (blb_y_parity tx),
        rlp_encode encode_u256 (blb_r tx),
        rlp_encode encode_u256 (blb_s tx)]"

definition encode_authorization :: "Authorization encode" where
  "encode_authorization buf a =
     encode_list encode_bytes buf
       [rlp_encode encode_u64 (auth_chain_id a),
        rlp_encode encode_address (auth_address a),
        rlp_encode encode_u256 (auth_nonce a),
        rlp_encode encode_bool (auth_y_parity a),
        rlp_encode encode_u256 (auth_r a),
        rlp_encode encode_u256 (auth_s a)]"

definition encode_authorization_list :: "Eip7702Transaction \<Rightarrow> bytes" where
  "encode_authorization_list tx =
     encode_list encode_authorization encoder_new (del_authorization_list tx)"

definition encode_7702 :: "Eip7702Transaction encode" where
  "encode_7702 buf tx =
     encode_list encode_bytes buf
       [rlp_encode encode_u64 (del_chain_id tx),
        rlp_encode encode_u256 (del_nonce tx),
        rlp_encode encode_u256 (del_max_priority_fee_per_gas tx),
        rlp_encode encode_u256 (del_max_fee_per_gas tx),
        rlp_encode encode_u256 (del_gas_limit tx),
        rlp_encode encode_address (del_to tx),
        rlp_encode encode_u256 (del_value tx),
        rlp_encode encode_bytes (del_data tx),
        encode_access_list (del_access_list tx),
        encode_authorization_list tx,
        rlp_encode encode_bool (del_y_parity tx),
        rlp_encode encode_u256 (del_r tx),
        rlp_encode encode_u256 (del_s tx)]"

fun encode_transaction :: "Transaction encode" where
  "encode_transaction buf (Legacy tx) = encode_legacy buf tx"
| "encode_transaction buf (Eip2930 tx) = encode_bytes buf (0x01 # rlp_encode encode_2930 tx)"
| "encode_transaction buf (Eip1559 tx) = encode_bytes buf (0x02 # rlp_encode encode_1559 tx)"
| "encode_transaction buf (Eip4844 tx) = encode_bytes buf (0x03 # rlp_encode encode_4844 tx)"
| "encode_transaction buf (Eip7702 tx) = encode_bytes buf (0x04 # rlp_encode encode_7702 tx)"

subsection \<open>Hashes\<close>

definition legacy_hash :: "TxEnv \<Rightarrow> LegacyTransaction \<Rightarrow> H256" where
  "legacy_hash env tx = tx_keccak env (rlp_encode encode_legacy tx)"

definition hash_2930 :: "TxEnv \<Rightarrow> Eip2930Transaction \<Rightarrow> H256" where
  "hash_2930 env tx = tx_keccak env (0x01 # rlp_encode encode_2930 tx)"

definition hash_1559 :: "TxEnv \<Rightarrow> Eip1559Transaction \<Rightarrow> H256" where
  "hash_1559 env tx = tx_keccak env (0x02 # rlp_encode encode_1559 tx)"

definition hash_4844 :: "TxEnv \<Rightarrow> Eip4844Transaction \<Rightarrow> H256" where
  "hash_4844 env tx = tx_keccak env (0x03 # rlp_encode encode_4844 tx)"

definition hash_7702 :: "TxEnv \<Rightarrow> Eip7702Transaction \<Rightarrow> H256" where
  "hash_7702 env tx = tx_keccak env (0x04 # rlp_encode encode_7702 tx)"

fun tx_hash :: "TxEnv \<Rightarrow> Transaction \<Rightarrow> H256" where
  "tx_hash env (Legacy tx) = legacy_hash env tx"
| "tx_hash env (Eip2930 tx) = hash_2930 env tx"
| "tx_hash env (Eip1559 tx) = hash_1559 env tx"
| "tx_hash env (Eip4844 tx) = hash_4844 env tx"
| "tx_hash env (Eip7702 tx) = hash_7702 env tx"

definition legacy_signing_hash :: "TxEnv \<Rightarrow> LegacyTransaction \<Rightarrow> u64 option \<Rightarrow> H256" where
  "legacy_signing_hash env tx chain_id_opt =
     (case chain_id_opt of
        Some chain_id \<Rightarrow>
          tx_keccak env (encode_list encode_bytes encoder_new
            [rlp_encode encode_u256 (leg_nonce tx),
             rlp_encode encode_u256 (leg_gas_price tx),
             rlp_encode encode_u256 (leg_gas_limit tx),
             rlp_encode (encode_option encode_address) (leg_to tx),
             rlp_encode encode_u256 (leg_value tx),
             rlp_encode encode_bytes (leg_data tx),
             rlp_encode encode_u64 chain_id,
             rlp_encode encode_u8 0,
             rlp_encode encode_u8 0])
      | None \<Rightarrow>
          tx_keccak env (encode_list encode_bytes encoder_new
            [rlp_encode encode_u256 (leg_nonce tx),
             rlp_encode encode_u256 (leg_gas_price tx),
             rlp_encode encode_u256 (leg_gas_limit tx),
             rlp_encode (encode_option encode_address) (leg_to tx),
             rlp_encode encode_u256 (leg_value tx),
             rlp_encode encode_bytes (leg_data tx)]))"

definition signing_hash_2930 :: "TxEnv \<Rightarrow> Eip2930Transaction \<Rightarrow> H256" where
  "signing_hash_2930 env tx =
     tx_keccak env (0x01 # encode_list encode_bytes encoder_new
       [rlp_encode encode_u64 (acl_chain_id tx),
        rlp_encode encode_u256 (acl_nonce tx),
        rlp_encode encode_u256 (acl_gas_price tx),
        rlp_encode encode_u256 (acl_gas_limit tx),
        rlp_encode (encode_option encode_address) (acl_to tx),
        rlp_encode encode_u256 (acl_value tx),
        rlp_encode encode_bytes (acl_data tx),
        encode_access_list (acl_access_list tx)])"

definition signing_hash_1559 :: "TxEnv \<Rightarrow> Eip1559Transaction \<Rightarrow> H256" where
  "signing_hash_1559 env tx =
     tx_keccak env (0x02 # encode_list encode_bytes encoder_new
       [rlp_encode encode_u64 (dyn_chain_id tx),
        rlp_encode encode_u256 (dyn_nonce tx),
        rlp_encode encode_u256 (dyn_max_priority_fee_per_gas tx),
        rlp_encode encode_u256 (dyn_max_fee_per_gas tx),
        rlp_encode encode_u256 (dyn_gas_limit tx),
        rlp_encode (encode_option encode_address) (dyn_to tx),
        rlp_encode encode_u256 (dyn_value tx),
        rlp_encode encode_bytes (dyn_data tx),
        encode_access_list (dyn_access_list tx)])"

definition signing_hash_4844 :: "TxEnv \<Rightarrow> Eip4844Transaction \<Rightarrow> H256" where
  "signing_hash_4844 env tx =
     tx_keccak env (0x03 # encode_list encode_bytes encoder_new
       [rlp_encode encode_u64 (blb_chain_id tx),
        rlp_encode encode_u256 (blb_nonce tx),
        rlp_encode encode_u256 (blb_max_priority_fee_per_gas tx),
        rlp_encode encode_u256 (blb_max_fee_per_gas tx),
        rlp_encode encode_u256 (blb_gas_limit tx),
        rlp_encode encode_address (blb_to tx),
        rlp_encode encode_u256 (blb_value tx),
        rlp_encode encode_bytes (blb_data tx),
        encode_access_list (blb_access_list tx),
        rlp_encode encode_u256 (blb_max_fee_per_blob_gas tx),
        encode_h256_list (blb_blob_versioned_hashes tx)])"

definition signing_hash_7702 :: "TxEnv \<Rightarrow> Eip7702Transaction \<Rightarrow> H256" where
  "signing_hash_7702 env tx =
     tx_keccak env (0x04 # encode_list encode_bytes encoder_new
       [rlp_encode encode_u64 (del_chain_id tx),
        rlp_encode encode_u256 (del_nonce tx),
        rlp_encode encode_u256 (del_max_priority_fee_per_gas tx),
        rlp_encode encode_u256 (del_max_fee_per_gas tx),
        rlp_encode encode_u256 (del_gas_limit tx),
        rlp_encode encode_address (del_to tx),
        rlp_encode encode_u256 (del_value tx),
        rlp_encode encode_bytes (del_data tx),
        encode_access_list (del_access_list tx),
        encode_authorization_list tx])"

text \<open>
  An authorization is hashed without a list around its fields.  The source writes them with
  \<^verbatim>\<open>encoder.encode(&x)\<close>, a method that the RLP crate's \<^verbatim>\<open>Encoder\<close> does not have; it is read as
  \<^verbatim>\<open>x.encode(&mut encoder)\<close> of the trait \<^verbatim>\<open>Encode\<close>, which appends the encoding of the field.
\<close>

definition auth_signing_hash :: "TxEnv \<Rightarrow> Authorization \<Rightarrow> H256" where
  "auth_signing_hash env a =
     tx_keccak env (0x05 # encode_u256 (encode_address (encode_u64 encoder_new (auth_chain_id a))
       (auth_address a)) (auth_nonce a))"

subsection \<open>Senders\<close>

definition legacy_chain_id :: "LegacyTransaction \<Rightarrow> u64 option" where
  "legacy_chain_id tx = (if leg_v tx \<ge> 35 then Some ((leg_v tx - 35) div 2) else None)"

definition legacy_recovery :: "LegacyTransaction \<Rightarrow> u8" where
  "legacy_recovery tx =
     (if leg_v tx \<ge> 35 then ucast ((leg_v tx - 35) mod 2) else ucast (leg_v tx - 27))"

definition legacy_sender :: "TxEnv \<Rightarrow> LegacyTransaction \<Rightarrow> (TransactionError, Address) result" where
  "legacy_sender env tx =
     map_err TxCrypto (recover_address (tx_crypto env) (legacy_signing_hash env tx (legacy_chain_id tx))
       \<lparr>sig_r = leg_r tx, sig_s = leg_s tx, sig_v = legacy_recovery tx + 27\<rparr>)"

definition parity_v :: "bool \<Rightarrow> u8" where
  "parity_v y_parity = (if y_parity then 28 else 27)"

definition sender_2930 :: "TxEnv \<Rightarrow> Eip2930Transaction \<Rightarrow> (TransactionError, Address) result" where
  "sender_2930 env tx =
     map_err TxCrypto (recover_address (tx_crypto env) (signing_hash_2930 env tx)
       \<lparr>sig_r = acl_r tx, sig_s = acl_s tx, sig_v = parity_v (acl_y_parity tx)\<rparr>)"

definition sender_1559 :: "TxEnv \<Rightarrow> Eip1559Transaction \<Rightarrow> (TransactionError, Address) result" where
  "sender_1559 env tx =
     map_err TxCrypto (recover_address (tx_crypto env) (signing_hash_1559 env tx)
       \<lparr>sig_r = dyn_r tx, sig_s = dyn_s tx, sig_v = parity_v (dyn_y_parity tx)\<rparr>)"

definition sender_4844 :: "TxEnv \<Rightarrow> Eip4844Transaction \<Rightarrow> (TransactionError, Address) result" where
  "sender_4844 env tx =
     map_err TxCrypto (recover_address (tx_crypto env) (signing_hash_4844 env tx)
       \<lparr>sig_r = blb_r tx, sig_s = blb_s tx, sig_v = parity_v (blb_y_parity tx)\<rparr>)"

definition sender_7702 :: "TxEnv \<Rightarrow> Eip7702Transaction \<Rightarrow> (Eip7702Error, Address) result" where
  "sender_7702 env tx =
     map_err (\<lambda>_. AuthInvalidSignature) (tx_recover env (signing_hash_7702 env tx)
       (if del_y_parity tx then 1 else 0) (to_be 32 (del_r tx)) (to_be 32 (del_s tx)))"

fun tx_sender :: "TxEnv \<Rightarrow> Transaction \<Rightarrow> (TransactionError, Address) result" where
  "tx_sender env (Legacy tx) = legacy_sender env tx"
| "tx_sender env (Eip2930 tx) = sender_2930 env tx"
| "tx_sender env (Eip1559 tx) = sender_1559 env tx"
| "tx_sender env (Eip4844 tx) = sender_4844 env tx"
| "tx_sender env (Eip7702 tx) = map_err (\<lambda>_. TxInvalidSignature) (sender_7702 env tx)"

definition unwrap_or :: "'a \<Rightarrow> ('e, 'a) result \<Rightarrow> ('f, 'a) result" where
  "unwrap_or x r = (case r of Ok y \<Rightarrow> Ok y | Err _ \<Rightarrow> Ok x | Panic \<Rightarrow> Panic)"

fun tx_from :: "TxEnv \<Rightarrow> Transaction \<Rightarrow> ('e, Address) result" where
  "tx_from env (Legacy tx) = unwrap_or 0 (legacy_sender env tx)"
| "tx_from env (Eip2930 tx) = unwrap_or 0 (sender_2930 env tx)"
| "tx_from env (Eip1559 tx) = unwrap_or 0 (sender_1559 env tx)"
| "tx_from env (Eip4844 tx) = unwrap_or 0 (sender_4844 env tx)"
| "tx_from env (Eip7702 tx) = unwrap_or 0 (sender_7702 env tx)"

subsection \<open>Fields common to all kinds\<close>

fun tx_nonce :: "Transaction \<Rightarrow> U256" where
  "tx_nonce (Legacy tx) = leg_nonce tx"
| "tx_nonce (Eip2930 tx) = acl_nonce tx"
| "tx_nonce (Eip1559 tx) = dyn_nonce tx"
| "tx_nonce (Eip4844 tx) = blb_nonce tx"
| "tx_nonce (Eip7702 tx) = del_nonce tx"

fun tx_gas_price :: "Transaction \<Rightarrow> U256" where
  "tx_gas_price (Legacy tx) = leg_gas_price tx"
| "tx_gas_price (Eip2930 tx) = acl_gas_price tx"
| "tx_gas_price (Eip1559 tx) = dyn_max_fee_per_gas tx"
| "tx_gas_price (Eip4844 tx) = blb_max_fee_per_gas tx"
| "tx_gas_price (Eip7702 tx) = del_max_fee_per_gas tx"

fun tx_gas_limit :: "Transaction \<Rightarrow> U256" where
  "tx_gas_limit (Legacy tx) = leg_gas_limit tx"
| "tx_gas_limit (Eip2930 tx) = acl_gas_limit tx"
| "tx_gas_limit (Eip1559 tx) = dyn_gas_limit tx"
| "tx_gas_limit (Eip4844 tx) = blb_gas_limit tx"
| "tx_gas_limit (Eip7702 tx) = del_gas_limit tx"

fun tx_to :: "Transaction \<Rightarrow> Address option" where
  "tx_to (Legacy tx) = leg_to tx"
| "tx_to (Eip2930 tx) = acl_to tx"
| "tx_to (Eip1559 tx) = dyn_to tx"
| "tx_to (Eip4844 tx) = Some (blb_to tx)"
| "tx_to (Eip7702 tx) = Some (del_to tx)"

fun tx_value :: "Transaction \<Rightarrow> U256" where
  "tx_value (Legacy tx) = leg_value tx"
| "tx_value (Eip2930 tx) = acl_value tx"
| "tx_value (Eip1559 tx) = dyn_value tx"
| "tx_value (Eip4844 tx) = blb_value tx"
| "tx_value (Eip7702 tx) = del_value tx"

fun tx_data :: "Transaction \<Rightarrow> bytes" where
  "tx_data (Legacy tx) = leg_data tx"
| "tx_data (Eip2930 tx) = acl_data tx"
| "tx_data (Eip1559 tx) = dyn_data tx"
| "tx_data (Eip4844 tx) = blb_data tx"
| "tx_data (Eip7702 tx) = del_data tx"

subsection \<open>Authorizations and delegations\<close>

definition auth_new :: "u64 \<Rightarrow> Address \<Rightarrow> U256 \<Rightarrow> Authorization" where
  "auth_new chain_id address nonce =
     \<lparr>auth_chain_id = chain_id, auth_address = address, auth_nonce = nonce, auth_y_parity = False,
      auth_r = 0, auth_s = 0\<rparr>"

definition auth_sign :: "TxEnv \<Rightarrow> Authorization \<Rightarrow> bytes \<Rightarrow> (Eip7702Error, Authorization) result" where
  "auth_sign env a private_key =
     bind_res (map_err (\<lambda>_. AuthInvalidSignature)
       (sign_message (tx_crypto env) (auth_signing_hash env a) private_key)) (\<lambda>sig.
       Ok (a\<lparr>auth_y_parity := (sig_v sig = 1), auth_r := sig_r sig, auth_s := sig_s sig\<rparr>))"

definition auth_verify :: "TxEnv \<Rightarrow> Authorization \<Rightarrow> (Eip7702Error, Address) result" where
  "auth_verify env a =
     map_err (\<lambda>_. AuthInvalidSignature) (tx_recover env (auth_signing_hash env a)
       (if auth_y_parity a then 1 else 0) (to_be 32 (auth_r a)) (to_be 32 (auth_s a)))"

definition is_valid_for_chain :: "Authorization \<Rightarrow> u64 \<Rightarrow> bool" where
  "is_valid_for_chain a chain_id \<longleftrightarrow> auth_chain_id a = chain_id"

fun delegations_loop :: "TxEnv \<Rightarrow> u64 \<Rightarrow> Authorization list \<Rightarrow> (Address \<times> Address) list \<Rightarrow>
    (Eip7702Error, (Address \<times> Address) list) result" where
  "delegations_loop env chain_id [] delegations = Ok delegations"
| "delegations_loop env chain_id (auth # auths) delegations =
     (if \<not> is_valid_for_chain auth chain_id then Err AuthInvalidChainId
      else bind_res (auth_verify env auth) (\<lambda>authority.
        delegations_loop env chain_id auths (delegations @ [(authority, auth_address auth)])))"

definition validate_authorizations ::
  "TxEnv \<Rightarrow> Eip7702Transaction \<Rightarrow> u64 \<Rightarrow> (Eip7702Error, (Address \<times> Address) list) result" where
  "validate_authorizations env tx chain_id =
     delegations_loop env chain_id (del_authorization_list tx) []"

record DelegatedAccount =
  dlg_authority :: Address
  dlg_implementation :: Address
  dlg_nonce :: U256

definition delegated_new :: "Address \<Rightarrow> Address \<Rightarrow> U256 \<Rightarrow> DelegatedAccount" where
  "delegated_new authority implementation nonce =
     \<lparr>dlg_authority = authority, dlg_implementation = implementation, dlg_nonce = nonce\<rparr>"

definition is_active :: "DelegatedAccount \<Rightarrow> bool" where
  "is_active acc \<longleftrightarrow> dlg_implementation acc \<noteq> 0"

definition revoke :: "DelegatedAccount \<Rightarrow> DelegatedAccount" where
  "revoke acc = acc\<lparr>dlg_implementation := 0\<rparr>"

end
