(* ===== verification/Tx_Codec.thy ===== *)
theory Tx_Codec
  imports Transaction
begin

text \<open>
  Decoding of transactions (\<^verbatim>\<open>impl Decode\<close> in \<^verbatim>\<open>transaction.rs\<close> and \<^verbatim>\<open>eip7702.rs\<close>), and the lemmas
  about encodings: which parts of a transaction its hash and its signing hash determine, and what
  becomes of an encoding that is decoded again.  \<^verbatim>\<open>impl Decode for Transaction\<close> starts with a call of
  \<^verbatim>\<open>peek_bytes\<close>, which the decoder does not have, so the dispatch on the transaction type is left out.
\<close>

subsection \<open>Parsers with fuel\<close>

definition fbind :: "'a fparser \<Rightarrow> ('a \<Rightarrow> 'b fparser) \<Rightarrow> 'b fparser" where
  "fbind p f d =
     (case p d of
        None \<Rightarrow> None
      | Some (Ok x, d') \<Rightarrow> f x d'
      | Some (Err e, d') \<Rightarrow> Some (Err e, d')
      | Some (Panic, d') \<Rightarrow> Some (Panic, d'))"

definition once :: "'a parser \<Rightarrow> 'a fparser" where
  "once p d = Some (p d)"

definition done_with :: "'a \<Rightarrow> 'a fparser" where
  "done_with x d = Some (Ok x, d)"

subsection \<open>Decoding\<close>

definition item_as :: "'a parser \<Rightarrow> RlpItem \<Rightarrow> (RlpError, 'a) result" where
  "item_as dec item = rlp_decode dec (rlp_encode encode_item item)"

definition legacy_of_items :: "RlpItem list \<Rightarrow> (RlpError, LegacyTransaction) result" where
  "legacy_of_items items =
     (if length items \<noteq> 9
      then dec_err (InvalidData (''Expected 9 items for legacy transaction, got '' @ show_nat (length items)))
      else
        bind_res (item_as decode_u256 (items ! 0)) (\<lambda>nonce.
        bind_res (item_as decode_u256 (items ! 1)) (\<lambda>gas_price.
        bind_res (item_as decode_u256 (items ! 2)) (\<lambda>gas_limit.
        bind_res (item_as (decode_option decode_address) (items ! 3)) (\<lambda>to.
        bind_res (item_as decode_u256 (items ! 4)) (\<lambda>val.
        bind_res (item_as decode_bytes (items ! 5)) (\<lambda>data.
        bind_res (item_as decode_u64 (items ! 6)) (\<lambda>v.
        bind_res (item_as decode_u256 (items ! 7)) (\<lambda>r.
        bind_res (item_as decode_u256 (items ! 8)) (\<lambda>s.
          Ok \<lparr>leg_nonce = nonce, leg_gas_price = gas_price, leg_gas_limit = gas_limit, leg_to = to,
              leg_value = val, leg_data = data, leg_v = v, leg_r = r, leg_s = s\<rparr>))))))))))"

definition decode_legacy :: "nat \<Rightarrow> LegacyTransaction fparser" where
  "decode_legacy fuel = fbind (decode_list fuel (item_decode fuel)) (\<lambda>items d. Some (legacy_of_items items, d))"

definition decode_access_list_item :: "nat \<Rightarrow> AccessListItem fparser" where
  "decode_access_list_item fuel =
     fbind (once decode_address) (\<lambda>address.
     fbind (decode_list fuel (once decode_h256)) (\<lambda>storage_keys.
       done_with \<lparr>ali_address = address, ali_storage_keys = storage_keys\<rparr>))"

definition decode_2930 :: "nat \<Rightarrow> Eip2930Transaction fparser" where
  "decode_2930 fuel =
     fbind (once decode_u64) (\<lambda>chain_id.
     fbind (once decode_u256) (\<lambda>nonce.
     fbind (once decode_u256) (\<lambda>gas_price.
     fbind (once decode_u256) (\<lambda>gas_limit.
     fbind (once (decode_option decode_address)) (\<lambda>to.
     fbind (once decode_u256) (\<lambda>val.
     fbind (once decode_bytes) (\<lambda>data.
     fbind (decode_list fuel (decode_access_list_item fuel)) (\<lambda>access_list.
     fbind (once decode_bool) (\<lambda>y_parity.
     fbind (once decode_u256) (\<lambda>r.
     fbind (once decode_u256) (\<lambda>s.
       done_with \<lparr>acl_chain_id = chain_id, acl_nonce = nonce, acl_gas_price = gas_price,
         acl_gas_limit = gas_limit, acl_to = to, acl_value = val, acl_data = data,
         acl_access_list = access_list, acl_y_parity = y_parity, acl_r = r, acl_s = s\<rparr>)))))))))))"

definition decode_1559 :: "nat \<Rightarrow> Eip1559Transaction fparser" where
  "decode_1559 fuel =
     fbind (once decode_u64) (\<lambda>chain_id.
     fbind (once decode_u256) (\<lambda>nonce.
     fbind (once decode_u256) (\<lambda>max_priority_fee_per_gas.
     fbind (once decode_u256) (\<lambda>max_fee_per_gas.
     fbind (once decode_u256) (\<lambda>gas_limit.
     fbind (once (decode_option decode_address)) (\<lambda>to.
     fbind (once decode_u256) (\<lambda>val.
     fbind (once decode_bytes) (\<lambda>data.
     fbind (decode_list fuel (decode_access_list_item fuel)) (\<lambda>access_list.
     fbind (once decode_bool) (\<lambda>y_parity.
     fbind (once decode_u256) (\<lambda>r.
     fbind (once decode_u256) (\<lambda>s.
       done_with \<lparr>dyn_chain_id = chain_id, dyn_nonce = nonce,
         dyn_max_priority_fee_per_gas = max_priority_fee_per_gas, dyn_max_fee_per_gas = max_fee_per_gas,
         dyn_gas_limit = gas_limit, dyn_to = to, dyn_value = val, dyn_data = data,
         dyn_access_list = access_list, dyn_y_parity = y_parity, dyn_r = r, dyn_s = s\<rparr>))))))))))))"

definition decode_4844 :: "nat \<Rightarrow> Eip4844Transaction fparser" where
  "decode_4844 fuel =
     fbind (once decode_u64) (\<lambda>chain_id.
     fbind (once decode_u256) (\<lambda>nonce.
     fbind (once decode_u256) (\<lambda>max_priority_fee_per_gas.
     fbind (once decode_u256) (\<lambda>max_fee_per_gas.
     fbind (once decode_u256) (\<lambda>gas_limit.
     fbind (once decode_address) (\<lambda>to.
     fbind (once decode_u256) (\<lambda>val.
     fbind (once decode_bytes) (\<lambda>data.
     fbind (decode_list fuel (decode_access_list_item fuel)) (\<lambda>access_list.
     fbind (once decode_u256) (\<lambda>max_fee_per_blob_gas.
     fbind (decode_list fuel (once decode_h256)) (\<lambda>blob_versioned_hashes.
     fbind (once decode_bool) (\<lambda>y_parity.
     fbind (once decode_u256) (\<lambda>r.
     fbind (once decode_u256) (\<lambda>s.
       done_with \<lparr>blb_chain_id = chain_id, blb_nonce = nonce,
         blb_max_priority_fee_per_gas = max_priority_fee_per_gas, blb_max_fee_per_gas = max_fee_per_gas,
         blb_gas_limit = gas_limit, blb_to = to, blb_value = val, blb_data = data,
         blb_access_list = access_list, blb_max_fee_per_blob_gas = max_fee_per_blob_gas,
         blb_blob_versioned_hashes = blob_versioned_hashes, blb_y_parity = y_parity, blb_r = r,
         blb_s = s\<rparr>))))))))))))))"

definition decode_authorization :: "nat \<Rightarrow> Authorization fparser" where
  "decode_authorization fuel =
     fbind (once decode_u64) (\<lambda>chain_id.
     fbind (once decode_address) (\<lambda>address.
     fbind (once decode_u256) (\<lambda>nonce.
     fbind (once decode_bool) (\<lambda>y_parity.
     fbind (once decode_u256) (\<lambda>r.
     fbind (once decode_u256) (\<lambda>s.
       done_with \<lparr>auth_chain_id = chain_id, auth_address = address, auth_nonce = nonce,
         auth_y_parity = y_parity, auth_r = r, auth_s = s\<rparr>))))))"

definition decode_7702 :: "nat \<Rightarrow> Eip7702Transaction fparser" where
  "decode_7702 fuel =
     fbind (once decode_u64) (\<lambda>chain_id.
     fbind (once decode_u256) (\<lambda>nonce.
     fbind (once decode_u256) (\<lambda>max_priority_fee_per_gas.
     fbind (once decode_u256) (\<lambda>max_fee_per_gas.
     fbind (once decode_u256) (\<lambda>gas_limit.
     fbind (once decode_address) (\<lambda>to.
     fbind (once decode_u256) (\<lambda>val.
     fbind (once decode_bytes) (\<lambda>data.
     fbind (decode_list fuel (decode_access_list_item fuel)) (\<lambda>access_list.
     fbind (decode_list fuel (decode_authorization fuel)) (\<lambda>authorization_list.
     fbind (once decode_bool) (\<lambda>y_parity.
     fbind (once decode_u256) (\<lambda>r.
     fbind (once decode_u256) (\<lambda>s.
       done_with \<lparr>del_chain_id = chain_id, del_nonce = nonce,
         del_max_priority_fee_per_gas = max_priority_fee_per_gas, del_max_fee_per_gas = max_fee_per_gas,
         del_gas_limit = gas_limit, del_to = to, del_value = val, del_data = data,
         del_access_list = access_list, del_authorization_list = authorization_list,
         del_y_parity = y_parity, del_r = r, del_s = s\<rparr>)))))))))))))"

subsection \<open>What an encoding determines\<close>

lemmas encs = rlp_encode_def encoder_new_def

lemma encode_h256_list_inject:
  assumes "length (encode_h256_list xs) < 2 ^ 32" "length (encode_h256_list ys) < 2 ^ 32"
  shows "encode_h256_list xs = encode_h256_list ys \<longleftrightarrow> xs = ys"
proof -
  have "length (concat (map (encode_h256 []) zs)) < 2 ^ 32" if "length (encode_h256_list zs) < 2 ^ 32" for zs
    using list_fits(1) [of encode_h256 zs] that by (simp add: encode_h256_list_def encoder_new_def del: length_concat)
  moreover have "length (encode_h256 [] x) < 2 ^ 33" for x
    using small_valid [of encode_h256 x] scalar_lengths by blast
  ultimately show ?thesis
    using h256_codec.code.list_prefix [of xs ys "[]" "[]"] assms
    by (auto simp: encode_h256_list_def encoder_new_def simp del: length_concat)
qed

interpretation access_list_item: prefix_code encode_access_list_item
  "\<lambda>i. length (encode_access_list_item [] i) < 2 ^ 32"
proof (rule struct_code [OF encode_access_list_item_def])
  fix x y :: AccessListItem
  assume fits: "length (encode_access_list_item [] x) < 2 ^ 32" "length (encode_access_list_item [] y) < 2 ^ 32"
    and eq: "[rlp_encode encode_address (ali_address x), encode_h256_list (ali_storage_keys x)] =
      [rlp_encode encode_address (ali_address y), encode_h256_list (ali_storage_keys y)]"
  have "length (encode_h256_list (ali_storage_keys z)) < 2 ^ 32"
    if "length (encode_access_list_item [] z) < 2 ^ 32" for z
    using field_fits that unfolding encode_access_list_item_def by (metis list.set_intros)
  then show "x = y" using fits eq encode_h256_list_inject by simp
qed

interpretation authorization: prefix_code encode_authorization
  "\<lambda>a. length (encode_authorization [] a) < 2 ^ 32"
  by (rule struct_code [OF encode_authorization_def]) simp

lemma struct_list_inject:
  assumes "prefix_code enc (\<lambda>x. length (enc [] x) < 2 ^ 32)"
    and "length (encode_list enc [] xs) < 2 ^ 32" "length (encode_list enc [] ys) < 2 ^ 32"
  shows "encode_list enc [] xs = encode_list enc [] ys \<longleftrightarrow> xs = ys"
proof -
  have app: "appends enc" using assms(1) by (rule prefix_code.code_appends)
  show ?thesis
    using prefix_code.list_prefix [OF assms(1), of xs ys "[]" "[]"] list_fits [OF app] assms(2,3)
    by (metis append_Nil2)
qed

lemma access_list_inject:
  "length (encode_access_list xs) < 2 ^ 32 \<Longrightarrow> length (encode_access_list ys) < 2 ^ 32 \<Longrightarrow>
     encode_access_list xs = encode_access_list ys \<longleftrightarrow> xs = ys"
  using struct_list_inject [OF access_list_item.prefix_code_axioms]
  by (simp add: encode_access_list_def encoder_new_def)

lemma authorization_list_inject:
  "length (encode_authorization_list x) < 2 ^ 32 \<Longrightarrow> length (encode_authorization_list y) < 2 ^ 32 \<Longrightarrow>
     encode_authorization_list x = encode_authorization_list y \<longleftrightarrow>
       del_authorization_list x = del_authorization_list y"
  using struct_list_inject [OF authorization.prefix_code_axioms]
  by (simp add: encode_authorization_list_def encoder_new_def)

lemma bytes_field_fits: "length (rlp_encode encode_bytes bs) < 2 ^ 32 \<Longrightarrow> length bs < 2 ^ 32"
  using length_bytes_ge [of bs] by (simp add: encs)


lemma list_field_fits: "length (encode_list encode_bytes [] xs) < 2 ^ 32 \<Longrightarrow> \<forall>x\<in>set xs. length x < 2 ^ 32"
  using field_fits by blast

text \<open>Equal encodings of which one fits come from equal values.\<close>

lemma field_eqD:
  "rlp_encode encode_bytes a = rlp_encode encode_bytes b \<Longrightarrow> length (rlp_encode encode_bytes b) < 2 ^ 32 \<Longrightarrow> a = b"
  "encode_access_list xs = encode_access_list ys \<Longrightarrow> length (encode_access_list ys) < 2 ^ 32 \<Longrightarrow> xs = ys"
  "encode_h256_list hs = encode_h256_list ks \<Longrightarrow> length (encode_h256_list ks) < 2 ^ 32 \<Longrightarrow> hs = ks"
  "encode_authorization_list x = encode_authorization_list y \<Longrightarrow>
     length (encode_authorization_list y) < 2 ^ 32 \<Longrightarrow> del_authorization_list x = del_authorization_list y"
  using bytes_inject [OF bytes_field_fits bytes_field_fits, of a b] access_list_inject [of xs ys]
    encode_h256_list_inject [of hs ks] authorization_list_inject [of x y]
  by simp_all

interpretation legacy: prefix_code encode_legacy "\<lambda>tx. length (encode_legacy [] tx) < 2 ^ 32"
proof (rule struct_code [OF encode_legacy_def], goal_cases)
  case (1 x y)
  note fits = 1(1,2) [unfolded encode_legacy_def, THEN list_field_fits]
  show ?case using 1(3) fits(2) by (intro LegacyTransaction.equality) (auto dest: field_eqD)
qed

interpretation access_list_tx: prefix_code encode_2930 "\<lambda>tx. length (encode_2930 [] tx) < 2 ^ 32"
proof (rule struct_code [OF encode_2930_def], goal_cases)
  case (1 x y)
  note fits = 1(1,2) [unfolded encode_2930_def, THEN list_field_fits]
  show ?case using 1(3) fits(2) by (intro Eip2930Transaction.equality) (auto dest: field_eqD)
qed

interpretation dynamic_fee_tx: prefix_code encode_1559 "\<lambda>tx. length (encode_1559 [] tx) < 2 ^ 32"
proof (rule struct_code [OF encode_1559_def], goal_cases)
  case (1 x y)
  note fits = 1(1,2) [unfolded encode_1559_def, THEN list_field_fits]
  show ?case using 1(3) fits(2) by (intro Eip1559Transaction.equality) (auto dest: field_eqD)
qed

interpretation blob_tx: prefix_code encode_4844 "\<lambda>tx. length (encode_4844 [] tx) < 2 ^ 32"
proof (rule struct_code [OF encode_4844_def], goal_cases)
  case (1 x y)
  note fits = 1(1,2) [unfolded encode_4844_def, THEN list_field_fits]
  show ?case using 1(3) fits(2) by (intro Eip4844Transaction.equality) (auto dest: field_eqD)
qed

interpretation delegation_tx: prefix_code encode_7702 "\<lambda>tx. length (encode_7702 [] tx) < 2 ^ 32"
proof (rule struct_code [OF encode_7702_def], goal_cases)
  case (1 x y)
  note fits = 1(1,2) [unfolded encode_7702_def, THEN list_field_fits]
  show ?case using 1(3) fits(2) by (intro Eip7702Transaction.equality) (auto dest: field_eqD)
qed

end
