(* ===== verification/Tx_Payload.thy ===== *)
theory Tx_Payload
  imports Tx_Codec
begin

text \<open>
  What is hashed.  \<open>tx_payload\<close> is the byte string whose hash is the hash of a transaction and
  \<open>signing_payload\<close> the one whose hash is signed; \<open>unsigned\<close> is the part of a transaction that the
  signer agrees to.  Hash functions are not injective, so the lemmas are about these byte strings:
  two transactions have the same hash under every hash function precisely when the strings agree.
\<close>

subsection \<open>Byte strings that are hashed\<close>

fun tx_payload :: "Transaction \<Rightarrow> bytes" where
  "tx_payload (Legacy tx) = rlp_encode encode_legacy tx"
| "tx_payload (Eip2930 tx) = 0x01 # rlp_encode encode_2930 tx"
| "tx_payload (Eip1559 tx) = 0x02 # rlp_encode encode_1559 tx"
| "tx_payload (Eip4844 tx) = 0x03 # rlp_encode encode_4844 tx"
| "tx_payload (Eip7702 tx) = 0x04 # rlp_encode encode_7702 tx"

lemma tx_hash_payload: "tx_hash env t = tx_keccak env (tx_payload t)"
  by (cases t) (simp_all add: legacy_hash_def hash_2930_def hash_1559_def hash_4844_def hash_7702_def)

lemma keccak_apart: "(\<forall>env. tx_keccak env p = tx_keccak env q) \<longleftrightarrow> p = q"
proof
  assume all: "\<forall>env. tx_keccak env p = tx_keccak env q"
  have "tx_keccak \<lparr>tx_crypto = sample_crypto\<lparr>c_keccak := \<lambda>bs. if bs = p then 0 else 1\<rparr>,
      tx_recover = r\<rparr> bs = (if bs = p then 0 else 1)" for bs r
    by (simp add: keccak256_def)
  with all show "p = q" by (metis zero_neq_one)
qed simp

lemma hd_fields:
  "length (encode_list encode_bytes [] xs) < 2 ^ 32 \<Longrightarrow> 0xc0 \<le> hd (encode_list encode_bytes [] xs)"
  using encode_list_shape [of xs encode_bytes] list_fits(1) [OF appends_bytes] appendsD [OF appends_bytes]
  by (metis hd_append2)

lemma list_head_apart: "(0xc0 :: u8) \<le> b \<Longrightarrow> b \<noteq> 1 \<and> b \<noteq> 2 \<and> b \<noteq> 3 \<and> b \<noteq> 4"
  by (auto simp: word_le_nat_alt)

lemma fields_hd:
  "encode_list encode_bytes [] xs = b # bs \<Longrightarrow> Suc (length bs) < 2 ^ 32 \<Longrightarrow> b \<noteq> 1 \<and> b \<noteq> 2 \<and> b \<noteq> 3 \<and> b \<noteq> 4"
  "b # bs = encode_list encode_bytes [] xs \<Longrightarrow> length (encode_list encode_bytes [] xs) < 2 ^ 32 \<Longrightarrow>
     b \<noteq> 1 \<and> b \<noteq> 2 \<and> b \<noteq> 3 \<and> b \<noteq> 4"
  using hd_fields [of xs] list_head_apart [of b] by (metis length_Cons list.sel(1))+

lemma legacy_payload_hd:
  "encode_legacy [] tx = b # bs \<Longrightarrow> Suc (length bs) < 2 ^ 32 \<Longrightarrow> b \<noteq> 1 \<and> b \<noteq> 2 \<and> b \<noteq> 3 \<and> b \<noteq> 4"
  "b # bs = encode_legacy [] tx \<Longrightarrow> length (encode_legacy [] tx) < 2 ^ 32 \<Longrightarrow>
     b \<noteq> 1 \<and> b \<noteq> 2 \<and> b \<noteq> 3 \<and> b \<noteq> 4"
  unfolding encode_legacy_def by (fact fields_hd)+

lemma struct_eqD:
  "prefix_code enc (\<lambda>x. length (enc [] x) < 2 ^ 32) \<Longrightarrow> enc [] x = enc [] y \<Longrightarrow>
     length (enc [] y) < 2 ^ 32 \<Longrightarrow> x = y"
  using prefix_code.code_prefix [of enc _ x y "[]" "[]"] by simp

lemmas tx_eqD = struct_eqD [OF legacy.prefix_code_axioms] struct_eqD [OF access_list_tx.prefix_code_axioms]
  struct_eqD [OF dynamic_fee_tx.prefix_code_axioms] struct_eqD [OF blob_tx.prefix_code_axioms]
  struct_eqD [OF delegation_tx.prefix_code_axioms]

lemma tx_payload_inject:
  assumes "length (tx_payload t') < 2 ^ 32" "tx_payload t = tx_payload t'"
  shows "t = t'"
  using assms by (cases t; cases t') (auto simp: encs dest: tx_eqD legacy_payload_hd)


subsection \<open>Byte strings that are signed\<close>

fun tx_signing_hash :: "TxEnv \<Rightarrow> Transaction \<Rightarrow> H256" where
  "tx_signing_hash env (Legacy tx) = legacy_signing_hash env tx (legacy_chain_id tx)"
| "tx_signing_hash env (Eip2930 tx) = signing_hash_2930 env tx"
| "tx_signing_hash env (Eip1559 tx) = signing_hash_1559 env tx"
| "tx_signing_hash env (Eip4844 tx) = signing_hash_4844 env tx"
| "tx_signing_hash env (Eip7702 tx) = signing_hash_7702 env tx"

text \<open>A transaction without its signature, and the chain it is bound to.\<close>

fun unsigned_tx :: "Transaction \<Rightarrow> Transaction \<times> u64 option" where
  "unsigned_tx (Legacy tx) = (Legacy (tx\<lparr>leg_v := 0, leg_r := 0, leg_s := 0\<rparr>), legacy_chain_id tx)"
| "unsigned_tx (Eip2930 tx) =
     (Eip2930 (tx\<lparr>acl_y_parity := False, acl_r := 0, acl_s := 0\<rparr>), Some (acl_chain_id tx))"
| "unsigned_tx (Eip1559 tx) =
     (Eip1559 (tx\<lparr>dyn_y_parity := False, dyn_r := 0, dyn_s := 0\<rparr>), Some (dyn_chain_id tx))"
| "unsigned_tx (Eip4844 tx) =
     (Eip4844 (tx\<lparr>blb_y_parity := False, blb_r := 0, blb_s := 0\<rparr>), Some (blb_chain_id tx))"
| "unsigned_tx (Eip7702 tx) =
     (Eip7702 (tx\<lparr>del_y_parity := False, del_r := 0, del_s := 0\<rparr>), Some (del_chain_id tx))"

definition legacy_signed_fields :: "LegacyTransaction \<Rightarrow> bytes list" where
  "legacy_signed_fields tx =
     [rlp_encode encode_u256 (leg_nonce tx), rlp_encode encode_u256 (leg_gas_price tx),
      rlp_encode encode_u256 (leg_gas_limit tx), rlp_encode (encode_option encode_address) (leg_to tx),
      rlp_encode encode_u256 (leg_value tx), rlp_encode encode_bytes (leg_data tx)] @
     (case legacy_chain_id tx of
        None \<Rightarrow> []
      | Some c \<Rightarrow> [rlp_encode encode_u64 c, rlp_encode encode_u8 0, rlp_encode encode_u8 0])"

fun signed_fields :: "Transaction \<Rightarrow> bytes list" where
  "signed_fields (Legacy tx) = legacy_signed_fields tx"
| "signed_fields (Eip2930 tx) =
     [rlp_encode encode_u64 (acl_chain_id tx), rlp_encode encode_u256 (acl_nonce tx),
      rlp_encode encode_u256 (acl_gas_price tx), rlp_encode encode_u256 (acl_gas_limit tx),
      rlp_encode (encode_option encode_address) (acl_to tx), rlp_encode encode_u256 (acl_value tx),
      rlp_encode encode_bytes (acl_data tx), encode_access_list (acl_access_list tx)]"
| "signed_fields (Eip1559 tx) =
     [rlp_encode encode_u64 (dyn_chain_id tx), rlp_encode encode_u256 (dyn_nonce tx),
      rlp_encode encode_u256 (dyn_max_priority_fee_per_gas tx), rlp_encode encode_u256 (dyn_max_fee_per_gas tx),
      rlp_encode encode_u256 (dyn_gas_limit tx), rlp_encode (encode_option encode_address) (dyn_to tx),
      rlp_encode encode_u256 (dyn_value tx), rlp_encode encode_bytes (dyn_data tx),
      encode_access_list (dyn_access_list tx)]"
| "signed_fields (Eip4844 tx) =
     [rlp_encode encode_u64 (blb_chain_id tx), rlp_encode encode_u256 (blb_nonce tx),
      rlp_encode encode_u256 (blb_max_priority_fee_per_gas tx), rlp_encode encode_u256 (blb_max_fee_per_gas tx),
      rlp_encode encode_u256 (blb_gas_limit tx), rlp_encode encode_address (blb_to tx),
      rlp_encode encode_u256 (blb_value tx), rlp_encode encode_bytes (blb_data tx),
      encode_access_list (blb_access_list tx), rlp_encode encode_u256 (blb_max_fee_per_blob_gas tx),
      encode_h256_list (blb_blob_versioned_hashes tx)]"
| "signed_fields (Eip7702 tx) =
     [rlp_encode encode_u64 (del_chain_id tx), rlp_encode encode_u256 (del_nonce tx),
      rlp_encode encode_u256 (del_max_priority_fee_per_gas tx), rlp_encode encode_u256 (del_max_fee_per_gas tx),
      rlp_encode encode_u256 (del_gas_limit tx), rlp_encode encode_address (del_to tx),
      rlp_encode encode_u256 (del_value tx), rlp_encode encode_bytes (del_data tx),
      encode_access_list (del_access_list tx), encode_authorization_list tx]"

fun kind_prefix :: "Transaction \<Rightarrow> bytes" where
  "kind_prefix (Legacy tx) = []"
| "kind_prefix (Eip2930 tx) = [0x01]"
| "kind_prefix (Eip1559 tx) = [0x02]"
| "kind_prefix (Eip4844 tx) = [0x03]"
| "kind_prefix (Eip7702 tx) = [0x04]"

definition signing_payload :: "Transaction \<Rightarrow> bytes" where
  "signing_payload t = kind_prefix t @ encode_list encode_bytes [] (signed_fields t)"

lemma tx_signing_hash_payload: "tx_signing_hash env t = tx_keccak env (signing_payload t)"
  by (cases t)
    (simp_all add: signing_payload_def encoder_new_def legacy_signing_hash_def legacy_signed_fields_def
      signing_hash_2930_def signing_hash_1559_def signing_hash_4844_def signing_hash_7702_def
      split: option.splits)

lemma signing_payload_fields:
  assumes "length (signing_payload t') < 2 ^ 32" "signing_payload t = signing_payload t'"
  shows "kind_prefix t = kind_prefix t' \<and> signed_fields t = signed_fields t'"
proof -
  have len: "length (signing_payload t) < 2 ^ 32" using assms by simp
  have kinds: "kind_prefix t = kind_prefix t'"
    using assms len by (cases t; cases t') (auto simp: signing_payload_def dest: fields_hd)
  moreover from this have "signed_fields t = signed_fields t'"
    using assms len fields_prefix [of "signed_fields t" "signed_fields t'" "[]" "[]"]
    by (simp add: signing_payload_def)
  ultimately show ?thesis by simp
qed

lemma signed_fields_fit:
  "length (signing_payload t) < 2 ^ 32 \<Longrightarrow> \<forall>f\<in>set (signed_fields t). length f < 2 ^ 32"
  by (rule list_field_fits) (simp add: signing_payload_def)

lemma same_unsigned:
  assumes fits: "length (signing_payload t') < 2 ^ 32"
    and same: "kind_prefix t = kind_prefix t'" "signed_fields t = signed_fields t'"
  shows "unsigned_tx t = unsigned_tx t'"
proof (cases t)
  case (Legacy a)
  then obtain b where t': "t' = Legacy b" using same(1) by (cases t') auto
  show ?thesis
    using signed_fields_fit [OF fits] same(2) unfolding Legacy t'
    by (cases a; cases b) (auto simp: legacy_signed_fields_def split: option.splits dest: field_eqD)
next
  case (Eip2930 a)
  then obtain b where t': "t' = Eip2930 b" using same(1) by (cases t') auto
  show ?thesis
    using signed_fields_fit [OF fits] same(2) unfolding Eip2930 t'
    by (cases a; cases b) (auto dest: field_eqD)
next
  case (Eip1559 a)
  then obtain b where t': "t' = Eip1559 b" using same(1) by (cases t') auto
  show ?thesis
    using signed_fields_fit [OF fits] same(2) unfolding Eip1559 t'
    by (cases a; cases b) (auto dest: field_eqD)
next
  case (Eip4844 a)
  then obtain b where t': "t' = Eip4844 b" using same(1) by (cases t') auto
  show ?thesis
    using signed_fields_fit [OF fits] same(2) unfolding Eip4844 t'
    by (cases a; cases b) (auto dest: field_eqD)
next
  case (Eip7702 a)
  then obtain b where t': "t' = Eip7702 b" using same(1) by (cases t') auto
  show ?thesis
    using signed_fields_fit [OF fits] same(2) unfolding Eip7702 t'
    by (cases a; cases b) (auto dest: field_eqD)
qed

lemma same_signed: "unsigned_tx t = unsigned_tx t' \<Longrightarrow> signing_payload t = signing_payload t'"
proof (cases t)
  case (Legacy a)
  assume same: "unsigned_tx t = unsigned_tx t'"
  then obtain b where "t' = Legacy b" using Legacy by (cases t') auto
  with Legacy same show ?thesis
    by (cases a; cases b) (simp add: signing_payload_def legacy_signed_fields_def)
next
  case (Eip2930 a)
  assume same: "unsigned_tx t = unsigned_tx t'"
  then obtain b where "t' = Eip2930 b" using Eip2930 by (cases t') auto
  with Eip2930 same show ?thesis by (cases a; cases b) (simp add: signing_payload_def)
next
  case (Eip1559 a)
  assume same: "unsigned_tx t = unsigned_tx t'"
  then obtain b where "t' = Eip1559 b" using Eip1559 by (cases t') auto
  with Eip1559 same show ?thesis by (cases a; cases b) (simp add: signing_payload_def)
next
  case (Eip4844 a)
  assume same: "unsigned_tx t = unsigned_tx t'"
  then obtain b where "t' = Eip4844 b" using Eip4844 by (cases t') auto
  with Eip4844 same show ?thesis by (cases a; cases b) (simp add: signing_payload_def)
next
  case (Eip7702 a)
  assume same: "unsigned_tx t = unsigned_tx t'"
  then obtain b where "t' = Eip7702 b" using Eip7702 by (cases t') auto
  with Eip7702 same show ?thesis
    by (cases a; cases b) (simp add: signing_payload_def encode_authorization_list_def)
qed

subsection \<open>Signing\<close>

text \<open>
  A transaction with a signature put into it, as EIP-155 and EIP-2718 prescribe.  The legacy field
  \<open>v\<close> holds the chain and the parity; for the largest \<open>v\<close> there is no room for the parity.
\<close>

fun with_signature :: "Signature \<Rightarrow> Transaction \<Rightarrow> Transaction" where
  "with_signature sig (Legacy tx) =
     Legacy (tx\<lparr>leg_v := (case legacy_chain_id tx of
                            None \<Rightarrow> ucast (sig_v sig)
                          | Some c \<Rightarrow> 35 + 2 * c + ucast (sig_v sig - 27)),
                 leg_r := sig_r sig, leg_s := sig_s sig\<rparr>)"
| "with_signature sig (Eip2930 tx) =
     Eip2930 (tx\<lparr>acl_y_parity := (sig_v sig = 28), acl_r := sig_r sig, acl_s := sig_s sig\<rparr>)"
| "with_signature sig (Eip1559 tx) =
     Eip1559 (tx\<lparr>dyn_y_parity := (sig_v sig = 28), dyn_r := sig_r sig, dyn_s := sig_s sig\<rparr>)"
| "with_signature sig (Eip4844 tx) =
     Eip4844 (tx\<lparr>blb_y_parity := (sig_v sig = 28), blb_r := sig_r sig, blb_s := sig_s sig\<rparr>)"
| "with_signature sig (Eip7702 tx) =
     Eip7702 (tx\<lparr>del_y_parity := (sig_v sig = 28), del_r := sig_r sig, del_s := sig_s sig\<rparr>)"

fun has_room :: "Transaction \<Rightarrow> bool" where
  "has_room (Legacy tx) = (leg_v tx \<noteq> u64_max)"
| "has_room t = True"

lemma legacy_v_chain:
  assumes "35 \<le> v" and "v \<noteq> u64_max" and "p \<le> 1"
  shows "35 \<le> 35 + 2 * ((v - 35) div 2) + (p :: u64)"
    and "(35 + 2 * ((v - 35) div 2) + p - 35) div 2 = (v - 35) div 2"
    and "(35 + 2 * ((v - 35) div 2) + p - 35) mod 2 = p"
proof -
  let ?c = "unat ((v - 35) div 2)"
  have v: "35 \<le> unat v" "unat v < 2 ^ 64 - 1"
    using assms(1) unat_less_u64_max [OF assms(2)] by (simp_all add: word_le_nat_alt)
  have c: "?c = (unat v - 35) div 2" using assms(1) by (simp add: unat_div unat_sub)
  have p: "unat p \<le> 1" using assms(3) by (simp add: word_le_nat_alt)
  have sum: "unat (35 + 2 * ((v - 35) div 2) + p) = 35 + 2 * ?c + unat p"
    using v p c by (simp add: unat_word_ariths)
  then show le: "35 \<le> 35 + 2 * ((v - 35) div 2) + p" by (simp add: word_le_nat_alt)
  have diff: "unat (35 + 2 * ((v - 35) div 2) + p - 35) = 2 * ?c + unat p"
    by (subst unat_sub [OF le]) (simp add: sum)
  show "(35 + 2 * ((v - 35) div 2) + p - 35) div 2 = (v - 35) div 2"
    using p by (simp only: word_unat_eq_iff unat_div diff) simp
  show "(35 + 2 * ((v - 35) div 2) + p - 35) mod 2 = p"
    using p by (simp only: word_unat_eq_iff unat_mod diff) simp
qed

lemma legacy_with_signature:
  assumes v: "sig_v sig = 27 \<or> sig_v sig = 28" and room: "leg_v tx \<noteq> u64_max"
    and signed: "with_signature sig (Legacy tx) = Legacy tx'"
  shows "legacy_chain_id tx' = legacy_chain_id tx" and "legacy_recovery tx' + 27 = sig_v sig"
proof -
  have tx': "leg_v tx' = (case legacy_chain_id tx of None \<Rightarrow> ucast (sig_v sig)
      | Some c \<Rightarrow> 35 + 2 * c + ucast (sig_v sig - 27))"
    using signed by auto
  have p: "ucast (sig_v sig - 27) \<le> (1 :: u64)" using v by (auto simp: word_le_nat_alt)
  have "legacy_chain_id tx' = legacy_chain_id tx \<and> legacy_recovery tx' + 27 = sig_v sig"
  proof (cases "35 \<le> leg_v tx")
    case True
    have "leg_v tx' = 35 + 2 * ((leg_v tx - 35) div 2) + ucast (sig_v sig - 27)"
      using True tx' by (simp add: legacy_chain_id_def)
    note tx' = this and facts = legacy_v_chain [OF True room p]
    show ?thesis
      unfolding legacy_chain_id_def legacy_recovery_def tx' facts(2,3) using True facts(1) v by auto
  next
    case False
    then have "leg_v tx' = ucast (sig_v sig)" using tx' by (simp add: legacy_chain_id_def)
    moreover have "\<not> 35 \<le> (ucast (sig_v sig) :: u64)" using v by (auto simp: word_le_nat_alt)
    ultimately show ?thesis using False v by (auto simp: legacy_chain_id_def legacy_recovery_def)
  qed
  then show "legacy_chain_id tx' = legacy_chain_id tx" and "legacy_recovery tx' + 27 = sig_v sig" by auto
qed

lemma unsigned_with_signature:
  assumes "sig_v sig = 27 \<or> sig_v sig = 28" and "has_room t"
  shows "unsigned_tx (with_signature sig t) = unsigned_tx t"
proof (cases t)
  case (Legacy tx)
  obtain tx' where tx': "with_signature sig (Legacy tx) = Legacy tx'" by simp
  moreover have "leg_v tx \<noteq> u64_max" using assms(2) by (simp add: Legacy)
  ultimately have "legacy_chain_id tx' = legacy_chain_id tx" by (intro legacy_with_signature(1) [OF assms(1)])
  then show ?thesis using tx' by (auto simp: Legacy)
qed simp_all

definition recovers_by_parts :: "TxEnv \<Rightarrow> bool" where
  "recovers_by_parts env \<longleftrightarrow>
     (\<forall>h p r s. tx_recover env h p (to_be 32 r) (to_be 32 s) =
       recover_address (tx_crypto env) h \<lparr>sig_r = r, sig_s = s, sig_v = p + 27\<rparr>)"

text \<open>
  The sender of a transaction with a signature is what the signature recovers to.
\<close>

lemma sender_with_signature:
  assumes "sig_v sig = 27 \<or> sig_v sig = 28" and "has_room t" and "recovers_by_parts env"
    and "recover_address (tx_crypto env) (tx_signing_hash env t) sig = Ok a"
  shows "tx_sender env (with_signature sig t) = Ok a"
proof -
  let ?t = "with_signature sig t"
  have "tx_signing_hash env ?t = tx_signing_hash env t"
    using same_signed [OF unsigned_with_signature [OF assms(1,2)]] by (simp add: tx_signing_hash_payload)
  then have rec: "recover_address (tx_crypto env) (tx_signing_hash env ?t) sig = Ok a"
    using assms(4) by simp
  have parity: "parity_v (sig_v sig = 28) = sig_v sig" "(if sig_v sig = 28 then 1 else 0) + 27 = sig_v sig"
    using assms(1) by (auto simp: parity_v_def)
  have eta: "\<lparr>sig_r = sig_r sig, sig_s = sig_s sig, sig_v = sig_v sig\<rparr> = sig" by simp
  show ?thesis
  proof (cases t)
    case (Legacy tx)
    then show ?thesis
      using rec legacy_with_signature(2) [OF assms(1)] assms(2) by (simp add: legacy_sender_def eta)
  next
    case (Eip7702 tx)
    then show ?thesis
      using rec assms(3) parity by (simp add: sender_7702_def recovers_by_parts_def eta)
  qed (use rec parity in \<open>simp_all add: sender_2930_def sender_1559_def sender_4844_def eta\<close>)
qed

end
