(* ===== verification/Tx_Properties.thy ===== *)
theory Tx_Properties
  imports Tx_Payload
begin

text \<open>
  Properties of transactions: what their hashes identify, what a signature covers and whom it
  names, and that encodings are not read back.
\<close>

subsection \<open>Decoding encodings\<close>

lemma decode_bytes_fields:
  assumes "length (encode_list encode_bytes [] xs) < 2 ^ 32"
  shows "decode_bytes (decoder_new (encode_list encode_bytes [] xs)) =
    (dec_err (InvalidData ''Expected data, got list''), decoder_new (encode_list encode_bytes [] xs))"
proof -
  have app: "encode_bytes buf x = buf @ encode_bytes [] x" for buf x by (rule appendsD [OF appends_bytes])
  obtain h where "encode_list encode_bytes [] xs = h @ concat (map (encode_bytes []) xs)"
    "\<And>pre rest. decode_header (cursor pre (h @ concat (map (encode_bytes []) xs) @ rest)) =
       Ok (length h, length (concat (map (encode_bytes []) xs)), False)"
    using encode_list_shape [OF app list_fits(1) [OF appends_bytes assms]] by metis
  from this(1) this(2) [of "[]" "[]"]
  show ?thesis by (simp add: decode_bytes_def decoder_new_cursor)
qed

lemma and_then_fields:
  "length (encode_list encode_bytes [] xs) < 2 ^ 32 \<Longrightarrow>
   and_then decode_bytes f (decoder_new (encode_list encode_bytes [] xs)) =
     (dec_err (InvalidData ''Expected data, got list''), decoder_new (encode_list encode_bytes [] xs))"
  by (simp add: and_then_def decode_bytes_fields)

lemma typed_never_decodes:
  "length (rlp_encode encode_2930 a) < 2 ^ 32 \<Longrightarrow>
     map_option fst (decode_2930 fuel (decoder_new (rlp_encode encode_2930 a))) =
       Some (dec_err (InvalidData ''Expected data, got list''))"
  "length (rlp_encode encode_1559 b) < 2 ^ 32 \<Longrightarrow>
     map_option fst (decode_1559 fuel (decoder_new (rlp_encode encode_1559 b))) =
       Some (dec_err (InvalidData ''Expected data, got list''))"
  "length (rlp_encode encode_4844 c) < 2 ^ 32 \<Longrightarrow>
     map_option fst (decode_4844 fuel (decoder_new (rlp_encode encode_4844 c))) =
       Some (dec_err (InvalidData ''Expected data, got list''))"
  "length (rlp_encode encode_7702 d) < 2 ^ 32 \<Longrightarrow>
     map_option fst (decode_7702 fuel (decoder_new (rlp_encode encode_7702 d))) =
       Some (dec_err (InvalidData ''Expected data, got list''))"
  unfolding encode_2930_def encode_1559_def encode_4844_def encode_7702_def encs
    decode_2930_def decode_1559_def decode_4844_def decode_7702_def
  by (simp_all add: fbind_def once_def decode_u64_def and_then_fields)

lemma string_items: "encode_list encode_bytes [] xs = encode_list encode_item [] (map RlpString xs)"
proof -
  have "foldl encode_bytes buf xs = foldl encode_item buf (map RlpString xs)" for buf
    by (induction xs arbitrary: buf) simp_all
  then show ?thesis by (simp add: encode_list_def)
qed

lemma decode_list_fields:
  assumes fits: "length (encode_list encode_bytes [] xs) < 2 ^ 32" and fuel: "length xs < fuel"
  shows "map_option fst (decode_list fuel (item_decode fuel) (decoder_new (encode_list encode_bytes [] xs))) =
    Some (Ok (map RlpString xs))"
proof -
  obtain f where f: "fuel = Suc f" using fuel by (cases fuel) auto
  have items: "length (concat (map (encode_item []) (map RlpString xs))) < 2 ^ 32"
    using list_fits(1) [OF appends_bytes fits] by (simp add: o_def del: length_concat)
  have "decode_list fuel (item_decode fuel) (cursor [] (encode_list encode_item [] (map RlpString xs) @ [])) =
      Some (Ok (map RlpString xs), cursor ([] @ encode_list encode_item [] (map RlpString xs)) [])"
  proof (rule decode_encode_list)
    show "encode_item buf x = buf @ encode_item [] x" for buf x by (rule appendsD [OF appends_item])
    show "encode_item [] x \<noteq> []" for x by (rule encode_item_nonempty)
    fix x and pre rest :: bytes
    assume x: "x \<in> set (map RlpString xs)" and room: "length pre + length (encode_item [] x) \<le> usize_max"
    then obtain bs where "x = RlpString bs" "length bs < 2 ^ 32" using field_fits [OF fits] by auto
    then show "item_decode fuel (cursor pre (encode_item [] x @ rest)) = Some (Ok x, cursor (pre @ encode_item [] x) rest)"
      using room f by (intro item_decode_encode) simp_all
  qed (use fits fuel items in \<open>simp_all add: string_items del: length_concat\<close>)
  then show ?thesis by (simp add: string_items decoder_new_cursor)
qed

lemma item_as_string:
  "length bs < 2 ^ 32 \<Longrightarrow> fst (and_then decode_bytes f (decoder_new (rlp_encode encode_item (RlpString bs)))) = f bs"
  using and_then_encode_bytes [of bs "[]" f "[]"] length_encode_bytes [of bs]
  by (simp add: encs decoder_new_cursor)

lemma and_then_and_then: "and_then (and_then p f) g = and_then p (\<lambda>x. bind_res (f x) g)"
proof -
  have "bind_res (bind_res r f) g = bind_res r (\<lambda>x. bind_res (f x) g)" for r by (cases r) simp_all
  then show ?thesis by (simp add: and_then_def fun_eq_iff split: prod.splits)
qed

lemma item_as_u256_returns: "length bs < 2 ^ 32 \<Longrightarrow> item_as decode_u256 (RlpString bs) \<noteq> Panic"
  by (simp add: item_as_def rlp_decode_def decode_u256_def item_as_string)

text \<open>The encoded recipient is one byte too long for an address, or is the single byte 0x80.\<close>

lemma item_as_to:
  "\<exists>e. item_as (decode_option decode_address) (RlpString (rlp_encode (encode_option encode_address) to)) = Err e"
proof (cases to)
  case None
  have enc: "rlp_encode (encode_option encode_address) None = [0x80]"
    by (simp add: encs encode_option_def encode_bytes_def)
  have "rlp_encode encode_item (RlpString [0x80]) = [0x81, 0x80]" by (simp add: encs encode_bytes_def)
  then have "is_empty_string (decoder_new (rlp_encode encode_item (RlpString [0x80]))) = Ok False"
    by (simp add: is_empty_string_def decoder_new_def)
  then show ?thesis
    unfolding None enc
    by (simp add: item_as_def rlp_decode_def decode_option_def decode_address_def and_then_and_then item_as_string)
next
  case (Some a)
  let ?bs = "0x94 # to_be 20 a"
  have enc: "rlp_encode (encode_option encode_address) (Some a) = ?bs"
    using encode_address_shape by (simp add: rlp_encode_def encode_option_def)
  have "rlp_encode encode_item (RlpString ?bs) = 0x95 # ?bs" by (simp add: encs encode_bytes_def)
  then have "is_empty_string (decoder_new (rlp_encode encode_item (RlpString ?bs))) = Ok False"
    by (simp add: is_empty_string_def decoder_new_def)
  then show ?thesis
    unfolding Some enc
    by (simp add: item_as_def rlp_decode_def decode_option_def decode_address_def and_then_and_then item_as_string)
qed

lemma bind_res_Err_later: "r \<noteq> Panic \<Longrightarrow> (\<And>x. \<exists>e. f x = Err e) \<Longrightarrow> \<exists>e. bind_res r f = Err e"
  by (cases r) auto

lemma legacy_never_decodes:
  assumes fits: "length (rlp_encode encode_legacy tx) < 2 ^ 32" and fuel: "9 < fuel"
  shows "\<exists>e. map_option fst (decode_legacy fuel (decoder_new (rlp_encode encode_legacy tx))) = Some (Err e)"
proof -
  let ?fs = "[rlp_encode encode_u256 (leg_nonce tx), rlp_encode encode_u256 (leg_gas_price tx),
    rlp_encode encode_u256 (leg_gas_limit tx), rlp_encode (encode_option encode_address) (leg_to tx),
    rlp_encode encode_u256 (leg_value tx), rlp_encode encode_bytes (leg_data tx),
    rlp_encode encode_u64 (leg_v tx), rlp_encode encode_u256 (leg_r tx), rlp_encode encode_u256 (leg_s tx)]"
  have enc: "rlp_encode encode_legacy tx = encode_list encode_bytes [] ?fs"
    by (simp add: encs encode_legacy_def)
  have fields: "\<forall>f\<in>set ?fs. length f < 2 ^ 32" using fits unfolding enc by (rule list_field_fits)
  obtain e where "item_as (decode_option decode_address)
      (RlpString (rlp_encode (encode_option encode_address) (leg_to tx))) = Err e"
    using item_as_to by blast
  then have "legacy_of_items (map RlpString ?fs) =
      bind_res (item_as decode_u256 (RlpString (?fs ! 0))) (\<lambda>_.
      bind_res (item_as decode_u256 (RlpString (?fs ! 1))) (\<lambda>_.
      bind_res (item_as decode_u256 (RlpString (?fs ! 2))) (\<lambda>_. Err e)))"
    by (simp add: legacy_of_items_def)
  moreover have "\<exists>e'. \<dots> = Err e'"
    using fields by (intro bind_res_Err_later item_as_u256_returns) simp_all
  ultimately have "\<exists>e. legacy_of_items (map RlpString ?fs) = Err e" by simp
  moreover have "map_option fst (decode_list fuel (item_decode fuel) (decoder_new (encode_list encode_bytes [] ?fs))) =
      Some (Ok (map RlpString ?fs))"
    using fits fuel by (intro decode_list_fields) (simp_all add: enc)
  ultimately show ?thesis
    unfolding enc by (auto simp: decode_legacy_def fbind_def split: option.splits prod.splits)
qed

subsection \<open>Sizes of sample transactions\<close>

lemma length_encode_length_le: "length (encode_length n) \<le> 4"
  by (simp add: encode_length_def)

lemma length_encode_list_le:
  assumes "appends enc"
  shows "length (encode_list enc [] xs) \<le> 5 + length (concat (map (enc []) xs))"
proof -
  have "foldl enc [] xs = [] @ concat (map (enc []) xs)"
    using assms by (intro foldl_appends appendsD)
  then have "foldl enc encoder_new xs = concat (map (enc []) xs)" by (simp add: encoder_new_def)
  then show ?thesis
    using length_encode_length_le [of "length (concat (map (enc []) xs))"]
    by (simp add: encode_list_def Let_def del: length_concat)
qed

lemma length_encode_bytes_le: "length (encode_bytes [] bs) \<le> 5 + length bs"
  using length_encode_length_le [of "length bs"] by (simp add: encode_bytes_def Let_def)

lemma length_concat_le: "\<forall>x\<in>set xs. length (f x) \<le> m \<Longrightarrow> length (concat (map f xs)) \<le> length xs * m"
  by (induction xs) auto

lemma small_fields:
  assumes "\<forall>f\<in>set fs. length f \<le> 995"
  shows "length (encode_list encode_bytes [] fs) \<le> 5 + length fs * 1000"
proof -
  have "\<forall>f\<in>set fs. length (encode_bytes [] f) \<le> 1000"
  proof
    fix f assume "f \<in> set fs"
    with assms have "length f \<le> 995" by blast
    then show "length (encode_bytes [] f) \<le> 1000" using length_encode_bytes_le [of f] by linarith
  qed
  then have "length (concat (map (encode_bytes []) fs)) \<le> length fs * 1000" by (rule length_concat_le)
  then show ?thesis using length_encode_list_le [OF appends_bytes, of fs] by (simp del: length_concat)
qed

lemma small_scalars [simp]:
  "length (rlp_encode encode_u8 a) \<le> 995" "length (rlp_encode encode_u64 b) \<le> 995"
  "length (rlp_encode encode_u256 c) \<le> 995" "length (rlp_encode encode_bool d) \<le> 995"
  "length (rlp_encode encode_address e) \<le> 995" "length (rlp_encode (encode_option encode_address) f) \<le> 995"
proof -
  show "length (rlp_encode (encode_option encode_address) f) \<le> 995"
    by (cases f) (simp_all add: encs encode_option_def encode_address_def encode_bytes_def)
qed (rule order_trans [OF scalar_lengths(1)], simp, rule order_trans [OF scalar_lengths(4)], simp,
    rule order_trans [OF scalar_lengths(5)], simp, rule order_trans [OF scalar_lengths(6)], simp,
    rule order_trans [OF scalar_lengths(7)], simp)

subsection \<open>Properties\<close>

text \<open>
  C7: The hash of a transaction identifies it.  Whatever the hash function is, equal transactions
  have equal hashes, and two transactions that have equal hashes under every hash function are the
  same transaction, of the same kind and with the same fields, signature included.  The encoding has
  to stay below 4 GiB, where the length headers of the encoder end.
\<close>

theorem tx_hash_identifies:
  assumes "length (tx_payload t') < 2 ^ 32"
  shows "(\<forall>env. tx_hash env t = tx_hash env t') \<longleftrightarrow> t = t'"
  using tx_payload_inject [OF assms] by (auto simp: tx_hash_payload keccak_apart)

definition sample_legacy :: LegacyTransaction where
  "sample_legacy = \<lparr>leg_nonce = 42, leg_gas_price = 1000000000, leg_gas_limit = 50000, leg_to = None,
     leg_value = 0, leg_data = [0x60, 0x80], leg_v = 27, leg_r = 1, leg_s = 2\<rparr>"

lemma sample_legacy_length:
  "length (tx_payload (Legacy sample_legacy)) < 2 ^ 32"
  "length (signing_payload (Legacy sample_legacy)) < 2 ^ 32"
proof -
  have data: "length (rlp_encode encode_bytes (leg_data sample_legacy)) \<le> 995"
    by (simp add: sample_legacy_def encs encode_bytes_def)
  show "length (tx_payload (Legacy sample_legacy)) < 2 ^ 32"
    unfolding tx_payload.simps encode_legacy_def rlp_encode_def [of encode_legacy] encoder_new_def
    by (rule le_less_trans [OF small_fields]) (simp_all add: data)
  show "length (signing_payload (Legacy sample_legacy)) < 2 ^ 32"
    unfolding signing_payload_def signed_fields.simps legacy_signed_fields_def kind_prefix.simps append_Nil
    by (rule le_less_trans [OF small_fields]) (auto simp: data split: option.splits)
qed

theorem tx_hash_identifies_witness:
  "\<not> (\<forall>env. tx_hash env (Legacy (sample_legacy\<lparr>leg_v := 28\<rparr>)) = tx_hash env (Legacy sample_legacy))"
proof -
  have "Legacy (sample_legacy\<lparr>leg_v := 28\<rparr>) \<noteq> Legacy sample_legacy" by (simp add: sample_legacy_def)
  then show ?thesis using tx_hash_identifies [OF sample_legacy_length(1)] by blast
qed

text \<open>
  C5: A signature covers everything in a transaction but itself, and nothing else.  Two transactions
  have the same signing hash under every hash function precisely when they are of the same kind, bound
  to the same chain and agree in all fields except the signature; for a legacy transaction the chain is
  read from \<^verbatim>\<open>v\<close>, and being bound to none differs from being bound to any.
\<close>

theorem tx_signing_binds:
  assumes "length (signing_payload t') < 2 ^ 32"
  shows "(\<forall>env. tx_signing_hash env t = tx_signing_hash env t') \<longleftrightarrow> unsigned_tx t = unsigned_tx t'"
proof
  assume "\<forall>env. tx_signing_hash env t = tx_signing_hash env t'"
  then have "signing_payload t = signing_payload t'" by (simp only: tx_signing_hash_payload keccak_apart)
  from signing_payload_fields [OF assms this] show "unsigned_tx t = unsigned_tx t'"
    using same_unsigned [OF assms] by blast
next
  assume "unsigned_tx t = unsigned_tx t'"
  then show "\<forall>env. tx_signing_hash env t = tx_signing_hash env t'"
    using same_signed [of t t'] by (simp add: tx_signing_hash_payload)
qed

theorem tx_signing_binds_witness:
  "(\<forall>env. tx_signing_hash env (Legacy (sample_legacy\<lparr>leg_v := 28, leg_r := 7\<rparr>)) =
      tx_signing_hash env (Legacy sample_legacy)) \<and>
   \<not> (\<forall>env. tx_signing_hash env (Legacy (sample_legacy\<lparr>leg_v := 37\<rparr>)) =
      tx_signing_hash env (Legacy sample_legacy))"
proof -
  have "unsigned_tx (Legacy (sample_legacy\<lparr>leg_v := 28, leg_r := 7\<rparr>)) = unsigned_tx (Legacy sample_legacy)"
    "unsigned_tx (Legacy (sample_legacy\<lparr>leg_v := 37\<rparr>)) \<noteq> unsigned_tx (Legacy sample_legacy)"
    by (simp_all add: sample_legacy_def legacy_chain_id_def word_le_nat_alt)
  then show ?thesis using tx_signing_binds [OF sample_legacy_length(2)] by blast
qed

text \<open>
  C6: The sender of a signed transaction is the signer.  When the curve keeps its contract, a
  transaction of any kind that carries the signature \<^verbatim>\<open>sign_message\<close> made of its signing hash with
  a key has the address of that key as its sender, for signatures with recovery id 0 or 1, the ones a
  transaction has room for.
\<close>

lemma tx_from_sender: "tx_sender env t = Ok a \<Longrightarrow> tx_from env t = Ok a"
  by (cases t) (simp_all add: unwrap_or_def)

theorem tx_sender_recovers:
  assumes "ecdsa (tx_crypto env) pub" and "recovers_by_parts env"
    and "sign_message (tx_crypto env) (tx_signing_hash env t) k = Ok sig"
    and "sig_v sig = 27 \<or> sig_v sig = 28" and "has_room t"
  shows "tx_sender env (with_signature sig t) = Ok (public_key_to_address (tx_crypto env) (pub k)) \<and>
    tx_from env (with_signature sig t) = Ok (public_key_to_address (tx_crypto env) (pub k))"
proof -
  have "tx_sender env (with_signature sig t) = Ok (public_key_to_address (tx_crypto env) (pub k))"
    by (rule sender_with_signature [OF assms(4,5,2) ecdsa.recover_signed [OF assms(1,3)]])
  then show ?thesis by (simp add: tx_from_sender)
qed

definition sample_tx_env :: "CryptoEnv \<Rightarrow> TxEnv" where
  "sample_tx_env c = \<lparr>tx_crypto = c, tx_recover = (\<lambda>h p r s.
     recover_address c h \<lparr>sig_r = from_be r, sig_s = from_be s, sig_v = p + 27\<rparr>)\<rparr>"

lemma sample_tx_env_parts: "recovers_by_parts (sample_tx_env c)"
  by (simp add: recovers_by_parts_def sample_tx_env_def)

theorem tx_sender_recovers_witness:
  "\<exists>sig. tx_sender (sample_tx_env sample_crypto) (with_signature sig (Legacy sample_legacy)) =
     Ok (public_key_to_address sample_crypto (sample_pub [9]))"
proof -
  have env: "tx_crypto (sample_tx_env sample_crypto) = sample_crypto" by (simp add: sample_tx_env_def)
  have curve: "ecdsa (tx_crypto (sample_tx_env sample_crypto)) sample_pub"
    unfolding env by (rule sample_curve.ecdsa_axioms)
  obtain sig where sig: "sign_message (tx_crypto (sample_tx_env sample_crypto))
      (tx_signing_hash (sample_tx_env sample_crypto) (Legacy sample_legacy)) [9] = Ok sig" "sig_v sig = 27"
    unfolding env by (simp add: sign_message_def sample_crypto_def)
  have "has_room (Legacy sample_legacy)" by (simp add: sample_legacy_def)
  from tx_sender_recovers [OF curve sample_tx_env_parts sig(1) disjI1 [OF sig(2)] this]
  show ?thesis unfolding env by blast
qed

text \<open>
  C39: No transaction is read back from its own encoding.  Decoding the encoding of a legacy
  transaction ends with an error, because each field was encoded twice and is decoded once; decoding the
  encoding of any typed transaction fails at its first field, because the decoder of the fields does not
  enter the list around them.
\<close>

theorem tx_never_decodes:
  assumes "length (rlp_encode encode_legacy a) < 2 ^ 32" "length (rlp_encode encode_2930 b) < 2 ^ 32"
    and "length (rlp_encode encode_1559 c) < 2 ^ 32" "length (rlp_encode encode_4844 d) < 2 ^ 32"
    and "length (rlp_encode encode_7702 e) < 2 ^ 32" and "9 < fuel"
  shows "(\<exists>err. map_option fst (decode_legacy fuel (decoder_new (rlp_encode encode_legacy a))) = Some (Err err)) \<and>
    map_option fst (decode_2930 fuel (decoder_new (rlp_encode encode_2930 b))) =
      Some (dec_err (InvalidData ''Expected data, got list'')) \<and>
    map_option fst (decode_1559 fuel (decoder_new (rlp_encode encode_1559 c))) =
      Some (dec_err (InvalidData ''Expected data, got list'')) \<and>
    map_option fst (decode_4844 fuel (decoder_new (rlp_encode encode_4844 d))) =
      Some (dec_err (InvalidData ''Expected data, got list'')) \<and>
    map_option fst (decode_7702 fuel (decoder_new (rlp_encode encode_7702 e))) =
      Some (dec_err (InvalidData ''Expected data, got list''))"
  by (intro conjI legacy_never_decodes typed_never_decodes assms)

definition sample_2930 :: Eip2930Transaction where
  "sample_2930 = \<lparr>acl_chain_id = 1, acl_nonce = 0, acl_gas_price = 9, acl_gas_limit = 21000, acl_to = Some 5,
     acl_value = 1, acl_data = [], acl_access_list = [\<lparr>ali_address = 5, ali_storage_keys = [1, 2]\<rparr>],
     acl_y_parity = False, acl_r = 1, acl_s = 2\<rparr>"

definition sample_1559 :: Eip1559Transaction where
  "sample_1559 = \<lparr>dyn_chain_id = 1, dyn_nonce = 0, dyn_max_priority_fee_per_gas = 1, dyn_max_fee_per_gas = 9,
     dyn_gas_limit = 21000, dyn_to = None, dyn_value = 1, dyn_data = [], dyn_access_list = [],
     dyn_y_parity = False, dyn_r = 1, dyn_s = 2\<rparr>"

definition sample_4844 :: Eip4844Transaction where
  "sample_4844 = \<lparr>blb_chain_id = 1, blb_nonce = 0, blb_max_priority_fee_per_gas = 1, blb_max_fee_per_gas = 9,
     blb_gas_limit = 21000, blb_to = 5, blb_value = 1, blb_data = [], blb_access_list = [],
     blb_max_fee_per_blob_gas = 3, blb_blob_versioned_hashes = [1], blb_y_parity = False, blb_r = 1, blb_s = 2\<rparr>"

definition sample_7702 :: Eip7702Transaction where
  "sample_7702 = \<lparr>del_chain_id = 1, del_nonce = 0, del_max_priority_fee_per_gas = 1, del_max_fee_per_gas = 9,
     del_gas_limit = 21000, del_to = 5, del_value = 1, del_data = [], del_access_list = [],
     del_authorization_list = [auth_new 1 6 0], del_y_parity = False, del_r = 1, del_s = 2\<rparr>"

lemma sample_fields:
  "length (encode_access_list (acl_access_list sample_2930)) \<le> 995"
  "length (encode_access_list (dyn_access_list sample_1559)) \<le> 995"
  "length (encode_access_list (blb_access_list sample_4844)) \<le> 995"
  "length (encode_access_list (del_access_list sample_7702)) \<le> 995"
  "length (encode_h256_list (blb_blob_versioned_hashes sample_4844)) \<le> 995"
  "length (encode_authorization_list sample_7702) \<le> 995"
  "length (rlp_encode encode_bytes (acl_data sample_2930)) \<le> 995"
  "length (rlp_encode encode_bytes (dyn_data sample_1559)) \<le> 995"
  "length (rlp_encode encode_bytes (blb_data sample_4844)) \<le> 995"
  "length (rlp_encode encode_bytes (del_data sample_7702)) \<le> 995"
  by code_simp+

lemma sample_2930_length: "length (rlp_encode encode_2930 sample_2930) < 2 ^ 32"
  unfolding rlp_encode_def [of encode_2930] encoder_new_def encode_2930_def
  by (rule le_less_trans [OF small_fields]) (simp_all add: sample_fields)

lemma sample_1559_length: "length (rlp_encode encode_1559 sample_1559) < 2 ^ 32"
  unfolding rlp_encode_def [of encode_1559] encoder_new_def encode_1559_def
  by (rule le_less_trans [OF small_fields]) (simp_all add: sample_fields)

lemma sample_4844_length: "length (rlp_encode encode_4844 sample_4844) < 2 ^ 32"
  unfolding rlp_encode_def [of encode_4844] encoder_new_def encode_4844_def
  by (rule le_less_trans [OF small_fields]) (simp_all add: sample_fields)

lemma sample_7702_length: "length (rlp_encode encode_7702 sample_7702) < 2 ^ 32"
  unfolding rlp_encode_def [of encode_7702] encoder_new_def encode_7702_def
  by (rule le_less_trans [OF small_fields]) (simp_all add: sample_fields)

theorem tx_never_decodes_witness:
  "(\<exists>err. map_option fst (decode_legacy 10 (decoder_new (rlp_encode encode_legacy sample_legacy))) = Some (Err err)) \<and>
   map_option fst (decode_7702 10 (decoder_new (rlp_encode encode_7702 sample_7702))) =
     Some (dec_err (InvalidData ''Expected data, got list''))"
proof -
  have "length (rlp_encode encode_legacy sample_legacy) < 2 ^ 32" "9 < (10 :: nat)"
    using sample_legacy_length(1) by simp_all
  from tx_never_decodes [OF this(1) sample_2930_length sample_1559_length sample_4844_length
      sample_7702_length this(2)] show ?thesis by blast
qed

text \<open>
  C40: An authorization is signed with the wrong parity.  \<^verbatim>\<open>Authorization::sign\<close> compares the \<^verbatim>\<open>v\<close> of
  the signature with 1, but \<^verbatim>\<open>sign_message\<close> returns 27 or more; so the parity of a signed
  authorization is always even, and verification recovers a key with parity 0 whatever the signature
  needs.  In the witness the signature needs parity 1 and verification names another authority.
\<close>

lemma auth_signing_hash_signature [simp]:
  "auth_signing_hash env (a\<lparr>auth_y_parity := p, auth_r := r, auth_s := s\<rparr>) = auth_signing_hash env a"
  by (simp add: auth_signing_hash_def)

theorem authorization_parity_lost:
  assumes "ecdsa (tx_crypto env) pub" and "recovers_by_parts env" and "auth_sign env a k = Ok a'"
  shows "\<not> auth_y_parity a' \<and> auth_verify env a' = map_err (\<lambda>_. AuthInvalidSignature)
      (recover_address (tx_crypto env) (auth_signing_hash env a)
        \<lparr>sig_r = auth_r a', sig_s = auth_s a', sig_v = 27\<rparr>)"
proof -
  obtain n bs where n: "n \<le> 3" "sign_message (tx_crypto env) (auth_signing_hash env a) k =
      Ok \<lparr>sig_r = from_be (take 32 bs), sig_s = from_be (drop 32 bs), sig_v = of_nat n + 27\<rparr>"
    using ecdsa.sign_message_Ok [OF assms(1)] by blast
  have "unat (of_nat n + 27 :: u8) = n + 27" using n(1) by (simp add: unat_word_ariths unat_of_nat)
  then have v: "(of_nat n + 27 :: u8) \<noteq> 1" by (auto simp: word_unat_eq_iff)
  have a': "a' = a\<lparr>auth_y_parity := False, auth_r := from_be (take 32 bs), auth_s := from_be (drop 32 bs)\<rparr>"
    using assms(3) v by (auto simp: auth_sign_def n(2))
  then show ?thesis
    using assms(2) by (simp add: auth_verify_def a' recovers_by_parts_def)
qed

definition odd_crypto :: CryptoEnv where
  "odd_crypto = sample_crypto\<lparr>c_keccak := (\<lambda>bs. if 9 \<in> set bs then 1 else 0),
     c_sign := (\<lambda>m k. (1, take 64 (k @ replicate 64 0))),
     c_recover := (\<lambda>m n bs. Ok (if n = 1 then 4 # bs else 4 # replicate 64 0))\<rparr>"

interpretation odd_curve: ecdsa odd_crypto sample_pub
  by unfold_locales (auto simp: odd_crypto_def sample_crypto_def sample_pub_def)

lemma odd_recover_even:
  "recover_address odd_crypto m \<lparr>sig_r = r, sig_s = s, sig_v = 27\<rparr> =
     Ok (public_key_to_address odd_crypto (4 # replicate 64 0))"
  by (simp add: recover_address_def recover_public_key_def odd_crypto_def sample_crypto_def)

lemma odd_address_apart:
  "public_key_to_address odd_crypto (4 # replicate 64 0) \<noteq> public_key_to_address odd_crypto (sample_pub [9])"
proof -
  have "be_nat (drop 12 (to_be 32 (0 :: H256))) = 0" "be_nat (drop 12 (to_be 32 (1 :: H256))) = 1"
    by code_simp+
  then show ?thesis
    by (simp add: public_key_to_address_def keccak256_def odd_crypto_def sample_pub_def from_be_def)
qed

theorem authorization_parity_lost_witness:
  "\<exists>a'. auth_sign (sample_tx_env odd_crypto) (auth_new 1 6 0) [9] = Ok a' \<and> \<not> auth_y_parity a' \<and>
     auth_verify (sample_tx_env odd_crypto) a' \<noteq> Ok (public_key_to_address odd_crypto (sample_pub [9]))"
proof -
  have env: "tx_crypto (sample_tx_env odd_crypto) = odd_crypto" by (simp add: sample_tx_env_def)
  have curve: "ecdsa (tx_crypto (sample_tx_env odd_crypto)) sample_pub"
    unfolding env by (rule odd_curve.ecdsa_axioms)
  obtain sig where "sign_message (tx_crypto (sample_tx_env odd_crypto))
      (auth_signing_hash (sample_tx_env odd_crypto) (auth_new 1 6 0)) [9] = Ok sig"
    using ecdsa.sign_message_Ok [OF curve] by blast
  then obtain a' where sign: "auth_sign (sample_tx_env odd_crypto) (auth_new 1 6 0) [9] = Ok a'"
    by (simp add: auth_sign_def)
  from authorization_parity_lost [OF curve sample_tx_env_parts sign]
  have "\<not> auth_y_parity a'"
    and "auth_verify (sample_tx_env odd_crypto) a' = Ok (public_key_to_address odd_crypto (4 # replicate 64 0))"
    unfolding env by (simp_all add: odd_recover_even)
  then show ?thesis using sign odd_address_apart by auto
qed

end
