(* ===== verification/Spec2Isabelle.thy ===== *)
theory Spec2Isabelle
  imports Evm_Properties Rlp_Properties Storage_Properties Trie_Properties Tx_Properties
begin

text \<open>
  A verification library for the Ethereum client in Rust under \<^verbatim>\<open>src/\<close>.  It covers the parts of the
  client that compute: the virtual machine, the serialization format, the key-value store, the
  Merkle-Patricia trie above it, and transactions with their signatures.

  \<^bold>\<open>How the parts interact.\<close>  A transaction is serialized with RLP, hashed and signed; its sender is
  recovered from the signature.  The virtual machine runs code against a state of accounts.  The trie
  serializes its nodes with RLP, names them by their hash and keeps them in a database.

  \<^bold>\<open>Conventions\<close> (theory \<open>Prelude\<close>).  A function that returns \<^verbatim>\<open>Result\<close> is a function into
  \<open>('e, 'a) result\<close> with the third outcome \<open>Panic\<close>; a function whose recursion may not end takes fuel
  and gives \<open>None\<close> when it runs out.  Integers are words of their width; \<^verbatim>\<open>usize\<close> is \<open>nat\<close> with the
  wrap-around at 64 bits written out.  Structs are records whose fields carry a prefix, enums are
  datatypes.  Library code outside the repository (Keccak-256, the curve secp256k1) is a parameter.

  \<^bold>\<open>Virtual machine\<close> (\<^verbatim>\<open>crates/evm\<close>).
  \<^item> \<open>Evm_Types\<close>: \<^verbatim>\<open>error.rs\<close>, \<^verbatim>\<open>execution.rs\<close> and the account of \<^verbatim>\<open>lib.rs\<close>.
  \<^item> \<open>Evm_Stack\<close>, \<open>Evm_Memory\<close>, \<open>Evm_Gas\<close>, \<open>Evm_Opcodes\<close>, \<open>Evm_State\<close>: \<^verbatim>\<open>stack.rs\<close>, \<^verbatim>\<open>memory.rs\<close>,
    \<^verbatim>\<open>gas.rs\<close>, \<^verbatim>\<open>opcodes.rs\<close>, \<^verbatim>\<open>state.rs\<close>; the stack and the state have a contract as a locale.
  \<^item> \<open>Evm_Arith\<close>, \<open>Evm_Interp\<close>: \<^verbatim>\<open>interpreter.rs\<close>, one definition per opcode.
  \<^item> \<open>Evm_Steps\<close>, \<open>Evm_Safety\<close>: what each opcode keeps (the locale \<open>effect_relation\<close> for the primitive
    effects, \<open>step_relation\<close> with storage writes added) and its effect on the stack.
  \<^item> \<open>Evm_Machine\<close>: the loop as a step relation with its reachable states, the program counter after
    each round (\<open>next_pc\<close>), and runs with the storage writes they perform (\<open>performs\<close>).
  \<^item> \<open>Evm_Properties\<close>: termination, invariants, isolation of a call, static calls, exact stack checks,
    jumps, memory, storage and arithmetic, and the behaviours that depart from the instruction set:
    whatever its result, a call leaves all the storage writes it has performed in the state.
  The fuel \<open>call_fuel\<close> of a call is derived from its gas limit and shown to be enough whenever the
  limit is not the largest \<^verbatim>\<open>u64\<close>; at that limit a loop that never ends is exhibited.

  \<^bold>\<open>RLP\<close> (\<^verbatim>\<open>crates/rlp\<close>).
  \<^item> \<open>Rlp_Encode\<close>, \<open>Rlp_Decode\<close>: \<^verbatim>\<open>encode.rs\<close>, \<^verbatim>\<open>decode.rs\<close>, \<^verbatim>\<open>traits.rs\<close>, \<^verbatim>\<open>lib.rs\<close>, \<^verbatim>\<open>error.rs\<close>.
  \<^item> \<open>Rlp_Codec\<close>, \<open>Rlp_Types\<close>, \<open>Rlp_Items\<close>: the contract \<open>rlp_codec\<close> of an encoding, its interpretation for
    every type of \<^verbatim>\<open>traits.rs\<close>, nested items and termination.  Fuel above the bytes left is enough.
  \<^item> \<open>Rlp_Prefix\<close>: the contract \<open>prefix_code\<close>, met by every \<open>rlp_codec\<close>, by lists and by structs.
  \<^item> \<open>Rlp_Properties\<close>: round trips, prefix freedom, termination; the headers whose length wraps, which
    make a string decoder panic and pass for an empty list; lossy encodings.

  \<^bold>\<open>Storage\<close> (\<^verbatim>\<open>crates/storage\<close>).  \<open>Storage\<close> models the keys of \<^verbatim>\<open>lib.rs\<close>, \<^verbatim>\<open>memory.rs\<close> and the trait of
  \<^verbatim>\<open>traits.rs\<close> as the locale \<open>database\<close>; \<open>Storage_Properties\<close> shows that keys of different kinds are
  apart, that the database implements a partial map, and the order of iteration.

  \<^bold>\<open>Trie\<close> (\<^verbatim>\<open>crates/trie\<close>).
  \<^item> \<open>Nibbles\<close>, \<open>Trie_Node\<close>, \<open>Trie\<close>, \<open>Trie_Proof\<close>: \<^verbatim>\<open>nibbles.rs\<close>, \<^verbatim>\<open>node.rs\<close>, \<^verbatim>\<open>trie.rs\<close>, \<^verbatim>\<open>proof.rs\<close>.
  \<^item> \<open>Trie_Map\<close>, \<open>Trie_Runs\<close>: the functions with fuel related to big-step relations without, and
    histories of operations.  Statements hold for all fuel from some bound on.
  \<^item> \<^verbatim>\<open>node.rs\<close> calls a list writer and a list header reader that the RLP crate does not define.  They are
    parameters with the contract \<open>rlp_lists\<close>; \<open>list_env\<close> is an instance, used in witnesses only.
  \<^item> \<open>Trie_Properties\<close>: refinement of a map, answers of deletion, types, round trips, commit and
    reload, completeness of proofs, and the losses of nodes and of soundness the code allows.  Reloading
    and proofs need nodes that decode from their encodings to themselves (\<open>decodes\<close>, \<open>faithful\<close>); a node
    whose even key ends in a nibble \<open>0\<close> does not.  The root hash of the empty trie is its encoding \<open>0x80\<close>
    padded with zeros.

  \<^bold>\<open>Transactions\<close> (\<^verbatim>\<open>crates/crypto\<close>, \<^verbatim>\<open>crates/core\<close>).
  \<^item> \<open>Crypto\<close>: \<^verbatim>\<open>lib.rs\<close> and \<^verbatim>\<open>secp256k1_crypto.rs\<close>, with the contract \<open>ecdsa\<close> of the curve.
  \<^item> \<open>Transaction\<close>: \<^verbatim>\<open>transaction.rs\<close> and \<^verbatim>\<open>eip7702.rs\<close>, the five kinds with encoding, hashes, senders.
  \<^item> \<open>Tx_Codec\<close>: decoding, and the encodings as prefix codes.
  \<^item> \<open>Tx_Payload\<close>: the byte strings that are hashed and signed, and putting a signature in place.
  \<^item> \<open>Tx_Properties\<close>: a hash identifies a transaction, a signature covers all but itself, the sender is
    the signer; encodings are not read back, and authorizations lose their parity.  Decoding a legacy
    transaction needs fuel above its nine fields.  The bound of 4 GiB on encodings is where the length
    headers of the encoder end.

  \<^bold>\<open>Not modelled.\<close>
  \<^item> The dispatch of \<^verbatim>\<open>Decode for Transaction\<close>, which calls \<^verbatim>\<open>peek_bytes\<close>, a method no file defines.
  \<^item> \<^verbatim>\<open>generate_private_key\<close> (random numbers), the typed access of \<^verbatim>\<open>storage/src/traits.rs\<close> (bincode).
  \<^item> \<^verbatim>\<open>evm/src/precompiled.rs\<close>: hash and curve libraries; no other file of the crate calls it.
  \<^item> \<^verbatim>\<open>storage/src/rocksdb.rs\<close>, \<^verbatim>\<open>account\<close>, \<^verbatim>\<open>network\<close>, \<^verbatim>\<open>sync\<close>, \<^verbatim>\<open>rpc\<close>, \<^verbatim>\<open>engine\<close>, \<^verbatim>\<open>filter\<close>, \<^verbatim>\<open>mev\<close>, \<^verbatim>\<open>monitor\<close>,
    \<^verbatim>\<open>debug\<close>, \<^verbatim>\<open>history-expiry\<close> and the node itself: disk, network, timers and channels.
  \<^item> \<^verbatim>\<open>crypto-advanced\<close>, \<^verbatim>\<open>verkle\<close>, \<^verbatim>\<open>das\<close>, \<^verbatim>\<open>ssf\<close>, \<^verbatim>\<open>zkml\<close>, \<^verbatim>\<open>account-abstraction\<close>, \<^verbatim>\<open>parallel-execution\<close>: they
    rest on curve, proof, signature and threading libraries outside the repository.
  \<^item> \<^verbatim>\<open>txpool\<close>, the blocks and blob gas of \<^verbatim>\<open>core\<close>, \<^verbatim>\<open>verification\<close> and \<^verbatim>\<open>consensus\<close> can be modelled on
    top of these theories and are not yet.
\<close>

end
